theory Spec2Isabelle
  imports Complex_Main "HOL-Library.AList"
begin

section \<open>Eventzen: cart holds and booking finalisation\<close>

text \<open>
  A shallow embedding of the inventory core of the Eventzen server:
  \<^item> \<^verbatim>\<open>src/server/services/cartHoldService.js\<close>: \<^verbatim>\<open>withRetry\<close>, \<^verbatim>\<open>validateQuantity\<close>,
    \<^verbatim>\<open>buildCartItem\<close>, \<^verbatim>\<open>getCart\<close>, \<^verbatim>\<open>reserveTickets\<close>, \<^verbatim>\<open>releaseCartItem\<close>, \<^verbatim>\<open>clearCart\<close>;
  \<^item> \<^verbatim>\<open>src/server/routes/events.js\<close>: the handler of \<^verbatim>\<open>POST /:id/bookings\<close>.

  JavaScript numbers that the code keeps integral (quantities, counters, cents, instants in
  milliseconds) are \<^typ>\<open>int\<close>; the one quotient the code forms, the booking's
  \<^verbatim>\<open>total_amount\<close>, is a \<^typ>\<open>rat\<close>. Both are exact, where a JavaScript double is exact
  only up to \<open>2^53\<close> and rounds a quotient to the nearest double. Identifiers are strings; a
  document id stands for a well-formed ObjectId.

  Each operation runs from start to end on the store it is given. Other clients appear in
  one place, where the code itself expects them: a write to the watched hold key between
  \<^verbatim>\<open>WATCH\<close> and \<^verbatim>\<open>EXEC\<close>. Time does not pass: a time to live is recorded, never counted
  down. A store that cannot be reached is not modelled.
\<close>

subsection \<open>Decimal integers: what JavaScript and Redis read and write\<close>

definition digit_char :: "nat \<Rightarrow> char" where
  "digit_char d = char_of (48 + d)"

fun show_nat :: "nat \<Rightarrow> string" where
  "show_nat n =
     (if n < 10 then [digit_char n] else show_nat (n div 10) @ [digit_char (n mod 10)])"

declare show_nat.simps [simp del]

text \<open>The decimal rendering of an integer, as Redis stores a counter.\<close>

definition show_int :: "int \<Rightarrow> string" where
  "show_int i = (if i < 0 then CHR ''-'' # show_nat (nat (- i)) else show_nat (nat i))"

definition is_digit :: "char \<Rightarrow> bool" where
  "is_digit c = (48 \<le> (of_char c :: nat) \<and> (of_char c :: nat) \<le> 57)"

definition digit_val :: "char \<Rightarrow> nat" where
  "digit_val c = of_char c - 48"

definition digits_val :: "string \<Rightarrow> nat" where
  "digits_val ds = foldl (\<lambda>a c. 10 * a + digit_val c) 0 ds"

text \<open>The ASCII white space that \<^verbatim>\<open>parseInt\<close> skips: TAB, LF, VT, FF, CR and the space.\<close>

definition is_space :: "char \<Rightarrow> bool" where
  "is_space c = ((of_char c :: nat) \<in> {9, 10, 11, 12, 13, 32})"

text \<open>
  JavaScript's \<^verbatim>\<open>parseInt(s, 10)\<close>: leading white space is skipped, one sign is read, then
  the longest run of decimal digits; what follows is ignored. With no digit the result is
  \<^verbatim>\<open>NaN\<close>, here \<open>None\<close>.
\<close>

definition parseInt :: "string \<Rightarrow> int option" where
  "parseInt s =
     (let t = dropWhile is_space s;
          neg = (case t of [] \<Rightarrow> False | c # _ \<Rightarrow> c = CHR ''-'');
          u = (case t of [] \<Rightarrow> [] | c # r \<Rightarrow> if c = CHR ''-'' \<or> c = CHR ''+'' then r else t);
          ds = takeWhile is_digit u
      in if ds = [] then None
         else Some (if neg then - int (digits_val ds) else int (digits_val ds)))"

text \<open>
  What Redis accepts as the integer value of a key (\<^verbatim>\<open>INCRBY\<close>, \<^verbatim>\<open>DECRBY\<close>): exactly the
  canonical decimal renderings, with no white space, no plus sign and no leading zero.
\<close>

definition redis_int :: "string \<Rightarrow> int option" where
  "redis_int s =
     (case parseInt s of
        None \<Rightarrow> None
      | Some n \<Rightarrow> if show_int n = s then Some n else None)"

subsection \<open>Data model\<close>

text \<open>The fields of \<^verbatim>\<open>models/Ticket.js\<close> that the core reads; \<open>tid\<close> is \<^verbatim>\<open>_id\<close>.\<close>

record ticket =
  tid :: string
  eventId :: string
  name :: string
  ttype :: string
  priceCents :: int
  currency :: string
  qtyTotal :: int
  qtySold :: int
  salesStart :: "int option"
  salesEnd :: "int option"
  perOrderLimit :: int
  status :: string

text \<open>A cart line, as \<^verbatim>\<open>buildCartItem\<close> writes it.\<close>

record cart_item =
  item_ticketId :: string
  item_eventId :: string
  item_name :: string
  item_type :: string
  item_priceCents :: int
  item_currency :: string
  item_perOrderLimit :: int
  item_quantity :: int
  item_holdExpiresAt :: int

text \<open>
  A cart. \<^verbatim>\<open>items\<close> is a JavaScript object keyed by ticket id: an association list in
  insertion order, read with \<^const>\<open>map_of\<close> and written with \<^const>\<open>AList.update\<close>.
\<close>

record cart =
  cart_cartId :: string
  cart_userId :: string
  cart_eventId :: string
  cart_currency :: string
  cart_items :: "(string \<times> cart_item) list"

subsection \<open>The hold store (Redis)\<close>

text \<open>
  The keys \<^verbatim>\<open>ticket_hold:<ticketId>\<close> hold a string and the keys \<^verbatim>\<open>cart:<cartId>\<close> a
  serialised cart; the two families never meet, so the store is two maps. Every entry
  carries its time to live in seconds (\<open>None\<close>: no expiry). A cart entry is the cart
  that \<^verbatim>\<open>parseCart\<close> reads back from what \<^verbatim>\<open>serializeCart\<close> wrote.
\<close>

record redis =
  holds :: "string \<rightharpoonup> string \<times> nat option"
  carts :: "string \<rightharpoonup> cart \<times> nat option"

text \<open>The default of \<^verbatim>\<open>CART_HOLD_SECONDS\<close>.\<close>

definition HOLD_SECONDS :: nat where
  "HOLD_SECONDS = 600"

definition cartKey :: "string \<Rightarrow> string" where
  "cartKey cartId = ''cart:'' @ cartId"

definition ticketHoldKey :: "string \<Rightarrow> string" where
  "ticketHoldKey ticketId = ''ticket_hold:'' @ ticketId"

definition redis_get :: "redis \<Rightarrow> string \<Rightarrow> string option" where
  "redis_get r k = map_option fst (holds r k)"

text \<open>
  \<^verbatim>\<open>INCRBY\<close>: an absent key counts as 0 and is created without expiry; a value that is not
  an integer gives an error reply (\<open>None\<close>) and stays as it is.
\<close>

definition redis_incrby :: "redis \<Rightarrow> string \<Rightarrow> int \<Rightarrow> redis \<times> int option" where
  "redis_incrby r k n =
     (case holds r k of
        None \<Rightarrow> (r\<lparr>holds := (holds r)(k \<mapsto> (show_int n, None))\<rparr>, Some n)
      | Some (v, t) \<Rightarrow>
          (case redis_int v of
             None \<Rightarrow> (r, None)
           | Some m \<Rightarrow> (r\<lparr>holds := (holds r)(k \<mapsto> (show_int (m + n), t))\<rparr>, Some (m + n))))"

definition redis_decrby :: "redis \<Rightarrow> string \<Rightarrow> int \<Rightarrow> redis \<times> int option" where
  "redis_decrby r k n = redis_incrby r k (- n)"

definition redis_del :: "redis \<Rightarrow> string \<Rightarrow> redis" where
  "redis_del r k = r\<lparr>holds := (holds r)(k := None)\<rparr>"

definition redis_expire :: "redis \<Rightarrow> string \<Rightarrow> nat \<Rightarrow> redis" where
  "redis_expire r k secs =
     (case holds r k of
        None \<Rightarrow> r
      | Some (v, _) \<Rightarrow> r\<lparr>holds := (holds r)(k \<mapsto> (v, Some secs))\<rparr>)"

definition redis_set_cart :: "redis \<Rightarrow> string \<Rightarrow> cart \<Rightarrow> nat \<Rightarrow> redis" where
  "redis_set_cart r k c secs = r\<lparr>carts := (carts r)(k \<mapsto> (c, Some secs))\<rparr>"

definition redis_del_cart :: "redis \<Rightarrow> string \<Rightarrow> redis" where
  "redis_del_cart r k = r\<lparr>carts := (carts r)(k := None)\<rparr>"

subsection \<open>Errors of the hold service\<close>

text \<open>
  What the service throws, one constructor per \<^verbatim>\<open>throw\<close>:
  \<^item> \<open>TicketNotFound\<close>: 404 "Ticket not found."
  \<^item> \<open>QuantityInvalid\<close>: 400 "Quantity must be a positive integer."
  \<^item> \<open>OverLimit n\<close>: 400 "You can purchase up to n tickets for this SKU."
  \<^item> \<open>CartForbidden\<close>: 403 "Cart does not belong to this user."
  \<^item> \<open>CartEventMismatch\<close>: 400 "Cart already contains tickets from a different event."
  \<^item> \<open>NotEnough\<close>: 400 "Not enough tickets available for this SKU.", \<^verbatim>\<open>retryable: false\<close>
  \<^item> \<open>HoldConflict\<close>: "Cart hold conflict, please retry.", \<^verbatim>\<open>retryable: true\<close>, no status
  \<^item> \<open>RedisReplyError\<close>: the rejection of a command by the store
  \<^item> \<open>ThrownUndefined\<close>: \<^verbatim>\<open>lastError\<close> of \<^verbatim>\<open>withRetry\<close> before any attempt has failed
\<close>

datatype hold_error =
    TicketNotFound
  | QuantityInvalid
  | OverLimit int
  | CartForbidden
  | CartEventMismatch
  | NotEnough
  | HoldConflict
  | RedisReplyError
  | ThrownUndefined

text \<open>The \<^verbatim>\<open>retryable\<close> property of the thrown object (\<open>None\<close>: not set).\<close>

fun retryable :: "hold_error \<Rightarrow> bool option" where
  "retryable NotEnough = Some False"
| "retryable HoldConflict = Some True"
| "retryable _ = None"

fun statusCode :: "hold_error \<Rightarrow> nat option" where
  "statusCode TicketNotFound = Some 404"
| "statusCode QuantityInvalid = Some 400"
| "statusCode (OverLimit _) = Some 400"
| "statusCode CartForbidden = Some 403"
| "statusCode CartEventMismatch = Some 400"
| "statusCode NotEnough = Some 400"
| "statusCode _ = None"

text \<open>
  The spec's error kinds: \<open>ValidationError\<close> is what \<^verbatim>\<open>validateQuantity\<close> throws,
  \<open>InsufficientInventory\<close> is \<^const>\<open>NotEnough\<close> and \<open>Conflict\<close> is \<^const>\<open>HoldConflict\<close>.
\<close>

fun isValidationError :: "hold_error \<Rightarrow> bool" where
  "isValidationError QuantityInvalid = True"
| "isValidationError (OverLimit _) = True"
| "isValidationError _ = False"

subsection \<open>The hold service\<close>

text \<open>
  \<^verbatim>\<open>getCart\<close>: the cart with \<^verbatim>\<open>expiresInSeconds\<close>, the key's remaining time to live or
  \<^verbatim>\<open>HOLD_SECONDS\<close> when the store reports none.
\<close>

definition getCart :: "redis \<Rightarrow> string \<Rightarrow> (cart \<times> nat) option" where
  "getCart r cartId =
     (if cartId = [] then None
      else (case carts r (cartKey cartId) of
              None \<Rightarrow> None
            | Some (c, ttl) \<Rightarrow>
                Some (c, (case ttl of None \<Rightarrow> HOLD_SECONDS
                          | Some t \<Rightarrow> if t > 0 then t else HOLD_SECONDS))))"

text \<open>
  \<^verbatim>\<open>withRetry(fn, attempts = 3)\<close>. The loop index tells \<open>fn\<close> which of its runs this is;
  the state is what \<open>fn\<close> reads and mutates. A run that throws an error whose
  \<^verbatim>\<open>retryable\<close> is \<^verbatim>\<open>false\<close> ends the loop; after the last run \<^verbatim>\<open>lastError\<close> is thrown.
\<close>

function withRetry_from ::
  "(nat \<Rightarrow> 's \<Rightarrow> 's \<times> (hold_error + 'a)) \<Rightarrow> nat \<Rightarrow> nat \<Rightarrow> hold_error \<Rightarrow> 's
     \<Rightarrow> 's \<times> (hold_error + 'a)" where
  "withRetry_from fn attempts i lastError st =
     (if i < attempts then
        (case fn i st of
           (st', Inr res) \<Rightarrow> (st', Inr res)
         | (st', Inl err) \<Rightarrow>
             if retryable err = Some False then (st', Inl err)
             else withRetry_from fn attempts (i + 1) err st')
      else (st, Inl lastError))"
  by pat_completeness auto
termination
  by (relation "measure (\<lambda>(fn, attempts, i, lastError, st). attempts - i)") auto

declare withRetry_from.simps [simp del]

definition withRetry ::
  "(nat \<Rightarrow> 's \<Rightarrow> 's \<times> (hold_error + 'a)) \<Rightarrow> nat \<Rightarrow> 's \<Rightarrow> 's \<times> (hold_error + 'a)" where
  "withRetry fn attempts st = withRetry_from fn attempts 0 ThrownUndefined st"

text \<open>
  \<^verbatim>\<open>validateQuantity\<close> throws or returns nothing: \<open>Some err\<close> is the throw. The quantity is
  an integer here; a \<^verbatim>\<open>perOrderLimit\<close> of 0 is falsy and sets no limit.
\<close>

definition validateQuantity :: "int \<Rightarrow> int \<Rightarrow> hold_error option" where
  "validateQuantity quantity limit =
     (if quantity \<le> 0 then Some QuantityInvalid
      else if limit \<noteq> 0 \<and> quantity > limit then Some (OverLimit limit)
      else None)"

definition buildCartItem :: "ticket \<Rightarrow> int \<Rightarrow> int \<Rightarrow> string \<Rightarrow> cart_item" where
  "buildCartItem t quantity expiresAt ticketId =
     \<lparr>item_ticketId = ticketId, item_eventId = eventId t, item_name = name t,
      item_type = ttype t, item_priceCents = priceCents t, item_currency = currency t,
      item_perOrderLimit = perOrderLimit t, item_quantity = quantity,
      item_holdExpiresAt = expiresAt\<rparr>"

text \<open>\<^verbatim>\<open>Ticket.findById\<close> over the ticket collection.\<close>

definition findById :: "ticket list \<Rightarrow> string \<Rightarrow> ticket option" where
  "findById ts ticketId = find (\<lambda>t. tid t = ticketId) ts"

text \<open>
  What one run of the retried closure meets from outside: the clock, the UUID that
  \<^verbatim>\<open>generateCartId\<close> would return, and what another client does to the watched key
  between this run's \<^verbatim>\<open>WATCH\<close> and its \<^verbatim>\<open>EXEC\<close> (\<open>Touched e\<close>: the key's entry becomes
  \<open>e\<close>, and \<^verbatim>\<open>EXEC\<close> is rejected with a null reply). A run that throws before \<^verbatim>\<open>EXEC\<close>
  leaves the store as it found it: what other clients write at any other moment is part of
  the store a later run or call starts from.
\<close>

datatype interference = Quiet | Touched "(string \<times> nat option) option"

record attempt_env =
  clock :: int
  freshId :: string
  meddling :: interference

text \<open>
  The state of the closure: the store, and \<^verbatim>\<open>workingCart\<close>, which the closure captures
  and, when it is not null, mutates in place (\<^verbatim>\<open>updatedCart\<close> is then the same object).
\<close>

record rstate =
  store :: redis
  workingCart :: "cart option"

record reserved =
  res_cartId :: string
  res_cart :: cart
  res_expiresInSeconds :: nat

text \<open>
  \<^verbatim>\<open>currentHold\<close>: the counter as read, \<open>None\<close> for \<^verbatim>\<open>NaN\<close>. An absent key and the empty
  string are falsy and read as 0.
\<close>

definition currentHoldOf :: "string option \<Rightarrow> int option" where
  "currentHoldOf currentHoldRaw =
     (case currentHoldRaw of
        None \<Rightarrow> Some 0
      | Some raw \<Rightarrow> if raw = [] then Some 0 else parseInt raw)"

definition available :: "ticket \<Rightarrow> string option \<Rightarrow> int" where
  "available t currentHoldRaw =
     qtyTotal t - qtySold t - (case currentHoldOf currentHoldRaw of None \<Rightarrow> 0 | Some h \<Rightarrow> h)"

text \<open>
  The \<^verbatim>\<open>MULTI\<close> block when \<^verbatim>\<open>EXEC\<close> runs it: the three commands in order. An error reply to
  one command does not stop the others, and \<^verbatim>\<open>EXEC\<close> still answers with an array.
\<close>

definition execMulti :: "redis \<Rightarrow> string \<Rightarrow> int \<Rightarrow> string \<Rightarrow> cart \<Rightarrow> redis" where
  "execMulti r holdKey quantity cartK c =
     (let r1 = fst (redis_incrby r holdKey quantity);
          r2 = redis_expire r1 holdKey HOLD_SECONDS
      in redis_set_cart r2 cartK c HOLD_SECONDS)"

text \<open>The closure that \<^verbatim>\<open>reserveTickets\<close> hands to \<^verbatim>\<open>withRetry\<close>.\<close>

definition reserveAttempt ::
  "ticket \<Rightarrow> string \<Rightarrow> int \<Rightarrow> string \<Rightarrow> attempt_env \<Rightarrow> rstate
     \<Rightarrow> rstate \<times> (hold_error + reserved)" where
  "reserveAttempt t ticketId quantity userId env st =
     (let holdKey = ticketHoldKey ticketId;
          currentHoldRaw = redis_get (store st) holdKey
      in if quantity > available t currentHoldRaw then (st, Inl NotEnough)
         else
           (let ticketIdString = tid t;
                effectiveCartId =
                  (case workingCart st of
                     None \<Rightarrow> freshId env
                   | Some wc \<Rightarrow> if cart_cartId wc = [] then freshId env else cart_cartId wc);
                expiresAt = clock env + int HOLD_SECONDS * 1000;
                updatedCart =
                  (case workingCart st of
                     Some wc \<Rightarrow> wc
                   | None \<Rightarrow>
                       \<lparr>cart_cartId = effectiveCartId, cart_userId = userId,
                        cart_eventId = eventId t, cart_currency = currency t,
                        cart_items = []\<rparr>);
                nextQuantity =
                  (case map_of (cart_items updatedCart) ticketIdString of
                     Some existingItem \<Rightarrow> item_quantity existingItem + quantity
                   | None \<Rightarrow> quantity)
            in case validateQuantity nextQuantity (perOrderLimit t) of
                 Some err \<Rightarrow> (st, Inl err)
               | None \<Rightarrow>
                   (let written = updatedCart\<lparr>cart_items :=
                          AList.update ticketIdString
                            (buildCartItem t nextQuantity expiresAt ticketIdString)
                            (cart_items updatedCart)\<rparr>;
                        wc' = map_option (\<lambda>_. written) (workingCart st)
                    in case meddling env of
                         Touched e \<Rightarrow>
                           (\<lparr>store = (store st)\<lparr>holds := (holds (store st))(holdKey := e)\<rparr>,
                             workingCart = wc'\<rparr>,
                            Inl HoldConflict)
                       | Quiet \<Rightarrow>
                           (\<lparr>store = execMulti (store st) holdKey quantity
                                       (cartKey effectiveCartId) written,
                             workingCart = wc'\<rparr>,
                            Inr \<lparr>res_cartId = effectiveCartId, res_cart = written,
                                 res_expiresInSeconds = HOLD_SECONDS\<rparr>))))"

text \<open>
  \<^verbatim>\<open>reserveTickets\<close>. The ticket is read once, before the retried closure; \<open>env i\<close> is
  what run \<open>i\<close> of the closure meets.
\<close>

definition reserveTickets ::
  "ticket list \<Rightarrow> (nat \<Rightarrow> attempt_env) \<Rightarrow> string \<Rightarrow> string \<Rightarrow> int \<Rightarrow> string option \<Rightarrow> redis
     \<Rightarrow> redis \<times> (hold_error + reserved)" where
  "reserveTickets ts env userId ticketId quantity cartId r =
     (case findById ts ticketId of
        None \<Rightarrow> (r, Inl TicketNotFound)
      | Some t \<Rightarrow>
          (case validateQuantity quantity (perOrderLimit t) of
             Some err \<Rightarrow> (r, Inl err)
           | None \<Rightarrow>
               (let existingCart = (case cartId of None \<Rightarrow> None | Some c \<Rightarrow> getCart r c);
                    wc = map_option fst existingCart
                in if (case wc of None \<Rightarrow> False | Some c \<Rightarrow> cart_userId c \<noteq> userId)
                   then (r, Inl CartForbidden)
                   else if (case wc of None \<Rightarrow> False | Some c \<Rightarrow> cart_eventId c \<noteq> eventId t)
                   then (r, Inl CartEventMismatch)
                   else (case withRetry
                                (\<lambda>i. reserveAttempt t ticketId quantity userId (env i)) 3
                                \<lparr>store = r, workingCart = wc\<rparr> of
                           (st, res) \<Rightarrow> (store st, res)))))"

text \<open>
  The block that \<^verbatim>\<open>releaseCartItem\<close> and \<^verbatim>\<open>clearCart\<close> both run on a hold key:
  \<^verbatim>\<open>DECRBY\<close>, then \<^verbatim>\<open>DEL\<close> when the new value is at most 0 and \<^verbatim>\<open>EXPIRE\<close> otherwise. An
  error reply to \<^verbatim>\<open>DECRBY\<close> is thrown.
\<close>

definition dropHold :: "redis \<Rightarrow> string \<Rightarrow> int \<Rightarrow> redis \<times> hold_error option" where
  "dropHold r holdKey n =
     (case redis_decrby r holdKey n of
        (r1, None) \<Rightarrow> (r1, Some RedisReplyError)
      | (r1, Some newHold) \<Rightarrow>
          if newHold \<le> 0 then (redis_del r1 holdKey, None)
          else (redis_expire r1 holdKey HOLD_SECONDS, None))"

text \<open>
  \<^verbatim>\<open>releaseCartItem\<close>; \<open>quantity = None\<close> is the omitted argument, \<open>now\<close> is \<^verbatim>\<open>Date.now()\<close>.
\<close>

definition releaseCartItem ::
  "int \<Rightarrow> string \<Rightarrow> string \<Rightarrow> int option \<Rightarrow> redis
     \<Rightarrow> redis \<times> (hold_error + (cart \<times> nat) option)" where
  "releaseCartItem now cartId ticketId quantity r =
     (case getCart r cartId of
        None \<Rightarrow> (r, Inr None)
      | Some currentCart \<Rightarrow>
          (let wc = fst currentCart in
           case map_of (cart_items wc) ticketId of
             None \<Rightarrow> (r, Inr (Some currentCart))
           | Some existingItem \<Rightarrow>
               (let newQuantity =
                      (case quantity of
                         Some q \<Rightarrow> item_quantity existingItem - q
                       | None \<Rightarrow> 0);
                    decrementBy =
                      (case quantity of
                         Some q \<Rightarrow> min q (item_quantity existingItem)
                       | None \<Rightarrow> item_quantity existingItem)
                in case (if decrementBy > 0 then dropHold r (ticketHoldKey ticketId) decrementBy
                         else (r, None)) of
                     (r1, Some err) \<Rightarrow> (r1, Inl err)
                   | (r1, None) \<Rightarrow>
                       (let items' =
                              (if newQuantity > 0
                               then AList.update ticketId
                                      (existingItem\<lparr>item_quantity := newQuantity,
                                         item_holdExpiresAt := now + int HOLD_SECONDS * 1000\<rparr>)
                                      (cart_items wc)
                               else AList.delete ticketId (cart_items wc));
                            wc' = wc\<lparr>cart_items := items'\<rparr>
                        in if items' \<noteq> []
                           then (redis_set_cart r1 (cartKey cartId) wc' HOLD_SECONDS,
                                 Inr (Some (wc', HOLD_SECONDS)))
                           else (redis_del_cart r1 (cartKey cartId), Inr None)))))"

text \<open>The loop of \<^verbatim>\<open>clearCart\<close> over \<^verbatim>\<open>Object.values(cart.items)\<close>.\<close>

fun clearItems :: "cart_item list \<Rightarrow> redis \<Rightarrow> redis \<times> hold_error option" where
  "clearItems [] r = (r, None)"
| "clearItems (item # rest) r =
     (case dropHold r (ticketHoldKey (item_ticketId item)) (item_quantity item) of
        (r1, Some err) \<Rightarrow> (r1, Some err)
      | (r1, None) \<Rightarrow> clearItems rest r1)"

definition clearCart :: "string \<Rightarrow> redis \<Rightarrow> redis \<times> hold_error option" where
  "clearCart cartId r =
     (if cartId = [] then (r, None)
      else (case getCart r cartId of
              None \<Rightarrow> (r, None)
            | Some c \<Rightarrow>
                (case clearItems (map snd (cart_items (fst c))) r of
                   (r1, Some err) \<Rightarrow> (r1, Some err)
                 | (r1, None) \<Rightarrow> (redis_del_cart r1 (cartKey cartId), None))))"

subsection \<open>The hold store: what the statements say of it\<close>

text \<open>
  The hold-counter invariant for one key: the key is absent, or it holds the canonical
  rendering of a positive integer.
\<close>

definition holdCounterOk :: "(string \<times> nat option) option \<Rightarrow> bool" where
  "holdCounterOk e =
     (case e of
        None \<Rightarrow> True
      | Some (v, _) \<Rightarrow> (case redis_int v of None \<Rightarrow> False | Some n \<Rightarrow> 0 < n))"

text \<open>
  What a call that wrote nothing leaves behind: the carts as they were, and every hold key
  as it was or as another client set it during one of the three runs.
\<close>

definition onlyMeddled :: "(nat \<Rightarrow> attempt_env) \<Rightarrow> redis \<Rightarrow> redis \<Rightarrow> bool" where
  "onlyMeddled env r r' \<longleftrightarrow>
     carts r' = carts r
     \<and> (\<forall>k. holds r' k = holds r k \<or> (\<exists>j<3. meddling (env j) = Touched (holds r' k)))"

subsection \<open>Booking: the handler of \<^verbatim>\<open>POST /:id/bookings\<close>\<close>

text \<open>
  The durable store as the handler sees it. A collection is the list of its documents; a
  loaded document is its position in the list together with its contents, and
  \<^verbatim>\<open>save\<close> writes the contents back at that position. Of an event only \<^verbatim>\<open>_id\<close> and
  \<^verbatim>\<open>status\<close> are read.
\<close>

record event =
  ev_id :: string
  ev_status :: string

record booking =
  event_id :: string
  user_id :: string
  booking_quantity :: int
  total_amount :: rat
  booking_status :: string

record db =
  events :: "event list"
  tickets :: "ticket list"
  bookings :: "booking list"

text \<open>
  The \<^verbatim>\<open>Authorization\<close> header after \<^verbatim>\<open>jwt.verify\<close>: missing or not a bearer token, a
  token that does not verify, or a token carrying a user id.
\<close>

datatype auth = NoBearer | BadToken | Bearer string

text \<open>
  A \<^verbatim>\<open>save\<close> inside the transaction may be rejected by the store; \<open>fault\<close> says which
  one is, if any.
\<close>

datatype fault = NoFault | TicketSaveFails | BookingSaveFails

text \<open>
  The request: \<^verbatim>\<open>req.params.id\<close>, \<^verbatim>\<open>Number(quantity)\<close> (an integer here: anything else
  is refused like a quantity of 0), \<^verbatim>\<open>ticketType\<close>, \<^verbatim>\<open>ticketId\<close>, the authorisation, the
  instant \<^verbatim>\<open>new Date()\<close> in milliseconds, and the fault met.
\<close>

record booking_request =
  req_eventId :: string
  req_quantity :: int
  req_ticketType :: "string option"
  req_ticketId :: "string option"
  req_auth :: auth
  req_now :: int
  req_fault :: fault

text \<open>
  What the handler answers with, one constructor per \<^verbatim>\<open>return res.status\<close> and per
  \<^verbatim>\<open>createHttpError\<close>:
  \<^item> \<open>QuantityRequired\<close>: 400 "Valid ticket quantity is required."
  \<^item> \<open>AuthRequired\<close>: 401 "Authentication required."
  \<^item> \<open>TokenInvalid\<close>: 401 "Invalid authentication token."
  \<^item> \<open>EventNotFound\<close>: 404 "Event not found."
  \<^item> \<open>EventNotPublished\<close>: 400 "Event is not available for booking."
  \<^item> \<open>NoTickets\<close>: 400 "No tickets available for this event."
  \<^item> \<open>SalesNotStarted\<close>: 400 "Ticket sales have not started yet."
  \<^item> \<open>SalesClosed\<close>: 400 "Ticket sales window has closed."
  \<^item> \<open>PerOrderLimit n\<close>: 400 "You can purchase up to n tickets per order."
  \<^item> \<open>NotEnoughTickets\<close>: 400 "Not enough tickets available."
  \<^item> \<open>SaveFailed\<close>: 500, a rejected \<^verbatim>\<open>save\<close>
\<close>

datatype book_error =
    QuantityRequired
  | AuthRequired
  | TokenInvalid
  | EventNotFound
  | EventNotPublished
  | NoTickets
  | SalesNotStarted
  | SalesClosed
  | PerOrderLimit int
  | NotEnoughTickets
  | SaveFailed

text \<open>JavaScript truthiness of an optional string: absent and empty are falsy.\<close>

definition truthy :: "string option \<Rightarrow> bool" where
  "truthy v = (case v of None \<Rightarrow> False | Some s \<Rightarrow> s \<noteq> [])"

text \<open>
  \<^verbatim>\<open>ticketQuery\<close>: the event's active tickets, narrowed by \<^verbatim>\<open>_id\<close> when a ticket id
  is given and by \<^verbatim>\<open>name\<close> when a ticket type is given.
\<close>

definition ticketQuery :: "event \<Rightarrow> string option \<Rightarrow> string option \<Rightarrow> ticket \<Rightarrow> bool" where
  "ticketQuery ev ticketId ticketType t =
     (eventId t = ev_id ev \<and> status t = ''active'' \<and>
      (if truthy ticketId then Some (tid t) = ticketId else True) \<and>
      (if truthy ticketType then Some (name t) = ticketType else True))"

text \<open>
  \<^verbatim>\<open>findOne(query).sort({ priceCents: 1 })\<close>: a matching document of least price. Among
  equally cheap ones the store is free to choose; the model takes the first.
\<close>

fun cheapest :: "(nat \<times> ticket) list \<Rightarrow> (nat \<times> ticket) option" where
  "cheapest [] = None"
| "cheapest (x # xs) =
     (case cheapest xs of
        None \<Rightarrow> Some x
      | Some y \<Rightarrow> if priceCents (snd x) \<le> priceCents (snd y) then Some x else Some y)"

definition findOneTicket :: "ticket list \<Rightarrow> (ticket \<Rightarrow> bool) \<Rightarrow> (nat \<times> ticket) option" where
  "findOneTicket ts q = cheapest (filter (\<lambda>(i, t). q t) (enumerate 0 ts))"

text \<open>
  The function handed to \<^verbatim>\<open>session.withTransaction\<close>, run on the session's view of the
  store. It returns the view it leaves behind together with the booking or the error thrown.
\<close>

definition bookingTxn :: "booking_request \<Rightarrow> string \<Rightarrow> db \<Rightarrow> db \<times> (book_error + booking)" where
  "bookingTxn req userId d =
     (let qty = req_quantity req in
      case find (\<lambda>e. ev_id e = req_eventId req) (events d) of
        None \<Rightarrow> (d, Inl EventNotFound)
      | Some ev \<Rightarrow>
          if ev_status ev \<noteq> ''published'' then (d, Inl EventNotPublished)
          else
            (case findOneTicket (tickets d)
                    (ticketQuery ev (req_ticketId req) (req_ticketType req)) of
               None \<Rightarrow> (d, Inl NoTickets)
             | Some (i, t) \<Rightarrow>
                 if (case salesStart t of None \<Rightarrow> False | Some s \<Rightarrow> req_now req < s)
                 then (d, Inl SalesNotStarted)
                 else if (case salesEnd t of None \<Rightarrow> False | Some e \<Rightarrow> req_now req > e)
                 then (d, Inl SalesClosed)
                 else if perOrderLimit t \<noteq> 0 \<and> qty > perOrderLimit t
                 then (d, Inl (PerOrderLimit (perOrderLimit t)))
                 else if qtySold t + qty > qtyTotal t then (d, Inl NotEnoughTickets)
                 else
                   (let t' = t\<lparr>qtySold := qtySold t + qty\<rparr> in
                    if req_fault req = TicketSaveFails then (d, Inl SaveFailed)
                    else
                      (let d1 = d\<lparr>tickets := (tickets d)[i := t']\<rparr>;
                           bookingRecord =
                             \<lparr>event_id = ev_id ev, user_id = userId, booking_quantity = qty,
                              total_amount = of_int (priceCents t' * qty) / 100,
                              booking_status = ''confirmed''\<rparr>
                       in if req_fault req = BookingSaveFails then (d1, Inl SaveFailed)
                          else (d1\<lparr>bookings := bookings d1 @ [bookingRecord]\<rparr>,
                                Inr bookingRecord)))))"

text \<open>
  \<^verbatim>\<open>session.withTransaction\<close>: the body's writes are committed when it returns and
  discarded when it throws.
\<close>

definition withTransaction ::
  "(db \<Rightarrow> db \<times> (book_error + 'a)) \<Rightarrow> db \<Rightarrow> db \<times> (book_error + 'a)" where
  "withTransaction body d =
     (case body d of
        (d', Inr res) \<Rightarrow> (d', Inr res)
      | (d', Inl err) \<Rightarrow> (d, Inl err))"

text \<open>
  The handler up to the commit (the spec's \<open>finalize\<close>); the summary it then reads for the
  response changes nothing and is left out.
\<close>

definition finalize :: "booking_request \<Rightarrow> db \<Rightarrow> db \<times> (book_error + booking)" where
  "finalize req d =
     (if req_quantity req \<le> 0 then (d, Inl QuantityRequired)
      else (case req_auth req of
              NoBearer \<Rightarrow> (d, Inl AuthRequired)
            | BadToken \<Rightarrow> (d, Inl TokenInvalid)
            | Bearer userId \<Rightarrow> withTransaction (bookingTxn req userId) d))"

text \<open>Finalize calls run one after the other, as the store's transactions serialise them.\<close>

fun finalizeAll :: "booking_request list \<Rightarrow> db \<Rightarrow> db" where
  "finalizeAll [] d = d"
| "finalizeAll (req # reqs) d = finalizeAll reqs (fst (finalize req d))"

text \<open>The inventory invariant: no ticket has sold more than its total.\<close>

definition soldWithinTotal :: "db \<Rightarrow> bool" where
  "soldWithinTotal d = list_all (\<lambda>t. qtySold t \<le> qtyTotal t) (tickets d)"

text \<open>
  The errors of the five checks inside the transaction: the event exists and is published, a
  ticket matches, the sales window is open, the quantity is within the per-order limit, the
  inventory suffices.
\<close>

fun isCheckFailure :: "book_error \<Rightarrow> bool" where
  "isCheckFailure EventNotFound = True"
| "isCheckFailure EventNotPublished = True"
| "isCheckFailure NoTickets = True"
| "isCheckFailure SalesNotStarted = True"
| "isCheckFailure SalesClosed = True"
| "isCheckFailure (PerOrderLimit _) = True"
| "isCheckFailure NotEnoughTickets = True"
| "isCheckFailure _ = False"

subsection \<open>Sample data\<close>

text \<open>A published event with one active ticket, a request of a buyer, and the booking it makes.\<close>

definition demo_ticket :: ticket where
  "demo_ticket =
     \<lparr>tid = ''t1'', eventId = ''e1'', name = ''VIP'', ttype = ''paid'', priceCents = 2500,
      currency = ''USD'', qtyTotal = 10, qtySold = 0, salesStart = None, salesEnd = None,
      perOrderLimit = 4, status = ''active''\<rparr>"

definition demo_db :: db where
  "demo_db =
     \<lparr>events = [\<lparr>ev_id = ''e1'', ev_status = ''published''\<rparr>], tickets = [demo_ticket],
      bookings = []\<rparr>"

definition demo_request :: booking_request where
  "demo_request =
     \<lparr>req_eventId = ''e1'', req_quantity = 2, req_ticketType = None, req_ticketId = None,
      req_auth = Bearer ''u1'', req_now = 5, req_fault = NoFault\<rparr>"

definition demo_booking :: booking where
  "demo_booking =
     \<lparr>event_id = ''e1'', user_id = ''u1'', booking_quantity = 2, total_amount = 50,
      booking_status = ''confirmed''\<rparr>"

text \<open>The same event still a draft, and a request naming the ticket by id under another name.\<close>

definition demo_draft_db :: db where
  "demo_draft_db =
     \<lparr>events = [\<lparr>ev_id = ''e1'', ev_status = ''draft''\<rparr>], tickets = [demo_ticket],
      bookings = []\<rparr>"

definition demo_mismatch_request :: booking_request where
  "demo_mismatch_request =
     demo_request\<lparr>req_ticketId := Some ''t1'', req_ticketType := Some ''General''\<rparr>"

text \<open>
  A cart of the buyer with three of the sample ticket, an empty hold store, and a store
  that holds the cart and a counter with the given contents.
\<close>

definition demo_item :: cart_item where
  "demo_item = buildCartItem demo_ticket 3 601000 ''t1''"

definition demo_cart :: cart where
  "demo_cart =
     \<lparr>cart_cartId = ''c1'', cart_userId = ''u1'', cart_eventId = ''e1'', cart_currency = ''USD'',
      cart_items = [(''t1'', demo_item)]\<rparr>"

definition demo_store :: redis where
  "demo_store = \<lparr>holds = Map.empty, carts = Map.empty\<rparr>"

definition demo_held_store :: "string \<Rightarrow> redis" where
  "demo_held_store v =
     \<lparr>holds = [ticketHoldKey ''t1'' \<mapsto> (v, Some 600)],
      carts = [cartKey ''c1'' \<mapsto> (demo_cart, Some 600)]\<rparr>"

text \<open>An environment in which no other client touches the store.\<close>

definition demo_env :: "nat \<Rightarrow> attempt_env" where
  "demo_env = (\<lambda>_. \<lparr>clock = 1000, freshId = ''c1'', meddling = Quiet\<rparr>)"

text \<open>An environment in which another client rewrites the counter during every run.\<close>

definition demo_busy_env :: "nat \<Rightarrow> attempt_env" where
  "demo_busy_env = (\<lambda>_. \<lparr>clock = 1000, freshId = ''c1'',
                          meddling = Touched (Some (''1'', Some 600))\<rparr>)"

text \<open>An environment in which another client rewrites the counter during the first run only.\<close>

definition demo_once_busy_env :: "nat \<Rightarrow> attempt_env" where
  "demo_once_busy_env =
     (\<lambda>i. \<lparr>clock = 1000, freshId = ''c1'',
            meddling = (if i = 0 then Touched (Some (''3'', Some 600)) else Quiet)\<rparr>)"

text \<open>
  The same cart with two of the sample ticket, and a store that holds it with the counter
  at 2.
\<close>

definition demo_pair_item :: cart_item where
  "demo_pair_item = buildCartItem demo_ticket 2 601000 ''t1''"

definition demo_pair_cart :: cart where
  "demo_pair_cart = demo_cart\<lparr>cart_items := [(''t1'', demo_pair_item)]\<rparr>"

definition demo_pair_store :: redis where
  "demo_pair_store =
     \<lparr>holds = [ticketHoldKey ''t1'' \<mapsto> (''2'', Some 600)],
      carts = [cartKey ''c1'' \<mapsto> (demo_pair_cart, Some 600)]\<rparr>"

section \<open>Properties\<close>

subsection \<open>Booking: auxiliary facts\<close>

lemma cheapest_None: "cheapest xs = None \<longleftrightarrow> xs = []"
  by (induction xs) (auto split: option.splits)

lemma cheapest_Some:
  "cheapest xs = Some y \<Longrightarrow> y \<in> set xs \<and> (\<forall>x\<in>set xs. priceCents (snd y) \<le> priceCents (snd x))"
proof (induction xs arbitrary: y)
  case Nil
  then show ?case by simp
next
  case (Cons x xs)
  show ?case
  proof (cases "cheapest xs")
    case None
    then have "xs = []" by (simp add: cheapest_None)
    with Cons.prems show ?thesis by simp
  next
    case (Some z)
    note IH = Cons.IH [OF Some]
    from Cons.prems Some show ?thesis
      using IH by (auto split: if_splits)
  qed
qed

lemma findOneTicket_None: "findOneTicket ts q = None \<longleftrightarrow> (\<forall>u\<in>set ts. \<not> q u)"
proof -
  have "(\<forall>x\<in>set (enumerate 0 ts). \<not> (case x of (i, t) \<Rightarrow> q t)) \<longleftrightarrow> (\<forall>u\<in>set ts. \<not> q u)"
  proof
    assume a: "\<forall>x\<in>set (enumerate 0 ts). \<not> (case x of (i, t) \<Rightarrow> q t)"
    show "\<forall>u\<in>set ts. \<not> q u"
    proof
      fix u assume "u \<in> set ts"
      then obtain j where j: "j < length ts" "ts ! j = u" by (auto simp: in_set_conv_nth)
      then have "(j, u) \<in> set (enumerate 0 ts)" by (simp add: in_set_enumerate_eq)
      with a show "\<not> q u" by fastforce
    qed
  next
    assume a: "\<forall>u\<in>set ts. \<not> q u"
    show "\<forall>x\<in>set (enumerate 0 ts). \<not> (case x of (i, t) \<Rightarrow> q t)"
    proof
      fix x assume "x \<in> set (enumerate 0 ts)"
      then have "fst x < length ts" "ts ! fst x = snd x" by (auto simp: in_set_enumerate_eq)
      then have "snd x \<in> set ts" by (metis nth_mem)
      with a show "\<not> (case x of (i, t) \<Rightarrow> q t)" by (cases x) auto
    qed
  qed
  then show ?thesis
    unfolding findOneTicket_def cheapest_None filter_empty_conv by simp
qed

lemma findOneTicket_Some:
  assumes "findOneTicket ts q = Some (i, t)"
  shows "i < length ts \<and> ts ! i = t \<and> q t \<and> (\<forall>u\<in>set ts. q u \<longrightarrow> priceCents t \<le> priceCents u)"
proof -
  let ?xs = "filter (\<lambda>(i, t). q t) (enumerate 0 ts)"
  from assms have c: "cheapest ?xs = Some (i, t)" by (simp add: findOneTicket_def)
  from cheapest_Some [OF c] have m: "(i, t) \<in> set ?xs"
    and le: "\<forall>x\<in>set ?xs. priceCents t \<le> priceCents (snd x)" by auto
  from m have a: "i < length ts" "ts ! i = t" "q t" by (auto simp: in_set_enumerate_eq)
  have "priceCents t \<le> priceCents u" if "u \<in> set ts" "q u" for u
  proof -
    from that obtain j where "j < length ts" "ts ! j = u" by (auto simp: in_set_conv_nth)
    with that have "(j, u) \<in> set ?xs" by (auto simp: in_set_enumerate_eq)
    with le show ?thesis by auto
  qed
  with a show ?thesis by blast
qed

lemma bookingTxn_Inr:
  assumes "bookingTxn req userId d = (d', Inr b)"
  shows "\<exists>ev i t. find (\<lambda>e. ev_id e = req_eventId req) (events d) = Some ev
           \<and> ev_status ev = ''published''
           \<and> findOneTicket (tickets d) (ticketQuery ev (req_ticketId req) (req_ticketType req)) = Some (i, t)
           \<and> qtySold t + req_quantity req \<le> qtyTotal t
           \<and> b = \<lparr>event_id = ev_id ev, user_id = userId, booking_quantity = req_quantity req,
                   total_amount = of_int (priceCents t * req_quantity req) / 100,
                   booking_status = ''confirmed''\<rparr>
           \<and> d' = d\<lparr>tickets := (tickets d)[i := t\<lparr>qtySold := qtySold t + req_quantity req\<rparr>],
                     bookings := bookings d @ [b]\<rparr>"
  using assms unfolding bookingTxn_def Let_def
  by (auto split: option.splits if_splits prod.splits)

lemma bookingTxn_Inl:
  assumes "bookingTxn req userId d = (d', Inl err)" "err \<noteq> SaveFailed"
  shows "d' = d"
  using assms unfolding bookingTxn_def Let_def
  by (auto split: option.splits if_splits prod.splits)

lemma finalize_Inl: "finalize req d = (d', Inl err) \<Longrightarrow> d' = d"
  unfolding finalize_def withTransaction_def
  by (auto split: if_splits auth.splits prod.splits sum.splits)

lemma finalize_Inr:
  assumes "finalize req d = (d', Inr b)"
  shows "\<exists>userId. req_auth req = Bearer userId \<and> 0 < req_quantity req \<and> bookingTxn req userId d = (d', Inr b)"
  using assms unfolding finalize_def withTransaction_def
  by (auto split: if_splits auth.splits prod.splits sum.splits)

subsection \<open>Booking: the inventory invariant\<close>

lemma finalize_keeps_invariant:
  assumes "soldWithinTotal d"
  shows "soldWithinTotal (fst (finalize req d))"
proof (cases "snd (finalize req d)")
  case (Inl err)
  then have "finalize req d = (fst (finalize req d), Inl err)" by (metis prod.collapse)
  from finalize_Inl [OF this] assms show ?thesis by simp
next
  case (Inr b)
  then have f: "finalize req d = (fst (finalize req d), Inr b)" by (metis prod.collapse)
  from finalize_Inr [OF f] obtain userId where
    "bookingTxn req userId d = (fst (finalize req d), Inr b)" by blast
  from bookingTxn_Inr [OF this] obtain ev i t where
    t: "findOneTicket (tickets d) (ticketQuery ev (req_ticketId req) (req_ticketType req)) = Some (i, t)"
    and le: "qtySold t + req_quantity req \<le> qtyTotal t"
    and d': "fst (finalize req d) = d\<lparr>tickets := (tickets d)[i := t\<lparr>qtySold := qtySold t + req_quantity req\<rparr>],
                     bookings := bookings d @ [b]\<rparr>" by blast
  have "set ((tickets d)[i := t\<lparr>qtySold := qtySold t + req_quantity req\<rparr>])
          \<subseteq> insert (t\<lparr>qtySold := qtySold t + req_quantity req\<rparr>) (set (tickets d))"
    by (rule set_update_subset_insert)
  with assms le show ?thesis
    unfolding soldWithinTotal_def d' list_all_iff by auto
qed

lemma finalizeAll_keeps_invariant:
  "soldWithinTotal d \<Longrightarrow> soldWithinTotal (finalizeAll reqs d)"
  by (induction reqs arbitrary: d) (simp_all add: finalize_keeps_invariant)

text \<open>
  C2. A finalize that succeeds for quantity \<open>q\<close> comes out of the transaction body, which
  found \<open>qtySold + q \<le> qtyTotal\<close> for the ticket it chose and wrote that ticket back with
  \<open>qtySold\<close> increased by exactly \<open>q\<close>, every other ticket untouched. So one finalize, and
  any number of them run one after the other, keep \<open>qtySold \<le> qtyTotal\<close> for every ticket.
\<close>

theorem finalize_sold_within_total:
  "(finalize req d = (d', Inr b) \<longrightarrow>
      (\<exists>userId i t. bookingTxn req userId d = (d', Inr b)
         \<and> i < length (tickets d) \<and> tickets d ! i = t
         \<and> qtySold t + req_quantity req \<le> qtyTotal t
         \<and> tickets d' = (tickets d)[i := t\<lparr>qtySold := qtySold t + req_quantity req\<rparr>]))
   \<and> (soldWithinTotal d \<longrightarrow> soldWithinTotal (fst (finalize req d)))
   \<and> (soldWithinTotal d \<longrightarrow> soldWithinTotal (finalizeAll reqs d))"
proof (intro conjI impI)
  assume f: "finalize req d = (d', Inr b)"
  from finalize_Inr [OF f] obtain userId where
    u: "bookingTxn req userId d = (d', Inr b)" by blast
  from bookingTxn_Inr [OF u] obtain ev i t where
    t: "findOneTicket (tickets d) (ticketQuery ev (req_ticketId req) (req_ticketType req)) = Some (i, t)"
    and le: "qtySold t + req_quantity req \<le> qtyTotal t"
    and d': "d' = d\<lparr>tickets := (tickets d)[i := t\<lparr>qtySold := qtySold t + req_quantity req\<rparr>],
                     bookings := bookings d @ [b]\<rparr>" by blast
  from findOneTicket_Some [OF t] have "i < length (tickets d)" "tickets d ! i = t" by auto
  with u le d' show "\<exists>userId i t. bookingTxn req userId d = (d', Inr b)
         \<and> i < length (tickets d) \<and> tickets d ! i = t
         \<and> qtySold t + req_quantity req \<le> qtyTotal t
         \<and> tickets d' = (tickets d)[i := t\<lparr>qtySold := qtySold t + req_quantity req\<rparr>]"
    by auto
qed (simp_all add: finalize_keeps_invariant finalizeAll_keeps_invariant)

subsection \<open>Booking: the sample request\<close>

lemma demo_finalize:
  "finalize demo_request demo_db =
     (demo_db\<lparr>tickets := [demo_ticket\<lparr>qtySold := 2\<rparr>], bookings := [demo_booking]\<rparr>, Inr demo_booking)"
  by (simp add: finalize_def withTransaction_def bookingTxn_def findOneTicket_def ticketQuery_def
      truthy_def demo_request_def demo_db_def demo_ticket_def demo_booking_def enumerate_eq_zip
      Let_def)

theorem finalize_sold_within_total_witness:
  "finalize demo_request demo_db =
     (demo_db\<lparr>tickets := [demo_ticket\<lparr>qtySold := 2\<rparr>], bookings := [demo_booking]\<rparr>, Inr demo_booking)
   \<and> soldWithinTotal demo_db
   \<and> soldWithinTotal (fst (finalize demo_request demo_db))
   \<and> soldWithinTotal (finalizeAll [demo_request, demo_request] demo_db)"
proof -
  have inv: "soldWithinTotal demo_db"
    by (simp add: soldWithinTotal_def demo_db_def demo_ticket_def)
  from finalize_sold_within_total [of demo_request demo_db _ _ "[demo_request, demo_request]"] inv
  show ?thesis using demo_finalize by simp
qed

subsection \<open>Booking: atomicity\<close>

lemma bookingTxn_check_fails:
  assumes "case find (\<lambda>e. ev_id e = req_eventId req) (events d) of
             None \<Rightarrow> True
           | Some ev \<Rightarrow>
               ev_status ev \<noteq> ''published''
             \<or> (case findOneTicket (tickets d)
                        (ticketQuery ev (req_ticketId req) (req_ticketType req)) of
                   None \<Rightarrow> True
                 | Some (i, t) \<Rightarrow>
                     (case salesStart t of None \<Rightarrow> False | Some s \<Rightarrow> req_now req < s)
                   \<or> (case salesEnd t of None \<Rightarrow> False | Some e \<Rightarrow> req_now req > e)
                   \<or> (perOrderLimit t \<noteq> 0 \<and> req_quantity req > perOrderLimit t)
                   \<or> qtySold t + req_quantity req > qtyTotal t)"
  shows "\<exists>e. bookingTxn req userId d = (d, Inl e) \<and> isCheckFailure e"
  using assms unfolding bookingTxn_def Let_def
  by (auto split: option.splits prod.splits)

text \<open>
  C3. A finalize that fails leaves the store as it was: no ticket's \<open>qtySold\<close> changes and
  no booking is recorded. When one of the five checks fails, the transaction body has
  written nothing at the throw; and for an authenticated call with a positive quantity,
  the failure of any of the five checks makes the call fail with that check's error. A
  \<^verbatim>\<open>save\<close> rejected after the inventory check is undone by the abort.
\<close>

theorem finalize_failure_no_effect:
  "(finalize req d = (d', Inl err) \<longrightarrow> d' = d)
   \<and> (bookingTxn req userId d = (d1, Inl err) \<and> isCheckFailure err \<longrightarrow> d1 = d)
   \<and> (req_auth req = Bearer userId \<and> 0 < req_quantity req
        \<and> (case find (\<lambda>e. ev_id e = req_eventId req) (events d) of
              None \<Rightarrow> True
            | Some ev \<Rightarrow>
                ev_status ev \<noteq> ''published''
              \<or> (case findOneTicket (tickets d)
                         (ticketQuery ev (req_ticketId req) (req_ticketType req)) of
                    None \<Rightarrow> True
                  | Some (i, t) \<Rightarrow>
                      (case salesStart t of None \<Rightarrow> False | Some s \<Rightarrow> req_now req < s)
                    \<or> (case salesEnd t of None \<Rightarrow> False | Some e \<Rightarrow> req_now req > e)
                    \<or> (perOrderLimit t \<noteq> 0 \<and> req_quantity req > perOrderLimit t)
                    \<or> qtySold t + req_quantity req > qtyTotal t))
      \<longrightarrow> (\<exists>e. finalize req d = (d, Inl e) \<and> isCheckFailure e))"
proof (intro conjI impI)
  assume "finalize req d = (d', Inl err)"
  then show "d' = d" by (rule finalize_Inl)
next
  assume "bookingTxn req userId d = (d1, Inl err) \<and> isCheckFailure err"
  then have "bookingTxn req userId d = (d1, Inl err)" "err \<noteq> SaveFailed" by auto
  then show "d1 = d" by (rule bookingTxn_Inl)
next
  assume a: "req_auth req = Bearer userId \<and> 0 < req_quantity req
        \<and> (case find (\<lambda>e. ev_id e = req_eventId req) (events d) of
              None \<Rightarrow> True
            | Some ev \<Rightarrow>
                ev_status ev \<noteq> ''published''
              \<or> (case findOneTicket (tickets d)
                         (ticketQuery ev (req_ticketId req) (req_ticketType req)) of
                    None \<Rightarrow> True
                  | Some (i, t) \<Rightarrow>
                      (case salesStart t of None \<Rightarrow> False | Some s \<Rightarrow> req_now req < s)
                    \<or> (case salesEnd t of None \<Rightarrow> False | Some e \<Rightarrow> req_now req > e)
                    \<or> (perOrderLimit t \<noteq> 0 \<and> req_quantity req > perOrderLimit t)
                    \<or> qtySold t + req_quantity req > qtyTotal t))"
  then obtain e where "bookingTxn req userId d = (d, Inl e)" "isCheckFailure e"
    using bookingTxn_check_fails [of req d userId] by blast
  with a show "\<exists>e. finalize req d = (d, Inl e) \<and> isCheckFailure e"
    by (auto simp: finalize_def withTransaction_def)
qed

lemma demo_finalize_draft:
  "finalize demo_request demo_draft_db = (demo_draft_db, Inl EventNotPublished)"
  by (simp add: finalize_def withTransaction_def bookingTxn_def demo_request_def
      demo_draft_db_def)

lemma demo_bookingTxn_fault:
  "bookingTxn (demo_request\<lparr>req_fault := BookingSaveFails\<rparr>) ''u1'' demo_db =
     (demo_db\<lparr>tickets := [demo_ticket\<lparr>qtySold := 2\<rparr>]\<rparr>, Inl SaveFailed)"
  by (simp add: bookingTxn_def findOneTicket_def ticketQuery_def
      truthy_def demo_request_def demo_db_def demo_ticket_def enumerate_eq_zip Let_def)

lemma demo_finalize_fault:
  "finalize (demo_request\<lparr>req_fault := BookingSaveFails\<rparr>) demo_db = (demo_db, Inl SaveFailed)"
  using demo_bookingTxn_fault
  by (simp add: finalize_def withTransaction_def demo_request_def)

theorem finalize_failure_no_effect_witness:
  "finalize demo_request demo_draft_db = (demo_draft_db, Inl EventNotPublished)
   \<and> isCheckFailure EventNotPublished
   \<and> bookingTxn demo_request ''u1'' demo_draft_db = (demo_draft_db, Inl EventNotPublished)
   \<and> fst (bookingTxn (demo_request\<lparr>req_fault := BookingSaveFails\<rparr>) ''u1'' demo_db) \<noteq> demo_db
   \<and> finalize (demo_request\<lparr>req_fault := BookingSaveFails\<rparr>) demo_db = (demo_db, Inl SaveFailed)"
proof -
  have pre: "req_auth demo_request = Bearer ''u1'' \<and> 0 < req_quantity demo_request
     \<and> (case find (\<lambda>e. ev_id e = req_eventId demo_request) (events demo_draft_db) of
              None \<Rightarrow> True
            | Some ev \<Rightarrow>
                ev_status ev \<noteq> ''published''
              \<or> (case findOneTicket (tickets demo_draft_db)
                         (ticketQuery ev (req_ticketId demo_request) (req_ticketType demo_request)) of
                    None \<Rightarrow> True
                  | Some (i, t) \<Rightarrow>
                      (case salesStart t of None \<Rightarrow> False | Some s \<Rightarrow> req_now demo_request < s)
                    \<or> (case salesEnd t of None \<Rightarrow> False | Some e \<Rightarrow> req_now demo_request > e)
                    \<or> (perOrderLimit t \<noteq> 0 \<and> req_quantity demo_request > perOrderLimit t)
                    \<or> qtySold t + req_quantity demo_request > qtyTotal t))"
    by (simp add: demo_request_def demo_draft_db_def)
  have txn: "bookingTxn demo_request ''u1'' demo_draft_db = (demo_draft_db, Inl EventNotPublished)"
    by (simp add: bookingTxn_def demo_request_def demo_draft_db_def)
  have ne: "fst (bookingTxn (demo_request\<lparr>req_fault := BookingSaveFails\<rparr>) ''u1'' demo_db) \<noteq> demo_db"
    unfolding demo_bookingTxn_fault by (simp add: demo_db_def demo_ticket_def)
  from finalize_failure_no_effect
         [of "demo_request\<lparr>req_fault := BookingSaveFails\<rparr>" demo_db demo_db SaveFailed "''u1''" demo_db]
       finalize_failure_no_effect
         [of demo_request demo_draft_db demo_draft_db EventNotPublished "''u1''" demo_draft_db]
       pre txn ne demo_finalize_draft demo_finalize_fault
  show ?thesis by simp
qed

subsection \<open>Booking: the record created\<close>

text \<open>
  C5, amended. A finalize that succeeds for quantity \<open>q\<close> on ticket \<open>t\<close> commits, in one
  transaction, the ticket with \<open>qtySold\<close> increased by \<open>q\<close> and one new booking whose
  status is \<^verbatim>\<open>confirmed\<close> and whose \<^verbatim>\<open>total_amount\<close> is \<open>(priceCents t \<times> q) / 100\<close>: the
  price in minor units times the quantity, converted to major units.
\<close>

theorem finalize_total_amount:
  assumes "finalize req d = (d', Inr b)"
  shows "\<exists>i t. i < length (tickets d) \<and> tickets d ! i = t
           \<and> tickets d' = (tickets d)[i := t\<lparr>qtySold := qtySold t + req_quantity req\<rparr>]
           \<and> bookings d' = bookings d @ [b]
           \<and> booking_quantity b = req_quantity req
           \<and> total_amount b = of_int (priceCents t * req_quantity req) / 100
           \<and> booking_status b = ''confirmed''"
proof -
  from finalize_Inr [OF assms] obtain userId where
    u: "bookingTxn req userId d = (d', Inr b)" by blast
  from bookingTxn_Inr [OF u] obtain ev i t where
    t: "findOneTicket (tickets d) (ticketQuery ev (req_ticketId req) (req_ticketType req)) = Some (i, t)"
    and b: "b = \<lparr>event_id = ev_id ev, user_id = userId, booking_quantity = req_quantity req,
                   total_amount = of_int (priceCents t * req_quantity req) / 100,
                   booking_status = ''confirmed''\<rparr>"
    and d': "d' = d\<lparr>tickets := (tickets d)[i := t\<lparr>qtySold := qtySold t + req_quantity req\<rparr>],
                     bookings := bookings d @ [b]\<rparr>" by blast
  from findOneTicket_Some [OF t] have "i < length (tickets d)" "tickets d ! i = t" by auto
  moreover from d' have "tickets d' = (tickets d)[i := t\<lparr>qtySold := qtySold t + req_quantity req\<rparr>]"
    "bookings d' = bookings d @ [b]" by simp_all
  moreover from b have "booking_quantity b = req_quantity req"
    "total_amount b = of_int (priceCents t * req_quantity req) / 100"
    "booking_status b = ''confirmed''" by simp_all
  ultimately show ?thesis by blast
qed

theorem finalize_total_amount_witness:
  "finalize demo_request demo_db =
     (demo_db\<lparr>tickets := [demo_ticket\<lparr>qtySold := 2\<rparr>], bookings := [demo_booking]\<rparr>, Inr demo_booking)
   \<and> total_amount demo_booking = of_int (priceCents demo_ticket * req_quantity demo_request) / 100
   \<and> booking_status demo_booking = ''confirmed''"
proof -
  have "total_amount demo_booking
          = of_int (priceCents demo_ticket * req_quantity demo_request) / 100"
    by (simp add: demo_booking_def demo_ticket_def demo_request_def)
  moreover have "booking_status demo_booking = ''confirmed''"
    by (simp add: demo_booking_def)
  ultimately show ?thesis
    using finalize_total_amount [OF demo_finalize] demo_finalize by simp
qed

text \<open>
  C5 as stated fails: two tickets of 2500 cents are booked for a \<^verbatim>\<open>total_amount\<close> of 50,
  not 5000.
\<close>

theorem finalize_total_amount_counterexample:
  "snd (finalize demo_request demo_db) = Inr demo_booking
   \<and> tickets demo_db = [demo_ticket]
   \<and> total_amount demo_booking \<noteq> of_int (priceCents demo_ticket * req_quantity demo_request)"
proof -
  have "total_amount demo_booking
          \<noteq> of_int (priceCents demo_ticket * req_quantity demo_request)"
    by (simp add: demo_booking_def demo_ticket_def demo_request_def)
  moreover have "tickets demo_db = [demo_ticket]"
    by (simp add: demo_db_def)
  ultimately show ?thesis
    by (simp add: demo_finalize)
qed

subsection \<open>Booking: the ticket chosen\<close>

text \<open>
  C6, amended. The ticket a finalize uses is an active ticket of the event that has the
  given ticket id when one is given and the given name when one is given (both, when both
  are given), and none of the tickets that qualify is cheaper. For an authenticated call
  with a positive quantity on a published event, the call fails with \<open>NoTickets\<close> exactly
  when no ticket qualifies.
\<close>

theorem finalize_ticket_selection:
  "(finalize req d = (d', Inr b) \<longrightarrow>
      (\<exists>ev i t. find (\<lambda>e. ev_id e = req_eventId req) (events d) = Some ev
         \<and> i < length (tickets d) \<and> tickets d ! i = t
         \<and> eventId t = ev_id ev \<and> status t = ''active''
         \<and> (truthy (req_ticketId req) \<longrightarrow> Some (tid t) = req_ticketId req)
         \<and> (truthy (req_ticketType req) \<longrightarrow> Some (name t) = req_ticketType req)
         \<and> (\<forall>u\<in>set (tickets d).
               eventId u = ev_id ev \<and> status u = ''active''
               \<and> (truthy (req_ticketId req) \<longrightarrow> Some (tid u) = req_ticketId req)
               \<and> (truthy (req_ticketType req) \<longrightarrow> Some (name u) = req_ticketType req)
               \<longrightarrow> priceCents t \<le> priceCents u)
         \<and> tickets d' = (tickets d)[i := t\<lparr>qtySold := qtySold t + req_quantity req\<rparr>]
         \<and> total_amount b = of_int (priceCents t * req_quantity req) / 100))
   \<and> (req_auth req = Bearer userId \<and> 0 < req_quantity req
        \<and> find (\<lambda>e. ev_id e = req_eventId req) (events d) = Some ev
        \<and> ev_status ev = ''published''
      \<longrightarrow> (finalize req d = (d, Inl NoTickets) \<longleftrightarrow>
            \<not> (\<exists>u\<in>set (tickets d).
                 eventId u = ev_id ev \<and> status u = ''active''
                 \<and> (truthy (req_ticketId req) \<longrightarrow> Some (tid u) = req_ticketId req)
                 \<and> (truthy (req_ticketType req) \<longrightarrow> Some (name u) = req_ticketType req))))"
proof (intro conjI impI)
  assume f: "finalize req d = (d', Inr b)"
  from finalize_Inr [OF f] obtain userId where
    u: "bookingTxn req userId d = (d', Inr b)" by blast
  from bookingTxn_Inr [OF u] obtain ev i t where
    ev: "find (\<lambda>e. ev_id e = req_eventId req) (events d) = Some ev"
    and t: "findOneTicket (tickets d) (ticketQuery ev (req_ticketId req) (req_ticketType req)) = Some (i, t)"
    and b: "b = \<lparr>event_id = ev_id ev, user_id = userId, booking_quantity = req_quantity req,
                   total_amount = of_int (priceCents t * req_quantity req) / 100,
                   booking_status = ''confirmed''\<rparr>"
    and d': "d' = d\<lparr>tickets := (tickets d)[i := t\<lparr>qtySold := qtySold t + req_quantity req\<rparr>],
                     bookings := bookings d @ [b]\<rparr>" by blast
  note s = findOneTicket_Some [OF t]
  from s have 1: "i < length (tickets d)" "tickets d ! i = t" by auto
  from s have 2: "eventId t = ev_id ev" "status t = ''active''"
    "truthy (req_ticketId req) \<longrightarrow> Some (tid t) = req_ticketId req"
    "truthy (req_ticketType req) \<longrightarrow> Some (name t) = req_ticketType req"
    by (auto simp: ticketQuery_def)
  from s have 3: "\<forall>u\<in>set (tickets d).
               eventId u = ev_id ev \<and> status u = ''active''
               \<and> (truthy (req_ticketId req) \<longrightarrow> Some (tid u) = req_ticketId req)
               \<and> (truthy (req_ticketType req) \<longrightarrow> Some (name u) = req_ticketType req)
               \<longrightarrow> priceCents t \<le> priceCents u"
    by (auto simp: ticketQuery_def)
  from d' have 4: "tickets d' = (tickets d)[i := t\<lparr>qtySold := qtySold t + req_quantity req\<rparr>]"
    by simp
  from b have 5: "total_amount b = of_int (priceCents t * req_quantity req) / 100" by simp
  from ev 1 2 3 4 5
  show "\<exists>ev i t. find (\<lambda>e. ev_id e = req_eventId req) (events d) = Some ev
         \<and> i < length (tickets d) \<and> tickets d ! i = t
         \<and> eventId t = ev_id ev \<and> status t = ''active''
         \<and> (truthy (req_ticketId req) \<longrightarrow> Some (tid t) = req_ticketId req)
         \<and> (truthy (req_ticketType req) \<longrightarrow> Some (name t) = req_ticketType req)
         \<and> (\<forall>u\<in>set (tickets d).
               eventId u = ev_id ev \<and> status u = ''active''
               \<and> (truthy (req_ticketId req) \<longrightarrow> Some (tid u) = req_ticketId req)
               \<and> (truthy (req_ticketType req) \<longrightarrow> Some (name u) = req_ticketType req)
               \<longrightarrow> priceCents t \<le> priceCents u)
         \<and> tickets d' = (tickets d)[i := t\<lparr>qtySold := qtySold t + req_quantity req\<rparr>]
         \<and> total_amount b = of_int (priceCents t * req_quantity req) / 100"
    by blast
next
  assume a: "req_auth req = Bearer userId \<and> 0 < req_quantity req
        \<and> find (\<lambda>e. ev_id e = req_eventId req) (events d) = Some ev
        \<and> ev_status ev = ''published''"
  let ?q = "ticketQuery ev (req_ticketId req) (req_ticketType req)"
  have none: "findOneTicket (tickets d) ?q = None \<longleftrightarrow>
          \<not> (\<exists>u\<in>set (tickets d).
                 eventId u = ev_id ev \<and> status u = ''active''
                 \<and> (truthy (req_ticketId req) \<longrightarrow> Some (tid u) = req_ticketId req)
                 \<and> (truthy (req_ticketType req) \<longrightarrow> Some (name u) = req_ticketType req))"
    unfolding findOneTicket_None by (auto simp: ticketQuery_def)
  have "finalize req d = (d, Inl NoTickets) \<longleftrightarrow> findOneTicket (tickets d) ?q = None"
    using a unfolding finalize_def withTransaction_def bookingTxn_def Let_def
    by (auto split: option.splits prod.splits)
  with none show "finalize req d = (d, Inl NoTickets) \<longleftrightarrow>
            \<not> (\<exists>u\<in>set (tickets d).
                 eventId u = ev_id ev \<and> status u = ''active''
                 \<and> (truthy (req_ticketId req) \<longrightarrow> Some (tid u) = req_ticketId req)
                 \<and> (truthy (req_ticketType req) \<longrightarrow> Some (name u) = req_ticketType req))"
    by simp
qed

lemma demo_finalize_mismatch:
  "finalize demo_mismatch_request demo_db = (demo_db, Inl NoTickets)"
  by (simp add: finalize_def withTransaction_def bookingTxn_def findOneTicket_def ticketQuery_def
      truthy_def demo_mismatch_request_def demo_request_def demo_db_def demo_ticket_def
      enumerate_eq_zip Let_def)

theorem finalize_ticket_selection_witness:
  "finalize demo_request demo_db =
     (demo_db\<lparr>tickets := [demo_ticket\<lparr>qtySold := 2\<rparr>], bookings := [demo_booking]\<rparr>, Inr demo_booking)
   \<and> tickets demo_db ! 0 = demo_ticket
   \<and> finalize demo_mismatch_request demo_db = (demo_db, Inl NoTickets)"
proof -
  have "tickets demo_db ! 0 = demo_ticket"
    by (simp add: demo_db_def)
  then show ?thesis
    using finalize_ticket_selection [of demo_request demo_db _ demo_booking]
      finalize_ticket_selection [of demo_mismatch_request demo_db _ _ "''u1''"
        "\<lparr>ev_id = ''e1'', ev_status = ''published''\<rparr>"]
    by (simp add: demo_finalize demo_finalize_mismatch)
qed

text \<open>
  C6 as stated fails: the id does not take precedence over the name. A request that gives
  the id of an active ticket of the event together with another name finds no ticket.
\<close>

theorem finalize_ticket_id_precedence_counterexample:
  "req_ticketId demo_mismatch_request = Some (tid demo_ticket)
   \<and> demo_ticket \<in> set (tickets demo_db)
   \<and> eventId demo_ticket = req_eventId demo_mismatch_request
   \<and> status demo_ticket = ''active''
   \<and> finalize demo_mismatch_request demo_db = (demo_db, Inl NoTickets)"
proof -
  have "req_ticketId demo_mismatch_request = Some (tid demo_ticket)"
    "demo_ticket \<in> set (tickets demo_db)"
    "eventId demo_ticket = req_eventId demo_mismatch_request"
    "status demo_ticket = ''active''"
    by (simp_all add: demo_mismatch_request_def demo_request_def demo_db_def demo_ticket_def)
  then show ?thesis
    by (simp add: demo_finalize_mismatch)
qed

subsection \<open>Decimal integers: writing and reading back\<close>

lemma digit_char_props:
  assumes "d < 10"
  shows "is_digit (digit_char d)" "digit_val (digit_char d) = d" "\<not> is_space (digit_char d)"
    "digit_char d \<noteq> CHR ''-''" "digit_char d \<noteq> CHR ''+''"
proof -
  have o: "(of_char (digit_char d) :: nat) = 48 + d"
    using assms by (simp add: digit_char_def)
  show "is_digit (digit_char d)" using assms by (simp add: is_digit_def o)
  show "digit_val (digit_char d) = d" by (simp add: digit_val_def o)
  show "\<not> is_space (digit_char d)" using assms by (simp add: is_space_def o)
  have "(of_char (digit_char d) :: nat) \<noteq> of_char (CHR ''-'')" using assms by (simp add: o)
  then show "digit_char d \<noteq> CHR ''-''" by auto
  have "(of_char (digit_char d) :: nat) \<noteq> of_char (CHR ''+'')" using assms by (simp add: o)
  then show "digit_char d \<noteq> CHR ''+''" by auto
qed

lemma show_nat_digits: "\<forall>c\<in>set (show_nat n). is_digit c"
proof (induction n rule: show_nat.induct)
  case (1 n)
  show ?case
  proof (cases "n < 10")
    case True
    then show ?thesis by (subst show_nat.simps) (simp add: digit_char_props)
  next
    case False
    with "1.IH" have "\<forall>c\<in>set (show_nat (n div 10)). is_digit c" by simp
    moreover have "is_digit (digit_char (n mod 10))" by (simp add: digit_char_props)
    ultimately show ?thesis using False by (subst show_nat.simps) simp
  qed
qed

lemma show_nat_nonempty: "show_nat n \<noteq> []"
  by (subst show_nat.simps) simp

lemma digits_val_snoc: "digits_val (ds @ [c]) = 10 * digits_val ds + digit_val c"
  by (simp add: digits_val_def)

lemma digits_val_show_nat: "digits_val (show_nat n) = n"
proof (induction n rule: show_nat.induct)
  case (1 n)
  show ?case
  proof (cases "n < 10")
    case True
    then show ?thesis
      by (subst show_nat.simps) (simp add: digits_val_def digit_char_props)
  next
    case False
    with "1.IH" have "digits_val (show_nat (n div 10)) = n div 10" by simp
    then show ?thesis using False
      by (subst show_nat.simps) (simp add: digits_val_snoc digit_char_props)
  qed
qed

lemma show_nat_hd:
  "\<exists>c cs. show_nat n = c # cs \<and> is_digit c"
proof -
  obtain c cs where "show_nat n = c # cs"
    using show_nat_nonempty [of n] by (cases "show_nat n") auto
  with show_nat_digits [of n] show ?thesis by auto
qed

lemma is_digit_not_space: "is_digit c \<Longrightarrow> \<not> is_space c"
  by (auto simp: is_digit_def is_space_def)

lemma is_digit_not_sign: "is_digit c \<Longrightarrow> c \<noteq> CHR ''-'' \<and> c \<noteq> CHR ''+''"
  by (auto simp: is_digit_def)

lemma parseInt_digits:
  assumes "ds \<noteq> []" "\<forall>c\<in>set ds. is_digit c"
  shows "parseInt ds = Some (int (digits_val ds))"
proof -
  from assms obtain c cs where s: "ds = c # cs" and d: "is_digit c"
    by (cases ds) auto
  have t: "dropWhile is_space ds = ds"
    using s d by (simp add: is_digit_not_space)
  have neg: "(case ds of [] \<Rightarrow> False | c # _ \<Rightarrow> c = CHR ''-'') = False"
    using s is_digit_not_sign [OF d] by simp
  have u: "(case ds of [] \<Rightarrow> [] | c # r \<Rightarrow> if c = CHR ''-'' \<or> c = CHR ''+'' then r else ds) = ds"
    using s is_digit_not_sign [OF d] by simp
  have tw: "takeWhile is_digit ds = ds"
    using assms(2) by (simp add: takeWhile_eq_all_conv)
  show ?thesis
    unfolding parseInt_def Let_def t neg u tw using assms(1) by simp
qed

lemma parseInt_minus_digits:
  assumes "ds \<noteq> []" "\<forall>c\<in>set ds. is_digit c"
  shows "parseInt (CHR ''-'' # ds) = Some (- int (digits_val ds))"
proof -
  have sp: "\<not> is_space CHR ''-''" by (simp add: is_space_def)
  have t: "dropWhile is_space (CHR ''-'' # ds) = CHR ''-'' # ds"
    using sp by simp
  have tw: "takeWhile is_digit ds = ds"
    using assms(2) by (simp add: takeWhile_eq_all_conv)
  show ?thesis
    unfolding parseInt_def Let_def t using assms(1) by (simp add: tw)
qed

lemma parseInt_show_nat: "parseInt (show_nat n) = Some (int n)"
  using parseInt_digits [OF show_nat_nonempty show_nat_digits, of n]
  by (simp add: digits_val_show_nat)

lemma parseInt_minus_show_nat: "parseInt (CHR ''-'' # show_nat n) = Some (- int n)"
  using parseInt_minus_digits [OF show_nat_nonempty show_nat_digits, of n]
  by (simp add: digits_val_show_nat)

lemma parseInt_show_int: "parseInt (show_int i) = Some i"
  by (simp add: show_int_def parseInt_show_nat parseInt_minus_show_nat)

lemma redis_int_show_int: "redis_int (show_int i) = Some i"
  by (simp add: redis_int_def parseInt_show_int)

lemma redis_int_SomeD: "redis_int v = Some n \<Longrightarrow> v = show_int n"
  by (auto simp: redis_int_def split: option.splits if_splits)

lemma show_int_nonempty: "show_int i \<noteq> []"
  by (simp add: show_int_def show_nat_nonempty)

subsection \<open>The hold store: keys\<close>

lemma ticketHoldKey_inj: "ticketHoldKey a = ticketHoldKey b \<longleftrightarrow> a = b"
  by (simp add: ticketHoldKey_def)

lemma cartKey_inj: "cartKey a = cartKey b \<longleftrightarrow> a = b"
  by (simp add: cartKey_def)

subsection \<open>Release and clear: the hold counter\<close>

lemma holdCounterOk_show: "holdCounterOk (Some (show_int n, t)) \<longleftrightarrow> 0 < n"
  by (simp add: holdCounterOk_def redis_int_show_int)

lemma dropHold_other:
  "k' \<noteq> k \<Longrightarrow> holds (fst (dropHold r k n)) k' = holds r k'"
  by (auto simp: dropHold_def redis_decrby_def redis_incrby_def redis_del_def redis_expire_def
      split: option.splits prod.splits)

lemma dropHold_carts: "carts (fst (dropHold r k n)) = carts r"
  by (auto simp: dropHold_def redis_decrby_def redis_incrby_def redis_del_def redis_expire_def
      split: option.splits prod.splits)

lemma dropHold_absent:
  "holds r k = None \<Longrightarrow>
     dropHold r k n =
       (if 0 \<le> n then r\<lparr>holds := (holds r)(k := None)\<rparr>
        else r\<lparr>holds := (holds r)(k \<mapsto> (show_int (- n), Some HOLD_SECONDS))\<rparr>, None)"
  by (auto simp: dropHold_def redis_decrby_def redis_incrby_def redis_del_def redis_expire_def)

lemma dropHold_integer:
  "holds r k = Some (v, t) \<Longrightarrow> redis_int v = Some m \<Longrightarrow>
     dropHold r k n =
       (if m \<le> n then r\<lparr>holds := (holds r)(k := None)\<rparr>
        else r\<lparr>holds := (holds r)(k \<mapsto> (show_int (m - n), Some HOLD_SECONDS))\<rparr>, None)"
  by (auto simp: dropHold_def redis_decrby_def redis_incrby_def redis_del_def redis_expire_def)

lemma dropHold_garbage:
  "holds r k = Some (v, t) \<Longrightarrow> redis_int v = None \<Longrightarrow>
     dropHold r k n = (r, Some RedisReplyError)"
  by (auto simp: dropHold_def redis_decrby_def redis_incrby_def)

lemma dropHold_same_ok:
  "snd (dropHold r k n) = None \<Longrightarrow> holdCounterOk (holds (fst (dropHold r k n)) k)"
proof (cases "holds r k")
  case None
  then show ?thesis
    by (simp add: dropHold_absent holdCounterOk_show) (simp add: holdCounterOk_def)
next
  case (Some e)
  obtain v t where e: "e = (v, t)" by (cases e)
  assume ok: "snd (dropHold r k n) = None"
  show ?thesis
  proof (cases "redis_int v")
    case None
    with Some e ok show ?thesis by (simp add: dropHold_garbage)
  next
    case (Some m)
    with \<open>holds r k = Some e\<close> e show ?thesis
      by (simp add: dropHold_integer holdCounterOk_show) (simp add: holdCounterOk_def)
  qed
qed

lemma dropHold_error_unchanged:
  "snd (dropHold r k n) = Some err \<Longrightarrow> fst (dropHold r k n) = r"
  by (auto simp: dropHold_def redis_decrby_def redis_incrby_def
      split: option.splits prod.splits if_splits)

lemma dropHold_keeps_ok:
  assumes "holdCounterOk (holds r k')"
  shows "holdCounterOk (holds (fst (dropHold r k n)) k')"
proof (cases "k' = k")
  case False
  with assms show ?thesis by (simp add: dropHold_other)
next
  case True
  show ?thesis
  proof (cases "snd (dropHold r k n)")
    case None
    with True show ?thesis by (simp add: dropHold_same_ok)
  next
    case (Some err)
    with assms show ?thesis by (simp add: dropHold_error_unchanged)
  qed
qed

lemma clearItems_keeps_ok:
  "holdCounterOk (holds r k) \<Longrightarrow> holdCounterOk (holds (fst (clearItems its r)) k)"
proof (induction its arbitrary: r)
  case Nil
  then show ?case by simp
next
  case (Cons item rest)
  let ?d = "dropHold r (ticketHoldKey (item_ticketId item)) (item_quantity item)"
  have ok: "holdCounterOk (holds (fst ?d) k)"
    using Cons.prems by (rule dropHold_keeps_ok)
  show ?case
  proof (cases "snd ?d")
    case None
    then have "clearItems (item # rest) r = clearItems rest (fst ?d)"
      by (cases ?d) simp
    with Cons.IH [OF ok] show ?thesis by simp
  next
    case (Some err)
    then have "clearItems (item # rest) r = (fst ?d, Some err)"
      by (cases ?d) simp
    with ok show ?thesis by simp
  qed
qed

lemma clearCart_keeps_ok:
  "holdCounterOk (holds r k) \<Longrightarrow> holdCounterOk (holds (fst (clearCart cartId r)) k)"
proof -
  assume ok: "holdCounterOk (holds r k)"
  have "holds (fst (clearCart cartId r)) k = holds r k
        \<or> (\<exists>its. holds (fst (clearCart cartId r)) k = holds (fst (clearItems its r)) k)"
    unfolding clearCart_def
    by (auto simp: redis_del_cart_def split: option.splits prod.splits)
       (metis fst_conv)+
  with ok clearItems_keeps_ok [OF ok] show ?thesis by auto
qed

lemma releaseCartItem_holds:
  "holds (fst (releaseCartItem now cartId ticketId quantity r)) k = holds r k
   \<or> (\<exists>n. holds (fst (releaseCartItem now cartId ticketId quantity r)) k
            = holds (fst (dropHold r (ticketHoldKey ticketId) n)) k)"
  unfolding releaseCartItem_def Let_def
  by (auto simp: redis_set_cart_def redis_del_cart_def split: option.splits prod.splits)
     (metis fst_conv)+

lemma releaseCartItem_keeps_ok:
  assumes "holdCounterOk (holds r k)"
  shows "holdCounterOk (holds (fst (releaseCartItem now cartId ticketId quantity r)) k)"
  using releaseCartItem_holds [of now cartId ticketId quantity r k]
    assms dropHold_keeps_ok [OF assms] by auto

lemma releaseCartItem_counter:
  assumes "getCart r cartId = Some (c, ttl)"
    and "map_of (cart_items c) ticketId = Some item"
    and "d = (case quantity of Some q \<Rightarrow> min q (item_quantity item) | None \<Rightarrow> item_quantity item)"
    and "0 < d"
    and "snd (dropHold r (ticketHoldKey ticketId) d) = None"
  shows "holds (fst (releaseCartItem now cartId ticketId quantity r)) (ticketHoldKey ticketId)
           = holds (fst (dropHold r (ticketHoldKey ticketId) d)) (ticketHoldKey ticketId)
         \<and> (\<exists>out. snd (releaseCartItem now cartId ticketId quantity r) = Inr out)"
proof -
  obtain r1 where r1: "dropHold r (ticketHoldKey ticketId) d = (r1, None)"
    using assms(5) by (cases "dropHold r (ticketHoldKey ticketId) d") auto
  show ?thesis
    using assms(1,2,4) r1 unfolding releaseCartItem_def Let_def assms(3)
    by (auto simp: redis_set_cart_def redis_del_cart_def)
qed

text \<open>The loop of \<^verbatim>\<open>clearCart\<close>, key by key.\<close>

lemma dropHold_own_key:
  "holds r k = holds s k
     \<Longrightarrow> holds (fst (dropHold r k n)) k = holds (fst (dropHold s k n)) k"
  by (auto simp: dropHold_def redis_decrby_def redis_incrby_def redis_del_def redis_expire_def
      split: option.splits prod.splits)

lemma clearItems_untouched:
  "k \<notin> ticketHoldKey ` item_ticketId ` set its \<Longrightarrow> holds (fst (clearItems its r)) k = holds r k"
proof (induction its arbitrary: r)
  case Nil
  then show ?case by simp
next
  case (Cons item rest)
  let ?d = "dropHold r (ticketHoldKey (item_ticketId item)) (item_quantity item)"
  from Cons.prems have ne: "k \<noteq> ticketHoldKey (item_ticketId item)"
    and rest: "k \<notin> ticketHoldKey ` item_ticketId ` set rest" by auto
  have d: "holds (fst ?d) k = holds r k" using ne by (simp add: dropHold_other)
  show ?case
  proof (cases "snd ?d")
    case None
    then have "clearItems (item # rest) r = clearItems rest (fst ?d)" by (cases ?d) simp
    with Cons.IH [OF rest, of "fst ?d"] d show ?thesis by simp
  next
    case (Some err)
    then have "clearItems (item # rest) r = (fst ?d, Some err)" by (cases ?d) simp
    with d show ?thesis by simp
  qed
qed

lemma clearItems_carts: "carts (fst (clearItems its r)) = carts r"
proof (induction its arbitrary: r)
  case Nil
  then show ?case by simp
next
  case (Cons item rest)
  let ?d = "dropHold r (ticketHoldKey (item_ticketId item)) (item_quantity item)"
  show ?case
  proof (cases "snd ?d")
    case None
    then have "clearItems (item # rest) r = clearItems rest (fst ?d)" by (cases ?d) simp
    with Cons.IH [of "fst ?d"] show ?thesis by (simp add: dropHold_carts)
  next
    case (Some err)
    then have "clearItems (item # rest) r = (fst ?d, Some err)" by (cases ?d) simp
    then show ?thesis by (simp add: dropHold_carts)
  qed
qed

lemma clearItems_each:
  assumes "distinct (map item_ticketId its)" and "clearItems its r = (r', None)"
    and "item \<in> set its"
  shows "holds r' (ticketHoldKey (item_ticketId item))
           = holds (fst (dropHold r (ticketHoldKey (item_ticketId item)) (item_quantity item)))
               (ticketHoldKey (item_ticketId item))"
  using assms
proof (induction its arbitrary: r)
  case Nil
  then show ?case by simp
next
  case (Cons x rest)
  let ?kx = "ticketHoldKey (item_ticketId x)"
  let ?k = "ticketHoldKey (item_ticketId item)"
  let ?d = "dropHold r ?kx (item_quantity x)"
  from Cons.prems(2) have ok: "snd ?d = None" and rest: "clearItems rest (fst ?d) = (r', None)"
    by (cases ?d; cases "snd ?d"; simp)+
  from Cons.prems(1) have dist: "distinct (map item_ticketId rest)"
    and fresh: "item_ticketId x \<notin> item_ticketId ` set rest" by auto
  show ?case
  proof (cases "item = x")
    case True
    have "?kx \<notin> ticketHoldKey ` item_ticketId ` set rest"
      using fresh by (auto simp: ticketHoldKey_inj)
    from clearItems_untouched [OF this, of "fst ?d"] rest
    have "holds r' ?kx = holds (fst ?d) ?kx" by simp
    with True show ?thesis by simp
  next
    case False
    with Cons.prems(3) have mem: "item \<in> set rest" by simp
    with fresh have "item_ticketId item \<noteq> item_ticketId x" by (metis imageI)
    then have ne: "?k \<noteq> ?kx" by (simp add: ticketHoldKey_inj)
    then have same: "holds (fst ?d) ?k = holds r ?k" by (simp add: dropHold_other)
    from Cons.IH [OF dist rest mem]
    have "holds r' ?k = holds (fst (dropHold (fst ?d) ?k (item_quantity item))) ?k" .
    also have "\<dots> = holds (fst (dropHold r ?k (item_quantity item))) ?k"
      using same by (rule dropHold_own_key)
    finally show ?thesis .
  qed
qed

lemma dropHold_ok_succeeds:
  assumes "holdCounterOk (holds r k)"
  shows "snd (dropHold r k n) = None"
proof (cases "holds r k")
  case None
  then show ?thesis by (simp add: dropHold_absent)
next
  case (Some e)
  obtain v t where e: "e = (v, t)" by (cases e)
  with Some assms obtain m where "redis_int v = Some m"
    by (auto simp: holdCounterOk_def split: option.splits)
  with Some e show ?thesis by (simp add: dropHold_integer)
qed

lemma clearItems_succeeds:
  "(\<forall>x\<in>set its. holdCounterOk (holds r (ticketHoldKey (item_ticketId x))))
     \<Longrightarrow> snd (clearItems its r) = None"
proof (induction its arbitrary: r)
  case Nil
  then show ?case by simp
next
  case (Cons item rest)
  let ?d = "dropHold r (ticketHoldKey (item_ticketId item)) (item_quantity item)"
  from Cons.prems have "snd ?d = None" by (simp add: dropHold_ok_succeeds)
  then have step: "clearItems (item # rest) r = clearItems rest (fst ?d)" by (cases ?d) simp
  from Cons.prems
  have "\<forall>x\<in>set rest. holdCounterOk (holds (fst ?d) (ticketHoldKey (item_ticketId x)))"
    by (simp add: dropHold_keeps_ok)
  from Cons.IH [OF this] step show ?case by simp
qed

lemma clearCart_succeeds:
  assumes "getCart r cartId = Some (c, ttl)"
    and "\<forall>x\<in>snd ` set (cart_items c). holdCounterOk (holds r (ticketHoldKey (item_ticketId x)))"
  shows "snd (clearCart cartId r) = None"
proof -
  let ?its = "map snd (cart_items c)"
  from assms(1) have ne: "cartId \<noteq> []" by (auto simp: getCart_def split: if_splits)
  from assms(2) have "snd (clearItems ?its r) = None"
    using clearItems_succeeds [of ?its r] by simp
  then obtain r1 where "clearItems ?its r = (r1, None)" by (cases "clearItems ?its r") auto
  with assms(1) ne show ?thesis by (simp add: clearCart_def)
qed

lemma clearCart_each:
  assumes "getCart r cartId = Some (c, ttl)"
    and "snd (clearCart cartId r) = None"
    and "distinct (map (item_ticketId \<circ> snd) (cart_items c))"
    and "item \<in> snd ` set (cart_items c)"
  shows "holds (fst (clearCart cartId r)) (ticketHoldKey (item_ticketId item))
           = holds (fst (dropHold r (ticketHoldKey (item_ticketId item)) (item_quantity item)))
               (ticketHoldKey (item_ticketId item))"
    and "carts (fst (clearCart cartId r)) = (carts r)(cartKey cartId := None)"
proof -
  let ?its = "map snd (cart_items c)"
  from assms(1) have ne: "cartId \<noteq> []" by (auto simp: getCart_def split: if_splits)
  obtain r1 res where ci: "clearItems ?its r = (r1, res)" by (cases "clearItems ?its r")
  with assms(1,2) ne have res: "res = None"
    by (cases res) (simp_all add: clearCart_def)
  with ci assms(1) ne have cc: "clearCart cartId r = (redis_del_cart r1 (cartKey cartId), None)"
    by (simp add: clearCart_def)
  from assms(3) have d: "distinct (map item_ticketId ?its)" by (simp add: comp_def)
  from assms(4) have m: "item \<in> set ?its" by simp
  from clearItems_each [OF d _ m] ci res
  have "holds r1 (ticketHoldKey (item_ticketId item))
           = holds (fst (dropHold r (ticketHoldKey (item_ticketId item)) (item_quantity item)))
               (ticketHoldKey (item_ticketId item))" by simp
  moreover from clearItems_carts [of ?its r] ci have "carts r1 = carts r" by simp
  ultimately show "holds (fst (clearCart cartId r)) (ticketHoldKey (item_ticketId item))
           = holds (fst (dropHold r (ticketHoldKey (item_ticketId item)) (item_quantity item)))
               (ticketHoldKey (item_ticketId item))"
    and "carts (fst (clearCart cartId r)) = (carts r)(cartKey cartId := None)"
    by (simp_all add: cc redis_del_cart_def)
qed

lemma clearCart_counter:
  assumes g: "getCart r cartId = Some (c, ttl)"
    and dist: "distinct (map (item_ticketId \<circ> snd) (cart_items c))"
    and inv: "\<forall>x\<in>snd ` set (cart_items c).
               holdCounterOk (holds r (ticketHoldKey (item_ticketId x)))"
    and mem: "line \<in> snd ` set (cart_items c)"
    and h: "holds r (ticketHoldKey (item_ticketId line)) = Some (show_int m, t)"
  shows "snd (clearCart cartId r) = None
          \<and> holds (fst (clearCart cartId r)) (ticketHoldKey (item_ticketId line))
              = (if m \<le> item_quantity line then None
                 else Some (show_int (m - item_quantity line), Some HOLD_SECONDS))
          \<and> carts (fst (clearCart cartId r)) (cartKey cartId) = None"
proof -
  have ok: "snd (clearCart cartId r) = None" using g inv by (rule clearCart_succeeds)
  note each = clearCart_each(1) [OF g ok dist mem]
  note gone = clearCart_each(2) [OF g ok dist mem]
  from h have "holds (fst (dropHold r (ticketHoldKey (item_ticketId line)) (item_quantity line)))
               (ticketHoldKey (item_ticketId line))
        = (if m \<le> item_quantity line then None
                 else Some (show_int (m - item_quantity line), Some HOLD_SECONDS))"
    by (simp add: dropHold_integer redis_int_show_int)
  with each ok gone show ?thesis by simp
qed

text \<open>
  C9. A hold key that is absent or holds a positive integer is so again after
  \<^verbatim>\<open>releaseCartItem\<close> and after \<^verbatim>\<open>clearCart\<close>. Where a release decrements the counter \<open>m\<close> of
  its ticket by \<open>d > 0\<close>, the key is deleted when \<open>m - d \<le> 0\<close> and holds \<open>m - d\<close> otherwise:
  never zero, never a negative value; the \<^verbatim>\<open>DECRBY\<close>/\<^verbatim>\<open>DEL\<close> block does so for every amount.
  And \<^verbatim>\<open>clearCart\<close>, on a cart whose lines are of different tickets, each with its key
  absent or at a positive integer, returns without error, leaves the key of a line of
  quantity \<open>q\<close> whose counter was \<open>m\<close> deleted when \<open>m - q \<le> 0\<close> and at \<open>m - q\<close> otherwise,
  and deletes the cart.
\<close>

theorem release_clear_hold_counter:
  "(holdCounterOk (holds r k)
      \<longrightarrow> holdCounterOk (holds (fst (releaseCartItem now cartId ticketId quantity r)) k))
   \<and> (holdCounterOk (holds r k) \<longrightarrow> holdCounterOk (holds (fst (clearCart cartId r)) k))
   \<and> (getCart r cartId = Some (c, ttl) \<and> map_of (cart_items c) ticketId = Some item
        \<and> d = (case quantity of Some q \<Rightarrow> min q (item_quantity item)
                 | None \<Rightarrow> item_quantity item)
        \<and> 0 < d \<and> holds r (ticketHoldKey ticketId) = Some (show_int m, t)
      \<longrightarrow> holds (fst (releaseCartItem now cartId ticketId quantity r)) (ticketHoldKey ticketId)
            = (if m \<le> d then None else Some (show_int (m - d), Some HOLD_SECONDS)))
   \<and> (holds r k = Some (show_int m, t)
      \<longrightarrow> holds (fst (dropHold r k n)) k
            = (if m \<le> n then None else Some (show_int (m - n), Some HOLD_SECONDS)))
   \<and> (getCart r cartId = Some (c, ttl)
        \<and> distinct (map (item_ticketId \<circ> snd) (cart_items c))
        \<and> (\<forall>x\<in>snd ` set (cart_items c).
               holdCounterOk (holds r (ticketHoldKey (item_ticketId x))))
        \<and> line \<in> snd ` set (cart_items c)
        \<and> holds r (ticketHoldKey (item_ticketId line)) = Some (show_int m, t)
      \<longrightarrow> snd (clearCart cartId r) = None
          \<and> holds (fst (clearCart cartId r)) (ticketHoldKey (item_ticketId line))
              = (if m \<le> item_quantity line then None
                 else Some (show_int (m - item_quantity line), Some HOLD_SECONDS))
          \<and> carts (fst (clearCart cartId r)) (cartKey cartId) = None)"
proof -
  have release_keeps: "holdCounterOk (holds r k)
      \<longrightarrow> holdCounterOk (holds (fst (releaseCartItem now cartId ticketId quantity r)) k)"
    by (rule impI) (rule releaseCartItem_keeps_ok)
  have clear_keeps:
    "holdCounterOk (holds r k) \<longrightarrow> holdCounterOk (holds (fst (clearCart cartId r)) k)"
    by (rule impI) (rule clearCart_keeps_ok)
  have release_counter: "getCart r cartId = Some (c, ttl) \<and> map_of (cart_items c) ticketId = Some item
        \<and> d = (case quantity of Some q \<Rightarrow> min q (item_quantity item)
                 | None \<Rightarrow> item_quantity item)
        \<and> 0 < d \<and> holds r (ticketHoldKey ticketId) = Some (show_int m, t)
      \<longrightarrow> holds (fst (releaseCartItem now cartId ticketId quantity r)) (ticketHoldKey ticketId)
            = (if m \<le> d then None else Some (show_int (m - d), Some HOLD_SECONDS))"
  proof (rule impI)
    assume a: "getCart r cartId = Some (c, ttl) \<and> map_of (cart_items c) ticketId = Some item
        \<and> d = (case quantity of Some q \<Rightarrow> min q (item_quantity item)
                 | None \<Rightarrow> item_quantity item)
        \<and> 0 < d \<and> holds r (ticketHoldKey ticketId) = Some (show_int m, t)"
    then have dh: "dropHold r (ticketHoldKey ticketId) d =
       (if m \<le> d then r\<lparr>holds := (holds r)(ticketHoldKey ticketId := None)\<rparr>
        else r\<lparr>holds := (holds r)(ticketHoldKey ticketId \<mapsto> (show_int (m - d), Some HOLD_SECONDS))\<rparr>, None)"
      by (simp add: dropHold_integer redis_int_show_int)
    then have "snd (dropHold r (ticketHoldKey ticketId) d) = None" by simp
    with a have "holds (fst (releaseCartItem now cartId ticketId quantity r)) (ticketHoldKey ticketId)
           = holds (fst (dropHold r (ticketHoldKey ticketId) d)) (ticketHoldKey ticketId)"
      using releaseCartItem_counter [of r cartId c ttl ticketId item d quantity now] by blast
    with dh show "holds (fst (releaseCartItem now cartId ticketId quantity r)) (ticketHoldKey ticketId)
            = (if m \<le> d then None else Some (show_int (m - d), Some HOLD_SECONDS))"
      by simp
  qed
  have drop_counter: "holds r k = Some (show_int m, t)
      \<longrightarrow> holds (fst (dropHold r k n)) k
            = (if m \<le> n then None else Some (show_int (m - n), Some HOLD_SECONDS))"
    by (simp add: dropHold_integer redis_int_show_int)
  have clear_counter: "getCart r cartId = Some (c, ttl)
        \<and> distinct (map (item_ticketId \<circ> snd) (cart_items c))
        \<and> (\<forall>x\<in>snd ` set (cart_items c).
               holdCounterOk (holds r (ticketHoldKey (item_ticketId x))))
        \<and> line \<in> snd ` set (cart_items c)
        \<and> holds r (ticketHoldKey (item_ticketId line)) = Some (show_int m, t)
      \<longrightarrow> snd (clearCart cartId r) = None
          \<and> holds (fst (clearCart cartId r)) (ticketHoldKey (item_ticketId line))
              = (if m \<le> item_quantity line then None
                 else Some (show_int (m - item_quantity line), Some HOLD_SECONDS))
          \<and> carts (fst (clearCart cartId r)) (cartKey cartId) = None"
  proof (rule impI)
    assume a: "getCart r cartId = Some (c, ttl)
        \<and> distinct (map (item_ticketId \<circ> snd) (cart_items c))
        \<and> (\<forall>x\<in>snd ` set (cart_items c).
               holdCounterOk (holds r (ticketHoldKey (item_ticketId x))))
        \<and> line \<in> snd ` set (cart_items c)
        \<and> holds r (ticketHoldKey (item_ticketId line)) = Some (show_int m, t)"
    show "snd (clearCart cartId r) = None
          \<and> holds (fst (clearCart cartId r)) (ticketHoldKey (item_ticketId line))
              = (if m \<le> item_quantity line then None
                 else Some (show_int (m - item_quantity line), Some HOLD_SECONDS))
          \<and> carts (fst (clearCart cartId r)) (cartKey cartId) = None"
      using a by (intro clearCart_counter [of r cartId c ttl line m t]) blast+
  qed
  show ?thesis
    by (intro conjI) (rule release_keeps clear_keeps release_counter drop_counter clear_counter)+
qed

lemma show_int_2: "show_int 2 = ''2''"
  by code_simp

lemma demo_getCart: "getCart (demo_held_store v) ''c1'' = Some (demo_cart, 600)"
  by (simp add: getCart_def demo_held_store_def)

lemma show_int_9: "show_int 9 = ''9''"
  by code_simp

lemma show_int_6: "show_int 6 = ''6''"
  by code_simp

lemma demo_item_fields: "item_ticketId demo_item = ''t1''" "item_quantity demo_item = 3"
  by (simp_all add: demo_item_def buildCartItem_def demo_ticket_def)

theorem release_clear_hold_counter_witness:
  "holdCounterOk (holds (demo_held_store ''2'') (ticketHoldKey ''t1''))
   \<and> holds (fst (releaseCartItem 0 ''c1'' ''t1'' None (demo_held_store ''2''))) (ticketHoldKey ''t1'')
       = None
   \<and> holdCounterOk (holds (fst (clearCart ''c1'' (demo_held_store ''2''))) (ticketHoldKey ''t1''))
   \<and> snd (clearCart ''c1'' (demo_held_store ''2'')) = None
   \<and> holds (fst (clearCart ''c1'' (demo_held_store ''2''))) (ticketHoldKey ''t1'') = None
   \<and> carts (fst (clearCart ''c1'' (demo_held_store ''2''))) (cartKey ''c1'') = None
   \<and> holds (fst (clearCart ''c1'' (demo_held_store ''9''))) (ticketHoldKey ''t1'')
       = Some (''6'', Some 600)"
proof -
  have h: "holds (demo_held_store ''2'') (ticketHoldKey ''t1'') = Some (show_int 2, Some 600)"
    by (simp add: demo_held_store_def show_int_2)
  then have ok: "holdCounterOk (holds (demo_held_store ''2'') (ticketHoldKey ''t1''))"
    by (simp add: holdCounterOk_show)
  have hh: "holds (demo_held_store ''9'') (ticketHoldKey ''t1'') = Some (show_int 9, Some 600)"
    by (simp add: demo_held_store_def show_int_9)
  then have okk: "holdCounterOk (holds (demo_held_store ''9'') (ticketHoldKey ''t1''))"
    by (simp add: holdCounterOk_show)
  have it: "map_of (cart_items demo_cart) ''t1'' = Some demo_item"
    by (simp add: demo_cart_def)
  have its: "cart_items demo_cart = [(''t1'', demo_item)]"
    by (simp add: demo_cart_def)
  have q: "(3::int) = (case None :: int option of Some q \<Rightarrow> min q (item_quantity demo_item)
                 | None \<Rightarrow> item_quantity demo_item)"
    by (simp add: demo_item_fields)
  have lines: "distinct (map (item_ticketId \<circ> snd) (cart_items demo_cart))"
    "demo_item \<in> snd ` set (cart_items demo_cart)"
    by (simp_all add: its)
  have inv: "\<And>v. holdCounterOk (holds (demo_held_store v) (ticketHoldKey ''t1''))
      \<Longrightarrow> \<forall>x\<in>snd ` set (cart_items demo_cart).
               holdCounterOk (holds (demo_held_store v) (ticketHoldKey (item_ticketId x)))"
    by (simp add: its demo_item_fields)
  note two = release_clear_hold_counter
         [where r = "demo_held_store ''2''" and k = "ticketHoldKey ''t1''" and now = 0
            and cartId = "''c1''" and ticketId = "''t1''" and quantity = None
            and c = demo_cart and ttl = 600 and item = demo_item and d = 3 and m = 2
            and t = "Some 600" and n = 3 and line = demo_item]
  note nine = release_clear_hold_counter
         [where r = "demo_held_store ''9''" and k = "ticketHoldKey ''t1''" and now = 0
            and cartId = "''c1''" and ticketId = "''t1''" and quantity = None
            and c = demo_cart and ttl = 600 and item = demo_item and d = 3 and m = 9
            and t = "Some 600" and n = 3 and line = demo_item]
  from two ok
  have a: "holdCounterOk (holds (fst (clearCart ''c1'' (demo_held_store ''2''))) (ticketHoldKey ''t1''))"
    by blast
  from two [THEN conjunct2, THEN conjunct2, THEN conjunct1] demo_getCart it q h
  have b: "holds (fst (releaseCartItem 0 ''c1'' ''t1'' None (demo_held_store ''2'')))
             (ticketHoldKey ''t1'') = None"
    by simp
  from two [THEN conjunct2, THEN conjunct2, THEN conjunct2, THEN conjunct2]
    demo_getCart lines inv [OF ok] h
  have c: "snd (clearCart ''c1'' (demo_held_store ''2'')) = None
   \<and> holds (fst (clearCart ''c1'' (demo_held_store ''2''))) (ticketHoldKey ''t1'') = None
   \<and> carts (fst (clearCart ''c1'' (demo_held_store ''2''))) (cartKey ''c1'') = None"
    by (simp add: demo_item_fields)
  from nine [THEN conjunct2, THEN conjunct2, THEN conjunct2, THEN conjunct2]
    demo_getCart lines inv [OF okk] hh
  have d: "holds (fst (clearCart ''c1'' (demo_held_store ''9''))) (ticketHoldKey ''t1'')
       = Some (''6'', Some 600)"
    using show_int_6 by (simp add: demo_item_fields HOLD_SECONDS_def)
  from ok a b c d show ?thesis by simp
qed

subsection \<open>The retry loop\<close>

lemma withRetry_from_done:
  "\<not> i < n \<Longrightarrow> withRetry_from fn n i lastError st = (st, Inl lastError)"
  by (subst withRetry_from.simps) simp

lemma withRetry_from_success:
  "i < n \<Longrightarrow> fn i st = (st', Inr res) \<Longrightarrow> withRetry_from fn n i lastError st = (st', Inr res)"
  by (subst withRetry_from.simps) simp

lemma withRetry_from_terminal:
  "i < n \<Longrightarrow> fn i st = (st', Inl err) \<Longrightarrow> retryable err = Some False
     \<Longrightarrow> withRetry_from fn n i lastError st = (st', Inl err)"
  by (subst withRetry_from.simps) simp

lemma withRetry_from_again:
  "i < n \<Longrightarrow> fn i st = (st', Inl err) \<Longrightarrow> retryable err \<noteq> Some False
     \<Longrightarrow> withRetry_from fn n i lastError st = withRetry_from fn n (i + 1) err st'"
  by (subst withRetry_from.simps) simp

lemma withRetry_from_failure_rel:
  assumes refl: "\<And>s. R s s"
    and trans: "\<And>a b c. R a b \<Longrightarrow> R b c \<Longrightarrow> R a c"
    and step: "\<And>j s s' e. j < n \<Longrightarrow> fn j s = (s', Inl e) \<Longrightarrow> R s s'"
  shows "withRetry_from fn n i lastError st = (st', Inl err) \<Longrightarrow> R st st'"
proof (induction "n - i" arbitrary: i lastError st)
  case 0
  then have "\<not> i < n" by simp
  with "0.prems" have "st' = st" by (simp add: withRetry_from_done)
  then show ?case by (simp add: refl)
next
  case (Suc k)
  then have lt: "i < n" by simp
  obtain s1 res1 where f: "fn i st = (s1, res1)" by (cases "fn i st")
  show ?case
  proof (cases res1)
    case (Inr res)
    with lt f Suc.prems show ?thesis by (simp add: withRetry_from_success)
  next
    case (Inl e)
    with f have fe: "fn i st = (s1, Inl e)" by simp
    have r1: "R st s1" using step [OF lt fe] .
    show ?thesis
    proof (cases "retryable e = Some False")
      case True
      with lt fe Suc.prems have "st' = s1" by (simp add: withRetry_from_terminal)
      with r1 show ?thesis by simp
    next
      case False
      with lt fe Suc.prems
      have w: "withRetry_from fn n (i + 1) e s1 = (st', Inl err)"
        by (simp add: withRetry_from_again)
      from Suc.hyps(2) have "k = n - (i + 1)" by simp
      from Suc.hyps(1) [OF this w] have "R s1 st'" .
      with r1 show ?thesis by (rule trans)
    qed
  qed
qed

subsection \<open>Reserve: one run of the closure\<close>

lemma validateQuantity_not_NotEnough [simp]:
  "validateQuantity q l \<noteq> Some NotEnough" "validateQuantity q l \<noteq> Some HoldConflict"
  by (simp_all add: validateQuantity_def)

lemma validateQuantity_Some:
  "validateQuantity q l = Some e \<Longrightarrow> isValidationError e \<and> retryable e = None"
  by (auto simp: validateQuantity_def split: if_splits)

lemma validateQuantity_None: "validateQuantity q l = None \<Longrightarrow> 0 < q"
  by (auto simp: validateQuantity_def split: if_splits)

lemma validateQuantity_over:
  "l \<noteq> 0 \<Longrightarrow> l < q \<Longrightarrow> \<exists>e. validateQuantity q l = Some e"
  by (auto simp: validateQuantity_def)

text \<open>One run of the closure, case by case.\<close>

lemma reserveAttempt_NotEnough_iff:
  "snd (reserveAttempt t ticketId quantity userId env st) = Inl NotEnough
     \<longleftrightarrow> quantity > available t (redis_get (store st) (ticketHoldKey ticketId))"
  unfolding reserveAttempt_def Let_def
  by (auto split: option.splits interference.splits)

lemma reserveAttempt_short:
  "quantity > available t (redis_get (store st) (ticketHoldKey ticketId))
     \<Longrightarrow> reserveAttempt t ticketId quantity userId env st = (st, Inl NotEnough)"
  unfolding reserveAttempt_def Let_def by simp

lemma reserveAttempt_failure_state:
  "reserveAttempt t ticketId quantity userId env st = (st', Inl e) \<Longrightarrow> e \<noteq> HoldConflict
     \<Longrightarrow> st' = st"
  unfolding reserveAttempt_def Let_def
  by (auto split: option.splits interference.splits if_splits)

lemma reserveAttempt_failure_env:
  "reserveAttempt t ticketId quantity userId env st = (st', Inl e) \<Longrightarrow> e \<noteq> HoldConflict
     \<Longrightarrow> reserveAttempt t ticketId quantity userId env' st = (st, Inl e)"
  unfolding reserveAttempt_def Let_def
  by (auto split: option.splits interference.splits if_splits)

lemma reserveAttempt_conflict:
  "reserveAttempt t ticketId quantity userId env st = (st', Inl HoldConflict)
     \<Longrightarrow> \<exists>e. meddling env = Touched e
           \<and> store st' = (store st)\<lparr>holds := (holds (store st))(ticketHoldKey ticketId := e)\<rparr>"
  unfolding reserveAttempt_def Let_def
  by (auto split: option.splits interference.splits if_splits)

lemma reserveAttempt_quiet_no_conflict:
  "meddling env = Quiet \<Longrightarrow> snd (reserveAttempt t ticketId quantity userId env st) \<noteq> Inl HoldConflict"
  unfolding reserveAttempt_def Let_def
  by (auto split: option.splits interference.splits if_splits)

lemma reserveAttempt_failure_carts:
  "reserveAttempt t ticketId quantity userId env st = (st', Inl e)
     \<Longrightarrow> carts (store st') = carts (store st)"
  unfolding reserveAttempt_def Let_def
  by (auto split: option.splits interference.splits if_splits)

lemma reserveAttempt_failure_holds:
  "reserveAttempt t ticketId quantity userId env st = (st', Inl e)
     \<Longrightarrow> holds (store st') k = holds (store st) k
         \<or> meddling env = Touched (holds (store st') k)"
  unfolding reserveAttempt_def Let_def
  by (auto split: option.splits interference.splits if_splits)

text \<open>A run on a cart that does not exist yet.\<close>

lemma reserveAttempt_fresh:
  assumes "workingCart st = None"
    and "\<not> quantity > available t (redis_get (store st) (ticketHoldKey ticketId))"
    and "validateQuantity quantity (perOrderLimit t) = None"
  shows "reserveAttempt t ticketId quantity userId env st =
     (let written = \<lparr>cart_cartId = freshId env, cart_userId = userId,
                      cart_eventId = eventId t, cart_currency = currency t,
                      cart_items = [(tid t, buildCartItem t quantity
                                      (clock env + int HOLD_SECONDS * 1000) (tid t))]\<rparr>
      in case meddling env of
           Touched e \<Rightarrow>
             (\<lparr>store = (store st)\<lparr>holds := (holds (store st))(ticketHoldKey ticketId := e)\<rparr>,
               workingCart = None\<rparr>, Inl HoldConflict)
         | Quiet \<Rightarrow>
             (\<lparr>store = execMulti (store st) (ticketHoldKey ticketId) quantity
                         (cartKey (freshId env)) written,
               workingCart = None\<rparr>,
              Inr \<lparr>res_cartId = freshId env, res_cart = written,
                   res_expiresInSeconds = HOLD_SECONDS\<rparr>))"
  using assms unfolding reserveAttempt_def Let_def
  by (simp split: interference.splits)

subsection \<open>Reserve: the whole call\<close>

lemma retryable_False_iff: "retryable e = Some False \<longleftrightarrow> e = NotEnough"
  by (cases e) simp_all

lemma withRetry_from_same_failure:
  assumes "\<And>j. j < n \<Longrightarrow> fn j st = (st, Inl e)" and "retryable e \<noteq> Some False"
  shows "withRetry_from fn n i lastError st = (st, Inl (if i < n then e else lastError))"
proof (induction "n - i" arbitrary: i lastError)
  case 0
  then show ?case by (simp add: withRetry_from_done)
next
  case (Suc k)
  then have lt: "i < n" by simp
  from Suc.hyps(2) have "k = n - (i + 1)" by simp
  from Suc.hyps(1) [OF this]
  have "withRetry_from fn n (i + 1) e st = (st, Inl e)" by simp
  with lt assms show ?case by (simp add: withRetry_from_again)
qed

text \<open>The call once its guards have passed.\<close>

lemma reserveTickets_guarded:
  assumes "findById ts ticketId = Some t"
    and "validateQuantity quantity (perOrderLimit t) = None"
    and "wc = map_option fst (case cartId of None \<Rightarrow> None | Some c \<Rightarrow> getCart r c)"
    and "case wc of None \<Rightarrow> True | Some c \<Rightarrow> cart_userId c = userId \<and> cart_eventId c = eventId t"
  shows "reserveTickets ts env userId ticketId quantity cartId r =
           (case withRetry (\<lambda>i. reserveAttempt t ticketId quantity userId (env i)) 3
                   \<lparr>store = r, workingCart = wc\<rparr> of
              (st, res) \<Rightarrow> (store st, res))"
proof -
  have g1: "\<not> (case wc of None \<Rightarrow> False | Some c \<Rightarrow> cart_userId c \<noteq> userId)"
    using assms(4) by (cases wc) auto
  have g2: "\<not> (case wc of None \<Rightarrow> False | Some c \<Rightarrow> cart_eventId c \<noteq> eventId t)"
    using assms(4) by (cases wc) auto
  show ?thesis
    unfolding reserveTickets_def Let_def assms(3) [symmetric]
    using assms(1,2) g1 g2 by simp
qed

lemma reserveTickets_cases:
  "(\<exists>e. reserveTickets ts env userId ticketId quantity cartId r = (r, Inl e))
   \<or> (\<exists>t wc st res.
         withRetry (\<lambda>i. reserveAttempt t ticketId quantity userId (env i)) 3
            \<lparr>store = r, workingCart = wc\<rparr> = (st, res)
         \<and> reserveTickets ts env userId ticketId quantity cartId r = (store st, res))"
  unfolding reserveTickets_def Let_def
  by (auto split: option.splits prod.splits)

lemma onlyMeddled_refl: "onlyMeddled env r r"
  by (simp add: onlyMeddled_def)

lemma onlyMeddled_trans:
  "onlyMeddled env a b \<Longrightarrow> onlyMeddled env b c \<Longrightarrow> onlyMeddled env a c"
  unfolding onlyMeddled_def by metis

lemma onlyMeddled_quiet:
  assumes "onlyMeddled env r r'" "\<forall>j<3. meddling (env j) = Quiet"
  shows "r' = r"
proof -
  have "holds r' k = holds r k" for k
    using assms unfolding onlyMeddled_def by (metis interference.distinct(1))
  then have "holds r' = holds r" by (rule ext)
  moreover from assms have "carts r' = carts r" by (simp add: onlyMeddled_def)
  ultimately show ?thesis by (cases r, cases r') simp
qed

lemma withRetry_reserve_failure:
  assumes "withRetry (\<lambda>i. reserveAttempt t ticketId quantity userId (env i)) 3 st = (st', Inl e)"
  shows "onlyMeddled env (store st) (store st')"
proof -
  let ?fn = "\<lambda>i. reserveAttempt t ticketId quantity userId (env i)"
  have step: "onlyMeddled env (store s) (store s')"
    if "j < 3" "?fn j s = (s', Inl e')" for j s s' e'
    using that reserveAttempt_failure_carts [of t ticketId quantity userId "env j" s s' e']
      reserveAttempt_failure_holds [of t ticketId quantity userId "env j" s s' e']
    unfolding onlyMeddled_def by blast
  from assms have "withRetry_from ?fn 3 0 ThrownUndefined st = (st', Inl e)"
    by (simp add: withRetry_def)
  from withRetry_from_failure_rel
         [where R = "\<lambda>s s'. onlyMeddled env (store s) (store s')" and fn = ?fn, OF _ _ _ this]
  show ?thesis using step onlyMeddled_refl onlyMeddled_trans by blast
qed

lemma reserveTickets_failure:
  assumes "reserveTickets ts env userId ticketId quantity cartId r = (r', Inl e)"
  shows "onlyMeddled env r r'"
proof -
  from reserveTickets_cases [of ts env userId ticketId quantity cartId r]
  show ?thesis
  proof
    assume "\<exists>e. reserveTickets ts env userId ticketId quantity cartId r = (r, Inl e)"
    with assms show ?thesis by (auto simp: onlyMeddled_refl)
  next
    assume "\<exists>t wc st res.
         withRetry (\<lambda>i. reserveAttempt t ticketId quantity userId (env i)) 3
            \<lparr>store = r, workingCart = wc\<rparr> = (st, res)
         \<and> reserveTickets ts env userId ticketId quantity cartId r = (store st, res)"
    then obtain t wc st res where
      w: "withRetry (\<lambda>i. reserveAttempt t ticketId quantity userId (env i)) 3
            \<lparr>store = r, workingCart = wc\<rparr> = (st, res)"
      and rt: "reserveTickets ts env userId ticketId quantity cartId r = (store st, res)"
      by blast
    from rt assms have "res = Inl e" "store st = r'" by simp_all
    with withRetry_reserve_failure [of t ticketId quantity userId env "\<lparr>store = r, workingCart = wc\<rparr>" st e] w
    show ?thesis by simp
  qed
qed

text \<open>A call whose first run finds too little inventory.\<close>

lemma reserveTickets_short:
  assumes "findById ts ticketId = Some t"
    and "validateQuantity quantity (perOrderLimit t) = None"
    and "wc = map_option fst (case cartId of None \<Rightarrow> None | Some c \<Rightarrow> getCart r c)"
    and "case wc of None \<Rightarrow> True | Some c \<Rightarrow> cart_userId c = userId \<and> cart_eventId c = eventId t"
    and "quantity > available t (redis_get r (ticketHoldKey ticketId))"
  shows "reserveTickets ts env userId ticketId quantity cartId r = (r, Inl NotEnough)"
proof -
  let ?st = "\<lparr>store = r, workingCart = wc\<rparr>"
  have "reserveAttempt t ticketId quantity userId (env 0) ?st = (?st, Inl NotEnough)"
    using assms(5) by (simp add: reserveAttempt_short)
  then have "withRetry (\<lambda>i. reserveAttempt t ticketId quantity userId (env i)) 3 ?st
               = (?st, Inl NotEnough)"
    by (simp add: withRetry_def withRetry_from_terminal)
  with reserveTickets_guarded [OF assms(1-4)] show ?thesis by simp
qed

text \<open>A call whose first run throws before \<^verbatim>\<open>EXEC\<close>: every run throws the same.\<close>

lemma reserveTickets_early_failure:
  assumes "findById ts ticketId = Some t"
    and "validateQuantity quantity (perOrderLimit t) = None"
    and "wc = map_option fst (case cartId of None \<Rightarrow> None | Some c \<Rightarrow> getCart r c)"
    and "case wc of None \<Rightarrow> True | Some c \<Rightarrow> cart_userId c = userId \<and> cart_eventId c = eventId t"
    and "snd (reserveAttempt t ticketId quantity userId (env 0) \<lparr>store = r, workingCart = wc\<rparr>)
           = Inl e"
    and "e \<noteq> HoldConflict"
  shows "reserveTickets ts env userId ticketId quantity cartId r = (r, Inl e)"
proof -
  let ?st = "\<lparr>store = r, workingCart = wc\<rparr>"
  let ?fn = "\<lambda>i. reserveAttempt t ticketId quantity userId (env i)"
  obtain s1 where a0: "?fn 0 ?st = (s1, Inl e)"
    using assms(5) by (cases "?fn 0 ?st") auto
  have all: "?fn j ?st = (?st, Inl e)" for j
    using reserveAttempt_failure_env [OF a0 assms(6)] .
  have "withRetry ?fn 3 ?st = (?st, Inl e)"
  proof (cases "retryable e = Some False")
    case True
    with all [of 0] show ?thesis by (simp add: withRetry_def withRetry_from_terminal)
  next
    case False
    from withRetry_from_same_failure [of 3 ?fn ?st e 0 ThrownUndefined, OF all False]
    show ?thesis by (simp add: withRetry_def)
  qed
  with reserveTickets_guarded [OF assms(1-4)] show ?thesis by simp
qed

text \<open>With no other client at work, only the first run can succeed.\<close>

lemma reserveTickets_quiet:
  assumes "findById ts ticketId = Some t"
    and "validateQuantity quantity (perOrderLimit t) = None"
    and "wc = map_option fst (case cartId of None \<Rightarrow> None | Some c \<Rightarrow> getCart r c)"
    and "case wc of None \<Rightarrow> True | Some c \<Rightarrow> cart_userId c = userId \<and> cart_eventId c = eventId t"
    and "meddling (env 0) = Quiet"
  shows "reserveTickets ts env userId ticketId quantity cartId r =
           (case reserveAttempt t ticketId quantity userId (env 0) \<lparr>store = r, workingCart = wc\<rparr> of
              (st, res) \<Rightarrow> (store st, res))"
proof -
  let ?st = "\<lparr>store = r, workingCart = wc\<rparr>"
  let ?fn = "\<lambda>i. reserveAttempt t ticketId quantity userId (env i)"
  obtain s1 res where a0: "?fn 0 ?st = (s1, res)" by (cases "?fn 0 ?st")
  show ?thesis
  proof (cases res)
    case (Inr ok)
    with a0 have "withRetry ?fn 3 ?st = (s1, Inr ok)"
      by (simp add: withRetry_def withRetry_from_success)
    with reserveTickets_guarded [OF assms(1-4)] a0 Inr show ?thesis by simp
  next
    case (Inl e)
    with a0 reserveAttempt_quiet_no_conflict [OF assms(5), of t ticketId quantity userId ?st]
    have ne: "e \<noteq> HoldConflict" by auto
    from a0 Inl have a0': "?fn 0 ?st = (s1, Inl e)" by simp
    from reserveAttempt_failure_state [OF a0' ne] have "s1 = ?st" .
    moreover from a0 Inl have "snd (?fn 0 ?st) = Inl e" by simp
    from reserveTickets_early_failure
           [where env = env and e = e, OF assms(1-4) this ne]
    have "reserveTickets ts env userId ticketId quantity cartId r = (r, Inl e)" .
    ultimately show ?thesis using a0 Inl by simp
  qed
qed

subsection \<open>Reserve: insufficient inventory\<close>

lemma available_absent: "available t None = qtyTotal t - qtySold t"
  by (simp add: available_def currentHoldOf_def)

lemma available_integer: "available t (Some (show_int h)) = qtyTotal t - qtySold t - h"
  by (simp add: available_def currentHoldOf_def show_int_nonempty parseInt_show_int)

text \<open>
  C1, amended. On an existing ticket, for a quantity that \<^verbatim>\<open>validateQuantity\<close> accepts and a
  cart, if one is given and found, of this user and this event: every run of the retried
  closure computes \<open>available = qtyTotal - qtySold - currentHold\<close>, an absent counter
  counting as 0, and throws \<open>NotEnough\<close>, whose \<^verbatim>\<open>retryable\<close> is \<^verbatim>\<open>false\<close>, exactly when
  \<open>quantity > available\<close>, leaving its state as it was. The call then fails with \<open>NotEnough\<close>
  without another run; with no other client at work it fails so exactly when
  \<open>quantity > available\<close>; and a call that fails so has written no hold counter and no
  cart.
\<close>

theorem reserve_insufficient_inventory:
  assumes "findById ts ticketId = Some t"
    and "validateQuantity quantity (perOrderLimit t) = None"
    and "wc = map_option fst (case cartId of None \<Rightarrow> None | Some c \<Rightarrow> getCart r c)"
    and "case wc of None \<Rightarrow> True | Some c \<Rightarrow> cart_userId c = userId \<and> cart_eventId c = eventId t"
  shows "available t None = qtyTotal t - qtySold t
    \<and> available t (Some (show_int h)) = qtyTotal t - qtySold t - h
    \<and> (snd (reserveAttempt t ticketId quantity userId e st) = Inl NotEnough
         \<longleftrightarrow> quantity > available t (redis_get (store st) (ticketHoldKey ticketId)))
    \<and> (quantity > available t (redis_get (store st) (ticketHoldKey ticketId))
         \<longrightarrow> fst (reserveAttempt t ticketId quantity userId e st) = st)
    \<and> retryable NotEnough = Some False
    \<and> (quantity > available t (redis_get r (ticketHoldKey ticketId))
         \<longrightarrow> reserveTickets ts env userId ticketId quantity cartId r = (r, Inl NotEnough))
    \<and> ((\<forall>j<3. meddling (env j) = Quiet)
         \<longrightarrow> (snd (reserveTickets ts env userId ticketId quantity cartId r) = Inl NotEnough
               \<longleftrightarrow> quantity > available t (redis_get r (ticketHoldKey ticketId))))
    \<and> (snd (reserveTickets ts env userId ticketId quantity cartId r) = Inl NotEnough
         \<longrightarrow> onlyMeddled env r (fst (reserveTickets ts env userId ticketId quantity cartId r)))"
proof (intro conjI impI)
  show "available t None = qtyTotal t - qtySold t" by (rule available_absent)
  show "available t (Some (show_int h)) = qtyTotal t - qtySold t - h" by (rule available_integer)
  show "snd (reserveAttempt t ticketId quantity userId e st) = Inl NotEnough
         \<longleftrightarrow> quantity > available t (redis_get (store st) (ticketHoldKey ticketId))"
    by (rule reserveAttempt_NotEnough_iff)
  show "retryable NotEnough = Some False" by simp
next
  assume "quantity > available t (redis_get (store st) (ticketHoldKey ticketId))"
  then show "fst (reserveAttempt t ticketId quantity userId e st) = st"
    by (simp add: reserveAttempt_short)
next
  assume "quantity > available t (redis_get r (ticketHoldKey ticketId))"
  with assms show "reserveTickets ts env userId ticketId quantity cartId r = (r, Inl NotEnough)"
    by (rule reserveTickets_short)
next
  assume "\<forall>j<3. meddling (env j) = Quiet"
  then have q0: "meddling (env 0) = Quiet" by simp
  let ?a = "reserveAttempt t ticketId quantity userId (env 0) \<lparr>store = r, workingCart = wc\<rparr>"
  from reserveTickets_quiet [where env = env, OF assms q0]
  have "snd (reserveTickets ts env userId ticketId quantity cartId r) = snd ?a"
    by (cases ?a) simp
  then show "snd (reserveTickets ts env userId ticketId quantity cartId r) = Inl NotEnough
               \<longleftrightarrow> quantity > available t (redis_get r (ticketHoldKey ticketId))"
    using reserveAttempt_NotEnough_iff
            [of t ticketId quantity userId "env 0" "\<lparr>store = r, workingCart = wc\<rparr>"]
    by simp
next
  assume "snd (reserveTickets ts env userId ticketId quantity cartId r) = Inl NotEnough"
  then have "reserveTickets ts env userId ticketId quantity cartId r
               = (fst (reserveTickets ts env userId ticketId quantity cartId r), Inl NotEnough)"
    by (metis prod.collapse)
  then show "onlyMeddled env r (fst (reserveTickets ts env userId ticketId quantity cartId r))"
    by (rule reserveTickets_failure)
qed

lemma demo_findById: "findById [demo_ticket\<lparr>qtySold := s\<rparr>] ''t1'' = Some (demo_ticket\<lparr>qtySold := s\<rparr>)"
  by (simp add: findById_def demo_ticket_def)

lemma demo_available_absent:
  "available (demo_ticket\<lparr>qtySold := s\<rparr>) (redis_get demo_store (ticketHoldKey ''t1'')) = 10 - s"
  by (simp add: redis_get_def demo_store_def available_absent) (simp add: demo_ticket_def)

theorem reserve_insufficient_inventory_witness:
  "reserveTickets [demo_ticket\<lparr>qtySold := 8\<rparr>] demo_env ''u1'' ''t1'' 3 None demo_store
     = (demo_store, Inl NotEnough)
   \<and> available (demo_ticket\<lparr>qtySold := 8\<rparr>) (redis_get demo_store (ticketHoldKey ''t1'')) = 2
   \<and> onlyMeddled demo_env demo_store demo_store"
proof -
  have v: "validateQuantity 3 (perOrderLimit (demo_ticket\<lparr>qtySold := 8\<rparr>)) = None"
    by (simp add: validateQuantity_def demo_ticket_def)
  have a: "available (demo_ticket\<lparr>qtySold := 8\<rparr>) (redis_get demo_store (ticketHoldKey ''t1'')) = 2"
    by (simp add: demo_available_absent)
  have w: "(None :: cart option)
             = map_option fst (case (None :: string option) of None \<Rightarrow> None
                               | Some c \<Rightarrow> getCart demo_store c)"
    by simp
  have g: "case (None :: cart option) of None \<Rightarrow> True
           | Some c \<Rightarrow> cart_userId c = ''u1''
                        \<and> cart_eventId c = eventId (demo_ticket\<lparr>qtySold := 8\<rparr>)"
    by simp
  from reserve_insufficient_inventory
         [where env = demo_env and h = 0 and e = "demo_env 0"
            and st = "\<lparr>store = demo_store, workingCart = None\<rparr>",
          OF demo_findById v w g] a
  show ?thesis by (simp add: onlyMeddled_refl)
qed

text \<open>
  C1 as stated fails: a positive quantity above both the per-order limit and the available
  quantity is refused by \<^verbatim>\<open>validateQuantity\<close>, not for insufficient inventory.
\<close>

theorem reserve_insufficient_inventory_counterexample:
  "findById [demo_ticket\<lparr>qtySold := 8\<rparr>] ''t1'' = Some (demo_ticket\<lparr>qtySold := 8\<rparr>)
   \<and> (0::int) < 5
   \<and> available (demo_ticket\<lparr>qtySold := 8\<rparr>) (redis_get demo_store (ticketHoldKey ''t1'')) = 2
   \<and> reserveTickets [demo_ticket\<lparr>qtySold := 8\<rparr>] demo_env ''u1'' ''t1'' 5 None demo_store
       = (demo_store, Inl (OverLimit 4))"
proof -
  have "reserveTickets [demo_ticket\<lparr>qtySold := 8\<rparr>] demo_env ''u1'' ''t1'' 5 None demo_store
       = (demo_store, Inl (OverLimit 4))"
    unfolding reserveTickets_def demo_findById
    by (simp add: validateQuantity_def demo_ticket_def)
  then show ?thesis
    by (simp add: demo_findById demo_available_absent)
qed

subsection \<open>Reserve: the per-order limit\<close>

lemma findById_tid: "findById ts ticketId = Some t \<Longrightarrow> tid t = ticketId"
  by (auto simp: findById_def find_Some_iff)

text \<open>A run that merges into a line of an existing cart and finds the total refused.\<close>

lemma reserveAttempt_merged_refused:
  assumes "workingCart st = Some c"
    and "map_of (cart_items c) (tid t) = Some item"
    and "validateQuantity (item_quantity item + quantity) (perOrderLimit t) = Some e"
    and "\<not> quantity > available t (redis_get (store st) (ticketHoldKey ticketId))"
  shows "reserveAttempt t ticketId quantity userId env st = (st, Inl e)"
  using assms unfolding reserveAttempt_def Let_def by simp

text \<open>
  C7, amended. On an existing ticket with a per-order limit, a call whose quantity exceeds
  the limit fails with a validation error and the store as it was. So does a call that
  would raise a line of the caller's cart above the limit, except that its error is
  \<open>NotEnough\<close> when the quantity also exceeds the available quantity, which the closure
  checks first. In both cases neither a hold counter nor a cart is written, whatever
  other clients do.
\<close>

theorem reserve_over_limit_no_write:
  assumes "findById ts ticketId = Some t" and "perOrderLimit t \<noteq> 0"
  shows "(quantity > perOrderLimit t
      \<longrightarrow> (\<exists>e. reserveTickets ts env userId ticketId quantity cartId r = (r, Inl e)
               \<and> isValidationError e))
   \<and> (validateQuantity quantity (perOrderLimit t) = None
        \<and> cartId = Some cid \<and> getCart r cid = Some (c, ttl)
        \<and> cart_userId c = userId \<and> cart_eventId c = eventId t
        \<and> map_of (cart_items c) ticketId = Some item
        \<and> item_quantity item + quantity > perOrderLimit t
      \<longrightarrow> (\<exists>e. reserveTickets ts env userId ticketId quantity cartId r = (r, Inl e)
               \<and> (if quantity > available t (redis_get r (ticketHoldKey ticketId))
                    then e = NotEnough else isValidationError e)))"
proof (intro conjI impI)
  assume "quantity > perOrderLimit t"
  with assms(2) obtain e where e: "validateQuantity quantity (perOrderLimit t) = Some e"
    using validateQuantity_over by blast
  with assms(1) have "reserveTickets ts env userId ticketId quantity cartId r = (r, Inl e)"
    by (simp add: reserveTickets_def)
  with validateQuantity_Some [OF e]
  show "\<exists>e. reserveTickets ts env userId ticketId quantity cartId r = (r, Inl e)
               \<and> isValidationError e" by blast
next
  assume a: "validateQuantity quantity (perOrderLimit t) = None
        \<and> cartId = Some cid \<and> getCart r cid = Some (c, ttl)
        \<and> cart_userId c = userId \<and> cart_eventId c = eventId t
        \<and> map_of (cart_items c) ticketId = Some item
        \<and> item_quantity item + quantity > perOrderLimit t"
  then have v: "validateQuantity quantity (perOrderLimit t) = None" by simp
  from a have wc: "Some c = map_option fst (case cartId of None \<Rightarrow> None | Some x \<Rightarrow> getCart r x)"
    by simp
  from a have g: "case Some c of None \<Rightarrow> True
                  | Some x \<Rightarrow> cart_userId x = userId \<and> cart_eventId x = eventId t" by simp
  from a findById_tid [OF assms(1)] have it: "map_of (cart_items c) (tid t) = Some item" by simp
  from a assms(2) obtain e where
    e: "validateQuantity (item_quantity item + quantity) (perOrderLimit t) = Some e"
    using validateQuantity_over by blast
  let ?st = "\<lparr>store = r, workingCart = Some c\<rparr>"
  show "\<exists>e. reserveTickets ts env userId ticketId quantity cartId r = (r, Inl e)
               \<and> (if quantity > available t (redis_get r (ticketHoldKey ticketId))
                    then e = NotEnough else isValidationError e)"
  proof (cases "quantity > available t (redis_get r (ticketHoldKey ticketId))")
    case True
    from reserveTickets_short [where env = env, OF assms(1) v wc g True] True
    show ?thesis by simp
  next
    case False
    have "reserveAttempt t ticketId quantity userId (env 0) ?st = (?st, Inl e)"
      using it e False by (intro reserveAttempt_merged_refused) simp_all
    then have s: "snd (reserveAttempt t ticketId quantity userId (env 0) ?st) = Inl e" by simp
    from e have ne: "e \<noteq> HoldConflict" by auto
    from reserveTickets_early_failure [where env = env and e = e, OF assms(1) v wc g s ne]
      validateQuantity_Some [OF e] False
    show ?thesis by simp
  qed
qed

lemma parseInt_3: "parseInt ''3'' = Some 3"
  by code_simp

lemma parseInt_9: "parseInt ''9'' = Some 9"
  by code_simp

lemma demo_findById0: "findById [demo_ticket] ''t1'' = Some demo_ticket"
  by (simp add: findById_def demo_ticket_def)

lemma demo_available_3:
  "available demo_ticket (redis_get (demo_held_store ''3'') (ticketHoldKey ''t1'')) = 7"
  by (simp add: redis_get_def demo_held_store_def available_def currentHoldOf_def parseInt_3
      demo_ticket_def)

lemma demo_available_9:
  "available demo_ticket (redis_get (demo_held_store ''9'') (ticketHoldKey ''t1'')) = 1"
  by (simp add: redis_get_def demo_held_store_def available_def currentHoldOf_def parseInt_9
      demo_ticket_def)

lemma demo_cart_line:
  "cart_userId demo_cart = ''u1''" "cart_eventId demo_cart = eventId demo_ticket"
  "map_of (cart_items demo_cart) ''t1'' = Some demo_item" "item_quantity demo_item = 3"
  "perOrderLimit demo_ticket = 4"
  by (simp_all add: demo_cart_def demo_item_def demo_ticket_def buildCartItem_def)

theorem reserve_over_limit_no_write_witness:
  "(\<exists>e. reserveTickets [demo_ticket] demo_env ''u1'' ''t1'' 5 None demo_store
           = (demo_store, Inl e) \<and> isValidationError e)
   \<and> (\<exists>e. reserveTickets [demo_ticket] demo_env ''u1'' ''t1'' 2 (Some ''c1'')
               (demo_held_store ''3'') = (demo_held_store ''3'', Inl e)
           \<and> isValidationError e)"
proof -
  have l: "perOrderLimit demo_ticket \<noteq> 0" by (simp add: demo_cart_line)
  have over: "5 > perOrderLimit demo_ticket" by (simp add: demo_cart_line)
  have pre: "validateQuantity 2 (perOrderLimit demo_ticket) = None
        \<and> Some ''c1'' = Some ''c1'' \<and> getCart (demo_held_store ''3'') ''c1'' = Some (demo_cart, 600)
        \<and> cart_userId demo_cart = ''u1'' \<and> cart_eventId demo_cart = eventId demo_ticket
        \<and> map_of (cart_items demo_cart) ''t1'' = Some demo_item
        \<and> item_quantity demo_item + 2 > perOrderLimit demo_ticket"
    by (simp add: validateQuantity_def demo_getCart demo_cart_line)
  from reserve_over_limit_no_write
            [where env = demo_env and quantity = 5 and userId = "''u1''" and cartId = None
               and r = demo_store, OF demo_findById0 l] over
  have first: "\<exists>e. reserveTickets [demo_ticket] demo_env ''u1'' ''t1'' 5 None demo_store
           = (demo_store, Inl e) \<and> isValidationError e"
    by blast
  from reserve_over_limit_no_write
            [where env = demo_env and quantity = 2 and userId = "''u1''"
               and cartId = "Some ''c1''" and cid = "''c1''" and c = demo_cart and ttl = 600
               and item = demo_item and r = "demo_held_store ''3''", OF demo_findById0 l] pre
  have "\<exists>e. reserveTickets [demo_ticket] demo_env ''u1'' ''t1'' 2 (Some ''c1'')
               (demo_held_store ''3'') = (demo_held_store ''3'', Inl e)
           \<and> isValidationError e"
    by (auto simp: demo_available_3)
  with first show ?thesis by blast
qed

text \<open>
  C7 as stated fails: with 3 of the ticket in the cart, a limit of 4 and 1 available, a
  request for 2 more is refused for insufficient inventory, not by validation.
\<close>

theorem reserve_over_limit_no_write_counterexample:
  "getCart (demo_held_store ''9'') ''c1'' = Some (demo_cart, 600)
   \<and> map_of (cart_items demo_cart) ''t1'' = Some demo_item
   \<and> item_quantity demo_item + 2 > perOrderLimit demo_ticket
   \<and> reserveTickets [demo_ticket] demo_env ''u1'' ''t1'' 2 (Some ''c1'') (demo_held_store ''9'')
       = (demo_held_store ''9'', Inl NotEnough)
   \<and> \<not> isValidationError NotEnough"
proof -
  have v: "validateQuantity 2 (perOrderLimit demo_ticket) = None"
    by (simp add: validateQuantity_def demo_cart_line)
  have wc: "Some demo_cart = map_option fst (case Some ''c1'' of None \<Rightarrow> None
                                             | Some x \<Rightarrow> getCart (demo_held_store ''9'') x)"
    by (simp add: demo_getCart)
  have g: "case Some demo_cart of None \<Rightarrow> True
           | Some x \<Rightarrow> cart_userId x = ''u1'' \<and> cart_eventId x = eventId demo_ticket"
    by (simp add: demo_cart_line)
  have short: "2 > available demo_ticket (redis_get (demo_held_store ''9'') (ticketHoldKey ''t1''))"
    by (simp add: demo_available_9)
  from reserveTickets_short [where env = demo_env, OF demo_findById0 v wc g short]
  show ?thesis by (simp add: demo_getCart demo_cart_line)
qed

subsection \<open>Reserve: a counter that is not a number\<close>

lemma redis_int_unparsable: "parseInt raw = None \<Longrightarrow> redis_int raw = None"
  by (simp add: redis_int_def)

lemma available_unparsable:
  "parseInt raw = None \<Longrightarrow> available t (Some raw) = qtyTotal t - qtySold t"
  by (simp add: available_def currentHoldOf_def)

lemma execMulti_carts:
  "carts (execMulti r k q ck c) = (carts r)(ck \<mapsto> (c, Some HOLD_SECONDS))"
  by (auto simp: execMulti_def redis_set_cart_def redis_expire_def redis_incrby_def Let_def
      split: option.splits prod.splits)

lemma execMulti_holds_other:
  "k' \<noteq> k \<Longrightarrow> holds (execMulti r k q ck c) k' = holds r k'"
  by (auto simp: execMulti_def redis_set_cart_def redis_expire_def redis_incrby_def Let_def
      split: option.splits prod.splits)

lemma execMulti_holds_absent:
  "holds r k = None \<Longrightarrow> holds (execMulti r k q ck c) k = Some (show_int q, Some HOLD_SECONDS)"
  by (simp add: execMulti_def redis_set_cart_def redis_expire_def redis_incrby_def Let_def)

lemma execMulti_holds_integer:
  "holds r k = Some (show_int m, t)
     \<Longrightarrow> holds (execMulti r k q ck c) k = Some (show_int (m + q), Some HOLD_SECONDS)"
  by (simp add: execMulti_def redis_set_cart_def redis_expire_def redis_incrby_def Let_def
      redis_int_show_int)

lemma execMulti_holds_garbage:
  "holds r k = Some (raw, t) \<Longrightarrow> redis_int raw = None
     \<Longrightarrow> holds (execMulti r k q ck c) k = Some (raw, Some HOLD_SECONDS)"
  by (simp add: execMulti_def redis_set_cart_def redis_expire_def redis_incrby_def Let_def)

text \<open>
  C10. A hold counter whose stored value \<^verbatim>\<open>parseInt\<close> reads as \<^verbatim>\<open>NaN\<close> counts as 0 in
  the availability computation: \<open>available = qtyTotal - qtySold\<close>, and a run fails for
  insufficient inventory exactly when the quantity exceeds that. The call does not fail on
  the value: with no other client at work, a valid quantity within \<open>qtyTotal - qtySold\<close> on
  a new cart is reserved, and the value stays as it is.
\<close>

theorem reserve_unparsable_counter:
  assumes "holds r (ticketHoldKey ticketId) = Some (raw, ttl)" and "parseInt raw = None"
  shows "available t (redis_get r (ticketHoldKey ticketId)) = qtyTotal t - qtySold t
    \<and> (snd (reserveAttempt t ticketId quantity userId e \<lparr>store = r, workingCart = wc\<rparr>)
           = Inl NotEnough
         \<longleftrightarrow> quantity > qtyTotal t - qtySold t)
    \<and> (findById ts ticketId = Some t \<and> validateQuantity quantity (perOrderLimit t) = None
         \<and> quantity \<le> qtyTotal t - qtySold t \<and> meddling (env 0) = Quiet
       \<longrightarrow> (\<exists>res. snd (reserveTickets ts env userId ticketId quantity None r) = Inr res)
           \<and> holds (fst (reserveTickets ts env userId ticketId quantity None r))
                (ticketHoldKey ticketId) = Some (raw, Some HOLD_SECONDS))"
proof (intro conjI impI)
  from assms show av: "available t (redis_get r (ticketHoldKey ticketId)) = qtyTotal t - qtySold t"
    by (simp add: redis_get_def available_unparsable)
  from reserveAttempt_NotEnough_iff
         [of t ticketId quantity userId e "\<lparr>store = r, workingCart = wc\<rparr>"] av
  show "snd (reserveAttempt t ticketId quantity userId e \<lparr>store = r, workingCart = wc\<rparr>)
           = Inl NotEnough
         \<longleftrightarrow> quantity > qtyTotal t - qtySold t"
    by simp
next
  assume a: "findById ts ticketId = Some t \<and> validateQuantity quantity (perOrderLimit t) = None
         \<and> quantity \<le> qtyTotal t - qtySold t \<and> meddling (env 0) = Quiet"
  from assms have av: "available t (redis_get r (ticketHoldKey ticketId)) = qtyTotal t - qtySold t"
    by (simp add: redis_get_def available_unparsable)
  let ?st = "\<lparr>store = r, workingCart = None\<rparr>"
  have w: "(None :: cart option)
             = map_option fst (case (None :: string option) of None \<Rightarrow> None
                               | Some c \<Rightarrow> getCart r c)" by simp
  have g: "case (None :: cart option) of None \<Rightarrow> True
           | Some c \<Rightarrow> cart_userId c = userId \<and> cart_eventId c = eventId t" by simp
  from a have f: "findById ts ticketId = Some t"
    and v: "validateQuantity quantity (perOrderLimit t) = None"
    and q: "meddling (env 0) = Quiet" by simp_all
  from a av have le: "\<not> quantity > available t (redis_get (store ?st) (ticketHoldKey ticketId))"
    by simp
  have wn: "workingCart ?st = None" by simp
  note att = reserveAttempt_fresh [OF wn le v, of userId "env 0"]
  note whole = reserveTickets_quiet [where env = env, OF f v w g q]
  from whole att q
  show "\<exists>res. snd (reserveTickets ts env userId ticketId quantity None r) = Inr res"
    by (simp add: Let_def)
  from whole att q
  have "fst (reserveTickets ts env userId ticketId quantity None r)
          = execMulti r (ticketHoldKey ticketId) quantity (cartKey (freshId (env 0)))
              \<lparr>cart_cartId = freshId (env 0), cart_userId = userId,
                      cart_eventId = eventId t, cart_currency = currency t,
                      cart_items = [(tid t, buildCartItem t quantity
                                      (clock (env 0) + int HOLD_SECONDS * 1000) (tid t))]\<rparr>"
    by (simp add: Let_def)
  with assms show "holds (fst (reserveTickets ts env userId ticketId quantity None r))
                (ticketHoldKey ticketId) = Some (raw, Some HOLD_SECONDS)"
    by (simp add: execMulti_holds_garbage redis_int_unparsable)
qed

lemma parseInt_abc: "parseInt ''abc'' = None"
  by code_simp

theorem reserve_unparsable_counter_witness:
  "holds (demo_held_store ''abc'') (ticketHoldKey ''t1'') = Some (''abc'', Some 600)
   \<and> parseInt ''abc'' = None
   \<and> available demo_ticket (redis_get (demo_held_store ''abc'') (ticketHoldKey ''t1'')) = 10
   \<and> (\<exists>res. snd (reserveTickets [demo_ticket] demo_env ''u1'' ''t1'' 3 None
                    (demo_held_store ''abc'')) = Inr res)
   \<and> holds (fst (reserveTickets [demo_ticket] demo_env ''u1'' ''t1'' 3 None
                    (demo_held_store ''abc''))) (ticketHoldKey ''t1'')
       = Some (''abc'', Some HOLD_SECONDS)"
proof -
  have h: "holds (demo_held_store ''abc'') (ticketHoldKey ''t1'') = Some (''abc'', Some 600)"
    by (simp add: demo_held_store_def)
  have pre: "findById [demo_ticket] ''t1'' = Some demo_ticket
         \<and> validateQuantity 3 (perOrderLimit demo_ticket) = None
         \<and> 3 \<le> qtyTotal demo_ticket - qtySold demo_ticket \<and> meddling (demo_env 0) = Quiet"
    by (simp add: demo_findById0 validateQuantity_def demo_env_def) (simp add: demo_ticket_def)
  have t: "qtyTotal demo_ticket - qtySold demo_ticket = 10" by (simp add: demo_ticket_def)
  from reserve_unparsable_counter
         [where t = demo_ticket and ts = "[demo_ticket]" and quantity = 3 and env = demo_env
            and userId = "''u1''", OF h parseInt_abc] pre h t
  show ?thesis by (simp add: parseInt_abc)
qed

subsection \<open>Reserve, then release\<close>

lemma reserveTickets_Inr:
  assumes "reserveTickets ts env userId ticketId quantity cartId r = (r1, Inr res)"
  shows "\<exists>t wc. findById ts ticketId = Some t
           \<and> validateQuantity quantity (perOrderLimit t) = None
           \<and> wc = map_option fst (case cartId of None \<Rightarrow> None | Some c \<Rightarrow> getCart r c)
           \<and> (case wc of None \<Rightarrow> True
               | Some c \<Rightarrow> cart_userId c = userId \<and> cart_eventId c = eventId t)"
proof (cases "findById ts ticketId")
  case None
  with assms show ?thesis by (simp add: reserveTickets_def)
next
  case (Some t)
  show ?thesis
  proof (cases "validateQuantity quantity (perOrderLimit t)")
    case (Some e)
    with \<open>findById ts ticketId = Some t\<close> assms show ?thesis by (simp add: reserveTickets_def)
  next
    case None
    let ?wc = "map_option fst (case cartId of None \<Rightarrow> None | Some c \<Rightarrow> getCart r c)"
    have "case ?wc of None \<Rightarrow> True
          | Some c \<Rightarrow> cart_userId c = userId \<and> cart_eventId c = eventId t"
    proof (cases ?wc)
      case None
      then show ?thesis by simp
    next
      case (Some c)
      with assms \<open>findById ts ticketId = Some t\<close> \<open>validateQuantity quantity (perOrderLimit t) = None\<close>
      show ?thesis
        unfolding reserveTickets_def Let_def
        by (simp split: if_splits)
    qed
    with \<open>findById ts ticketId = Some t\<close> None show ?thesis by blast
  qed
qed

text \<open>What a run that succeeds has written.\<close>

lemma reserveAttempt_Inr:
  assumes "reserveAttempt t ticketId quantity userId env st = (st1, Inr res)"
  shows "store st1 = execMulti (store st) (ticketHoldKey ticketId) quantity
                       (cartKey (res_cartId res)) (res_cart res)
    \<and> (case workingCart st of
          None \<Rightarrow> res_cartId res = freshId env
        | Some wc \<Rightarrow> res_cartId res = (if cart_cartId wc = [] then freshId env else cart_cartId wc))
    \<and> (\<exists>item. map_of (cart_items (res_cart res)) (tid t) = Some item
          \<and> item_quantity item =
               (case workingCart st of
                  None \<Rightarrow> quantity
                | Some wc \<Rightarrow>
                    (case map_of (cart_items wc) (tid t) of
                       None \<Rightarrow> quantity
                     | Some old \<Rightarrow> item_quantity old + quantity)))"
  using assms unfolding reserveAttempt_def Let_def
  by (auto simp: update_conv' buildCartItem_def
      split: option.splits interference.splits if_splits)

text \<open>
  C8. Round trip. Let the hold counter of a ticket be absent, let no other client touch it,
  and let a reserve of \<open>q\<close> succeed (on a new cart, or on a cart whose line for the ticket
  has no negative quantity; a generated cart id is not empty). Then the counter holds \<open>q\<close>,
  and releasing \<open>q\<close> of the ticket from the returned cart succeeds and leaves the counter
  key absent again.
\<close>

theorem reserve_release_round_trip:
  assumes "holds r (ticketHoldKey ticketId) = None"
    and "\<forall>j<3. meddling (env j) = Quiet"
    and "freshId (env 0) \<noteq> []"
    and "case cartId of
           None \<Rightarrow> True
         | Some cid \<Rightarrow>
             (case getCart r cid of
                None \<Rightarrow> True
              | Some (c, ttl) \<Rightarrow>
                  (case map_of (cart_items c) ticketId of
                     None \<Rightarrow> True
                   | Some item \<Rightarrow> 0 \<le> item_quantity item))"
    and "reserveTickets ts env userId ticketId q cartId r = (r1, Inr res)"
  shows "holds r1 (ticketHoldKey ticketId) = Some (show_int q, Some HOLD_SECONDS)
    \<and> holds (fst (releaseCartItem now (res_cartId res) ticketId (Some q) r1))
         (ticketHoldKey ticketId) = None
    \<and> (\<exists>out. snd (releaseCartItem now (res_cartId res) ticketId (Some q) r1) = Inr out)"
proof -
  let ?k = "ticketHoldKey ticketId"
  from reserveTickets_Inr [OF assms(5)] obtain t wc where
    f: "findById ts ticketId = Some t"
    and v: "validateQuantity q (perOrderLimit t) = None"
    and wc: "wc = map_option fst (case cartId of None \<Rightarrow> None | Some c \<Rightarrow> getCart r c)"
    and g: "case wc of None \<Rightarrow> True
            | Some c \<Rightarrow> cart_userId c = userId \<and> cart_eventId c = eventId t"
    by blast
  from assms(2) have q0: "meddling (env 0) = Quiet" by simp
  let ?st = "\<lparr>store = r, workingCart = wc\<rparr>"
  obtain st1 where att: "reserveAttempt t ticketId q userId (env 0) ?st = (st1, Inr res)"
    and r1: "store st1 = r1"
    using reserveTickets_quiet [where env = env, OF f v wc g q0] assms(5)
    by (cases "reserveAttempt t ticketId q userId (env 0) ?st") auto
  from findById_tid [OF f] have tid: "tid t = ticketId" .
  from validateQuantity_None [OF v] have qpos: "0 < q" .
  note w = reserveAttempt_Inr [OF att]
  from w r1 have r1eq: "r1 = execMulti r ?k q (cartKey (res_cartId res)) (res_cart res)"
    by simp
  from w obtain item where
    it: "map_of (cart_items (res_cart res)) ticketId = Some item"
    and iq: "item_quantity item =
               (case wc of
                  None \<Rightarrow> q
                | Some c \<Rightarrow>
                    (case map_of (cart_items c) ticketId of
                       None \<Rightarrow> q
                     | Some old \<Rightarrow> item_quantity old + q))"
    using tid by auto
  have old: "0 \<le> item_quantity old" if "wc = Some c" "map_of (cart_items c) ticketId = Some old"
    for c old
    using that assms(4) wc by (auto split: option.splits)
  from iq old have ge: "q \<le> item_quantity item"
    by (cases wc) (auto split: option.splits)
  from w have "res_cartId res \<noteq> []"
    using assms(3) by (cases wc) (auto split: if_splits)
  then have gc: "getCart r1 (res_cartId res) = Some (res_cart res, HOLD_SECONDS)"
    by (simp add: getCart_def r1eq execMulti_carts HOLD_SECONDS_def)
  have h1: "holds r1 ?k = Some (show_int q, Some HOLD_SECONDS)"
    using assms(1) by (simp add: r1eq execMulti_holds_absent)
  have d: "q = (case Some q of Some x \<Rightarrow> min x (item_quantity item)
                | None \<Rightarrow> item_quantity item)"
    using ge by simp
  have dh: "dropHold r1 ?k q = (r1\<lparr>holds := (holds r1)(?k := None)\<rparr>, None)"
    using dropHold_integer [OF h1 redis_int_show_int, of q] by simp
  then have "snd (dropHold r1 ?k q) = None" by simp
  from releaseCartItem_counter [OF gc it d qpos this, of now] dh h1
  show ?thesis by simp
qed

lemma show_int_3: "show_int 3 = ''3''"
  by code_simp

theorem reserve_release_round_trip_witness:
  "holds demo_store (ticketHoldKey ''t1'') = None
   \<and> (\<exists>r1 res. reserveTickets [demo_ticket] demo_env ''u1'' ''t1'' 3 None demo_store = (r1, Inr res)
        \<and> holds r1 (ticketHoldKey ''t1'') = Some (''3'', Some HOLD_SECONDS)
        \<and> holds (fst (releaseCartItem 0 (res_cartId res) ''t1'' (Some 3) r1))
             (ticketHoldKey ''t1'') = None)"
proof -
  have h: "holds demo_store (ticketHoldKey ''t1'') = None" by (simp add: demo_store_def)
  have q: "\<forall>j<3. meddling (demo_env j) = Quiet" by (simp add: demo_env_def)
  have i: "freshId (demo_env 0) \<noteq> []" by (simp add: demo_env_def)
  have c: "case (None :: string option) of
           None \<Rightarrow> True
         | Some cid \<Rightarrow>
             (case getCart demo_store cid of
                None \<Rightarrow> True
              | Some (c, ttl) \<Rightarrow>
                  (case map_of (cart_items c) ''t1'' of
                     None \<Rightarrow> True
                   | Some item \<Rightarrow> 0 \<le> item_quantity item))" by simp
  have v: "validateQuantity 3 (perOrderLimit demo_ticket) = None"
    by (simp add: validateQuantity_def demo_cart_line)
  have w: "(None :: cart option)
             = map_option fst (case (None :: string option) of None \<Rightarrow> None
                               | Some c \<Rightarrow> getCart demo_store c)" by simp
  have g: "case (None :: cart option) of None \<Rightarrow> True
           | Some c \<Rightarrow> cart_userId c = ''u1'' \<and> cart_eventId c = eventId demo_ticket" by simp
  have le: "\<not> 3 > available demo_ticket
                   (redis_get (store \<lparr>store = demo_store, workingCart = None\<rparr>) (ticketHoldKey ''t1''))"
    using demo_available_absent [of 0] by (simp add: demo_ticket_def)
  have wn: "workingCart \<lparr>store = demo_store, workingCart = None\<rparr> = None" by simp
  from reserveTickets_quiet [where env = demo_env, OF demo_findById0 v w g]
    reserveAttempt_fresh [OF wn le v, of "''u1''" "demo_env 0"]
  obtain r1 res where
    ok: "reserveTickets [demo_ticket] demo_env ''u1'' ''t1'' 3 None demo_store = (r1, Inr res)"
    by (simp add: Let_def demo_env_def)
  from reserve_release_round_trip [OF h q i c ok, of 0] ok
  show ?thesis by (auto simp: h show_int_3)
qed

subsection \<open>Reserve: conflicts and retries\<close>

lemma redis_get_touched:
  "redis_get (r\<lparr>holds := (holds r)(k := e)\<rparr>) k = map_option fst e"
  by (simp add: redis_get_def)

lemma reserve_retry_step:
  assumes "i < 3"
    and "reserveAttempt t ticketId quantity userId (env i) st = (st', Inl err)"
    and "retryable err \<noteq> Some False"
    and "j = i + 1"
  shows "withRetry_from (\<lambda>i. reserveAttempt t ticketId quantity userId (env i)) 3 i lastError st
           = withRetry_from (\<lambda>i. reserveAttempt t ticketId quantity userId (env i)) 3 j err st'"
  using assms
    withRetry_from_again [where fn = "\<lambda>i. reserveAttempt t ticketId quantity userId (env i)"
      and i = i and n = 3 and st = st and st' = st' and err = err and lastError = lastError]
  by simp

lemma reserve_retry_stop:
  assumes "i < 3"
    and "reserveAttempt t ticketId quantity userId (env i) st = (st', Inl err)"
    and "retryable err = Some False"
  shows "withRetry_from (\<lambda>i. reserveAttempt t ticketId quantity userId (env i)) 3 i lastError st
           = (st', Inl err)"
  using assms
    withRetry_from_terminal [where fn = "\<lambda>i. reserveAttempt t ticketId quantity userId (env i)"
      and i = i and n = 3 and st = st and st' = st' and err = err and lastError = lastError]
  by simp

lemma reserve_retry_success:
  assumes "i < 3"
    and "reserveAttempt t ticketId quantity userId (env i) st = (st', Inr res)"
  shows "withRetry_from (\<lambda>i. reserveAttempt t ticketId quantity userId (env i)) 3 i lastError st
           = (st', Inr res)"
  using assms
    withRetry_from_success [where fn = "\<lambda>i. reserveAttempt t ticketId quantity userId (env i)"
      and i = i and n = 3 and st = st and st' = st' and res = res and lastError = lastError]
  by simp

text \<open>A call on a new cart whose first runs are rejected by \<^verbatim>\<open>EXEC\<close>.\<close>

lemma reserveAttempt_fresh_conflict:
  assumes "\<not> quantity > available t (redis_get r (ticketHoldKey ticketId))"
    and "validateQuantity quantity (perOrderLimit t) = None"
    and "meddling env = Touched e"
  shows "reserveAttempt t ticketId quantity userId env \<lparr>store = r, workingCart = None\<rparr>
           = (\<lparr>store = r\<lparr>holds := (holds r)(ticketHoldKey ticketId := e)\<rparr>, workingCart = None\<rparr>,
              Inl HoldConflict)"
  using reserveAttempt_fresh [where st = "\<lparr>store = r, workingCart = None\<rparr>" and quantity = quantity
      and t = t and ticketId = ticketId and userId = userId and env = env]
    assms by (simp add: Let_def)

lemma withRetry_three_conflicts:
  assumes v: "validateQuantity quantity (perOrderLimit t) = None"
    and m: "meddling (env 0) = Touched e0" "meddling (env 1) = Touched e1"
      "meddling (env 2) = Touched e2"
    and a: "\<not> quantity > available t (redis_get r (ticketHoldKey ticketId))"
      "\<not> quantity > available t (map_option fst e0)"
      "\<not> quantity > available t (map_option fst e1)"
  shows "withRetry (\<lambda>i. reserveAttempt t ticketId quantity userId (env i)) 3
           \<lparr>store = r, workingCart = None\<rparr>
         = (\<lparr>store = r\<lparr>holds := (holds r)(ticketHoldKey ticketId := e2)\<rparr>, workingCart = None\<rparr>,
            Inl HoldConflict)"
proof -
  let ?k = "ticketHoldKey ticketId"
  let ?fn = "\<lambda>i. reserveAttempt t ticketId quantity userId (env i)"
  let ?s = "\<lambda>x. \<lparr>store = x, workingCart = None\<rparr>"
  let ?r1 = "r\<lparr>holds := (holds r)(?k := e0)\<rparr>"
  let ?r2 = "r\<lparr>holds := (holds r)(?k := e1)\<rparr>"
  let ?r3 = "r\<lparr>holds := (holds r)(?k := e2)\<rparr>"
  have a0: "?fn 0 (?s r) = (?s ?r1, Inl HoldConflict)"
    using reserveAttempt_fresh_conflict [OF a(1) v m(1)] by simp
  have a1: "?fn 1 (?s ?r1) = (?s ?r2, Inl HoldConflict)"
    using reserveAttempt_fresh_conflict [where r = ?r1 and env = "env 1" and e = e1 and t = t
        and quantity = quantity and ticketId = ticketId and userId = userId] a(2) v m(2)
    by (simp add: redis_get_touched)
  have a2: "?fn 2 (?s ?r2) = (?s ?r3, Inl HoldConflict)"
    using reserveAttempt_fresh_conflict [where r = ?r2 and env = "env 2" and e = e2 and t = t
        and quantity = quantity and ticketId = ticketId and userId = userId] a(3) v m(3)
    by (simp add: redis_get_touched)
  have "withRetry_from ?fn 3 0 ThrownUndefined (?s r) = withRetry_from ?fn 3 1 HoldConflict (?s ?r1)"
    by (rule reserve_retry_step [where env = env and i = 0, OF _ a0]) simp_all
  also have "\<dots> = withRetry_from ?fn 3 2 HoldConflict (?s ?r2)"
    by (rule reserve_retry_step [where env = env and i = 1, OF _ a1]) simp_all
  also have "\<dots> = withRetry_from ?fn 3 3 HoldConflict (?s ?r3)"
    by (rule reserve_retry_step [where env = env and i = 2, OF _ a2]) simp_all
  also have "\<dots> = (?s ?r3, Inl HoldConflict)"
    by (simp add: withRetry_from_done)
  finally show ?thesis by (simp add: withRetry_def)
qed

lemma withRetry_third_succeeds:
  assumes v: "validateQuantity quantity (perOrderLimit t) = None"
    and m: "meddling (env 0) = Touched e0" "meddling (env 1) = Touched e1"
      "meddling (env 2) = Quiet"
    and a: "\<not> quantity > available t (redis_get r (ticketHoldKey ticketId))"
      "\<not> quantity > available t (map_option fst e0)"
      "\<not> quantity > available t (map_option fst e1)"
  shows "\<exists>res. withRetry (\<lambda>i. reserveAttempt t ticketId quantity userId (env i)) 3
           \<lparr>store = r, workingCart = None\<rparr>
         = (\<lparr>store = execMulti (r\<lparr>holds := (holds r)(ticketHoldKey ticketId := e1)\<rparr>)
                       (ticketHoldKey ticketId) quantity (cartKey (res_cartId res)) (res_cart res),
             workingCart = None\<rparr>,
            Inr res)
         \<and> res_cartId res = freshId (env 2)"
proof -
  let ?k = "ticketHoldKey ticketId"
  let ?fn = "\<lambda>i. reserveAttempt t ticketId quantity userId (env i)"
  let ?s = "\<lambda>x. \<lparr>store = x, workingCart = None\<rparr>"
  let ?r1 = "r\<lparr>holds := (holds r)(?k := e0)\<rparr>"
  let ?r2 = "r\<lparr>holds := (holds r)(?k := e1)\<rparr>"
  have a0: "?fn 0 (?s r) = (?s ?r1, Inl HoldConflict)"
    using reserveAttempt_fresh_conflict [OF a(1) v m(1)] by simp
  have a1: "?fn 1 (?s ?r1) = (?s ?r2, Inl HoldConflict)"
    using reserveAttempt_fresh_conflict [where r = ?r1 and env = "env 1" and e = e1 and t = t
        and quantity = quantity and ticketId = ticketId and userId = userId] a(2) v m(2)
    by (simp add: redis_get_touched)
  obtain res where a2: "?fn 2 (?s ?r2)
      = (?s (execMulti ?r2 ?k quantity (cartKey (res_cartId res)) (res_cart res)), Inr res)"
    and id: "res_cartId res = freshId (env 2)"
    using reserveAttempt_fresh [where st = "?s ?r2" and quantity = quantity and t = t
        and ticketId = ticketId and userId = userId and env = "env 2"] a(3) v m(3)
    by (simp add: redis_get_touched Let_def)
  have "withRetry_from ?fn 3 0 ThrownUndefined (?s r) = withRetry_from ?fn 3 1 HoldConflict (?s ?r1)"
    by (rule reserve_retry_step [where env = env and i = 0, OF _ a0]) simp_all
  also have "\<dots> = withRetry_from ?fn 3 2 HoldConflict (?s ?r2)"
    by (rule reserve_retry_step [where env = env and i = 1, OF _ a1]) simp_all
  also have "\<dots> = (?s (execMulti ?r2 ?k quantity (cartKey (res_cartId res)) (res_cart res)), Inr res)"
    by (rule reserve_retry_success [where env = env and i = 2, OF _ a2]) simp
  finally show ?thesis using id by (auto simp: withRetry_def)
qed

lemma withRetry_second_short:
  assumes v: "validateQuantity quantity (perOrderLimit t) = None"
    and m: "meddling (env 0) = Touched e0"
    and a: "\<not> quantity > available t (redis_get r (ticketHoldKey ticketId))"
      "quantity > available t (map_option fst e0)"
  shows "withRetry (\<lambda>i. reserveAttempt t ticketId quantity userId (env i)) 3
           \<lparr>store = r, workingCart = None\<rparr>
         = (\<lparr>store = r\<lparr>holds := (holds r)(ticketHoldKey ticketId := e0)\<rparr>, workingCart = None\<rparr>,
            Inl NotEnough)"
proof -
  let ?k = "ticketHoldKey ticketId"
  let ?fn = "\<lambda>i. reserveAttempt t ticketId quantity userId (env i)"
  let ?s = "\<lambda>x. \<lparr>store = x, workingCart = None\<rparr>"
  let ?r1 = "r\<lparr>holds := (holds r)(?k := e0)\<rparr>"
  have a0: "?fn 0 (?s r) = (?s ?r1, Inl HoldConflict)"
    using reserveAttempt_fresh_conflict [OF a(1) v m] by simp
  have a1: "?fn 1 (?s ?r1) = (?s ?r1, Inl NotEnough)"
    using a(2) by (simp add: reserveAttempt_short redis_get_touched)
  have "withRetry_from ?fn 3 0 ThrownUndefined (?s r) = withRetry_from ?fn 3 1 HoldConflict (?s ?r1)"
    by (rule reserve_retry_step [where env = env and i = 0, OF _ a0]) simp_all
  also have "\<dots> = (?s ?r1, Inl NotEnough)"
    by (rule reserve_retry_stop [where env = env and i = 1, OF _ a1]) simp_all
  finally show ?thesis by (simp add: withRetry_def)
qed

lemma reserveTickets_fresh:
  assumes "findById ts ticketId = Some t"
    and "validateQuantity quantity (perOrderLimit t) = None"
  shows "reserveTickets ts env userId ticketId quantity None r =
           (case withRetry (\<lambda>i. reserveAttempt t ticketId quantity userId (env i)) 3
                   \<lparr>store = r, workingCart = None\<rparr> of
              (st, res) \<Rightarrow> (store st, res))"
  using reserveTickets_guarded [where env = env and cartId = None and wc = None, OF assms]
  by simp

text \<open>Runs rejected by \<^verbatim>\<open>EXEC\<close>, on any cart.\<close>

lemma withRetry_conflicts_exhaust:
  assumes "reserveAttempt t ticketId quantity userId (env 0) sa = (sb, Inl HoldConflict)"
    and "reserveAttempt t ticketId quantity userId (env 1) sb = (sc, Inl HoldConflict)"
    and "reserveAttempt t ticketId quantity userId (env 2) sc = (sd, Inl HoldConflict)"
  shows "withRetry (\<lambda>i. reserveAttempt t ticketId quantity userId (env i)) 3 sa
           = (sd, Inl HoldConflict)"
proof -
  let ?fn = "\<lambda>i. reserveAttempt t ticketId quantity userId (env i)"
  have "withRetry_from ?fn 3 0 ThrownUndefined sa = withRetry_from ?fn 3 1 HoldConflict sb"
    by (rule reserve_retry_step [where env = env and i = 0, OF _ assms(1)]) simp_all
  also have "\<dots> = withRetry_from ?fn 3 2 HoldConflict sc"
    by (rule reserve_retry_step [where env = env and i = 1, OF _ assms(2)]) simp_all
  also have "\<dots> = withRetry_from ?fn 3 3 HoldConflict sd"
    by (rule reserve_retry_step [where env = env and i = 2, OF _ assms(3)]) simp_all
  also have "\<dots> = (sd, Inl HoldConflict)"
    by (simp add: withRetry_from_done)
  finally show ?thesis by (simp add: withRetry_def)
qed

lemma withRetry_conflict_then_success:
  assumes "reserveAttempt t ticketId quantity userId (env 0) sa = (sb, Inl HoldConflict)"
    and "reserveAttempt t ticketId quantity userId (env 1) sb = (sc, Inr res)"
  shows "withRetry (\<lambda>i. reserveAttempt t ticketId quantity userId (env i)) 3 sa = (sc, Inr res)"
proof -
  let ?fn = "\<lambda>i. reserveAttempt t ticketId quantity userId (env i)"
  have "withRetry_from ?fn 3 0 ThrownUndefined sa = withRetry_from ?fn 3 1 HoldConflict sb"
    by (rule reserve_retry_step [where env = env and i = 0, OF _ assms(1)]) simp_all
  also have "\<dots> = (sc, Inr res)"
    by (rule reserve_retry_success [where env = env and i = 1, OF _ assms(2)]) simp
  finally show ?thesis by (simp add: withRetry_def)
qed

text \<open>
  The retry loop of \<^verbatim>\<open>reserveTickets\<close>, run by run, with its budget of 3 runs:
  \<^item> \<open>NotEnough\<close> is marked non-retryable: the run that finds \<open>quantity > available\<close> ends the
    loop at once with that error, and no further run is made;
  \<^item> \<open>HoldConflict\<close> is thrown only when \<^verbatim>\<open>EXEC\<close> is rejected because another client wrote the
    watched key; the loop then runs the whole closure again, from the read, on the store
    as that client left it, while runs remain;
  \<^item> after the third run nothing is retried and the last error is thrown.
  So three runs rejected by \<^verbatim>\<open>EXEC\<close> end with \<open>HoldConflict\<close>, and a rejected run followed
  by one that succeeds ends with the reservation. For a call on a new cart: a conflict
  followed by a read that finds too little ends with \<open>NotEnough\<close>; three rejected runs end
  with \<open>HoldConflict\<close>; two rejected runs followed by an undisturbed one end with the
  reservation, made on the counter as last written.
\<close>

theorem reserve_retry_policy:
  "retryable NotEnough = Some False \<and> retryable HoldConflict = Some True
   \<and> (i < 3 \<and> quantity > available t (redis_get (store st) (ticketHoldKey ticketId))
      \<longrightarrow> withRetry_from (\<lambda>i. reserveAttempt t ticketId quantity userId (env i)) 3 i lastError st
            = (st, Inl NotEnough))
   \<and> (i < 3 \<and> reserveAttempt t ticketId quantity userId (env i) st = (st', Inl HoldConflict)
      \<longrightarrow> (\<exists>e. meddling (env i) = Touched e
                \<and> store st' = (store st)\<lparr>holds := (holds (store st))(ticketHoldKey ticketId := e)\<rparr>)
          \<and> withRetry_from (\<lambda>i. reserveAttempt t ticketId quantity userId (env i)) 3 i lastError st
              = withRetry_from (\<lambda>i. reserveAttempt t ticketId quantity userId (env i)) 3 (i + 1)
                  HoldConflict st')
   \<and> withRetry_from (\<lambda>i. reserveAttempt t ticketId quantity userId (env i)) 3 3 HoldConflict st
       = (st, Inl HoldConflict)
   \<and> (reserveAttempt t ticketId quantity userId (env 0) sa = (sb, Inl HoldConflict)
        \<and> reserveAttempt t ticketId quantity userId (env 1) sb = (sc, Inl HoldConflict)
        \<and> reserveAttempt t ticketId quantity userId (env 2) sc = (sd, Inl HoldConflict)
      \<longrightarrow> withRetry (\<lambda>i. reserveAttempt t ticketId quantity userId (env i)) 3 sa
            = (sd, Inl HoldConflict))
   \<and> (reserveAttempt t ticketId quantity userId (env 0) sa = (sb, Inl HoldConflict)
        \<and> reserveAttempt t ticketId quantity userId (env 1) sb = (sc, Inr res)
      \<longrightarrow> withRetry (\<lambda>i. reserveAttempt t ticketId quantity userId (env i)) 3 sa
            = (sc, Inr res))
   \<and> (findById ts ticketId = Some t \<and> validateQuantity quantity (perOrderLimit t) = None
        \<and> quantity \<le> available t (redis_get r (ticketHoldKey ticketId))
        \<and> meddling (env 0) = Touched ea
      \<longrightarrow> (quantity > available t (map_option fst ea)
            \<longrightarrow> reserveTickets ts env userId ticketId quantity None r
                  = (r\<lparr>holds := (holds r)(ticketHoldKey ticketId := ea)\<rparr>, Inl NotEnough))
          \<and> (quantity \<le> available t (map_option fst ea) \<and> meddling (env 1) = Touched eb
               \<and> quantity \<le> available t (map_option fst eb)
             \<longrightarrow> (meddling (env 2) = Touched ec
                   \<longrightarrow> reserveTickets ts env userId ticketId quantity None r
                         = (r\<lparr>holds := (holds r)(ticketHoldKey ticketId := ec)\<rparr>,
                            Inl HoldConflict))
                 \<and> (meddling (env 2) = Quiet
                   \<longrightarrow> (\<exists>res. reserveTickets ts env userId ticketId quantity None r
                         = (execMulti (r\<lparr>holds := (holds r)(ticketHoldKey ticketId := eb)\<rparr>)
                              (ticketHoldKey ticketId) quantity (cartKey (freshId (env 2)))
                              (res_cart res),
                            Inr res)))))"
proof (intro conjI impI)
  show "retryable NotEnough = Some False" "retryable HoldConflict = Some True" by simp_all
next
  assume a: "i < 3 \<and> quantity > available t (redis_get (store st) (ticketHoldKey ticketId))"
  then have "reserveAttempt t ticketId quantity userId (env i) st = (st, Inl NotEnough)"
    by (simp add: reserveAttempt_short)
  with a show "withRetry_from (\<lambda>i. reserveAttempt t ticketId quantity userId (env i)) 3 i
                 lastError st = (st, Inl NotEnough)"
    by (intro reserve_retry_stop) simp_all
next
  assume a: "i < 3 \<and> reserveAttempt t ticketId quantity userId (env i) st = (st', Inl HoldConflict)"
  then show "\<exists>e. meddling (env i) = Touched e
                \<and> store st' = (store st)\<lparr>holds := (holds (store st))(ticketHoldKey ticketId := e)\<rparr>"
    using reserveAttempt_conflict by blast
  from a show "withRetry_from (\<lambda>i. reserveAttempt t ticketId quantity userId (env i)) 3 i lastError st
              = withRetry_from (\<lambda>i. reserveAttempt t ticketId quantity userId (env i)) 3 (i + 1)
                  HoldConflict st'"
    by (intro reserve_retry_step) simp_all
next
  show "withRetry_from (\<lambda>i. reserveAttempt t ticketId quantity userId (env i)) 3 3 HoldConflict st
       = (st, Inl HoldConflict)"
    by (simp add: withRetry_from_done)
next
  assume "reserveAttempt t ticketId quantity userId (env 0) sa = (sb, Inl HoldConflict)
        \<and> reserveAttempt t ticketId quantity userId (env 1) sb = (sc, Inl HoldConflict)
        \<and> reserveAttempt t ticketId quantity userId (env 2) sc = (sd, Inl HoldConflict)"
  then have "reserveAttempt t ticketId quantity userId (env 0) sa = (sb, Inl HoldConflict)"
    and "reserveAttempt t ticketId quantity userId (env 1) sb = (sc, Inl HoldConflict)"
    and "reserveAttempt t ticketId quantity userId (env 2) sc = (sd, Inl HoldConflict)"
    by blast+
  then show "withRetry (\<lambda>i. reserveAttempt t ticketId quantity userId (env i)) 3 sa
            = (sd, Inl HoldConflict)"
    by (rule withRetry_conflicts_exhaust)
next
  assume "reserveAttempt t ticketId quantity userId (env 0) sa = (sb, Inl HoldConflict)
        \<and> reserveAttempt t ticketId quantity userId (env 1) sb = (sc, Inr res)"
  then have "reserveAttempt t ticketId quantity userId (env 0) sa = (sb, Inl HoldConflict)"
    and "reserveAttempt t ticketId quantity userId (env 1) sb = (sc, Inr res)"
    by blast+
  then show "withRetry (\<lambda>i. reserveAttempt t ticketId quantity userId (env i)) 3 sa
            = (sc, Inr res)"
    by (rule withRetry_conflict_then_success)
next
  assume a: "findById ts ticketId = Some t \<and> validateQuantity quantity (perOrderLimit t) = None
        \<and> quantity \<le> available t (redis_get r (ticketHoldKey ticketId))
        \<and> meddling (env 0) = Touched ea"
    and b: "quantity > available t (map_option fst ea)"
  from a have f: "findById ts ticketId = Some t"
    and v: "validateQuantity quantity (perOrderLimit t) = None"
    and m0: "meddling (env 0) = Touched ea"
    and a0: "\<not> quantity > available t (redis_get r (ticketHoldKey ticketId))" by simp_all
  from withRetry_second_short [where env = env and userId = userId, OF v m0 a0 b]
    reserveTickets_fresh [where env = env and userId = userId and r = r, OF f v]
  show "reserveTickets ts env userId ticketId quantity None r
                  = (r\<lparr>holds := (holds r)(ticketHoldKey ticketId := ea)\<rparr>, Inl NotEnough)"
    by simp
next
  assume a: "findById ts ticketId = Some t \<and> validateQuantity quantity (perOrderLimit t) = None
        \<and> quantity \<le> available t (redis_get r (ticketHoldKey ticketId))
        \<and> meddling (env 0) = Touched ea"
    and b: "quantity \<le> available t (map_option fst ea) \<and> meddling (env 1) = Touched eb
               \<and> quantity \<le> available t (map_option fst eb)"
    and c: "meddling (env 2) = Touched ec"
  from a have f: "findById ts ticketId = Some t"
    and v: "validateQuantity quantity (perOrderLimit t) = None"
    and m0: "meddling (env 0) = Touched ea"
    and a0: "\<not> quantity > available t (redis_get r (ticketHoldKey ticketId))" by simp_all
  from b have m1: "meddling (env 1) = Touched eb"
    and a1: "\<not> quantity > available t (map_option fst ea)"
    and a2: "\<not> quantity > available t (map_option fst eb)" by simp_all
  from withRetry_three_conflicts [where env = env and userId = userId, OF v m0 m1 c a0 a1 a2]
    reserveTickets_fresh [where env = env and userId = userId and r = r, OF f v]
  show "reserveTickets ts env userId ticketId quantity None r
                         = (r\<lparr>holds := (holds r)(ticketHoldKey ticketId := ec)\<rparr>,
                            Inl HoldConflict)"
    by simp
next
  assume a: "findById ts ticketId = Some t \<and> validateQuantity quantity (perOrderLimit t) = None
        \<and> quantity \<le> available t (redis_get r (ticketHoldKey ticketId))
        \<and> meddling (env 0) = Touched ea"
    and b: "quantity \<le> available t (map_option fst ea) \<and> meddling (env 1) = Touched eb
               \<and> quantity \<le> available t (map_option fst eb)"
    and c: "meddling (env 2) = Quiet"
  from a have f: "findById ts ticketId = Some t"
    and v: "validateQuantity quantity (perOrderLimit t) = None"
    and m0: "meddling (env 0) = Touched ea"
    and a0: "\<not> quantity > available t (redis_get r (ticketHoldKey ticketId))" by simp_all
  from b have m1: "meddling (env 1) = Touched eb"
    and a1: "\<not> quantity > available t (map_option fst ea)"
    and a2: "\<not> quantity > available t (map_option fst eb)" by simp_all
  from withRetry_third_succeeds [where env = env and userId = userId, OF v m0 m1 c a0 a1 a2]
  obtain res where
    "withRetry (\<lambda>i. reserveAttempt t ticketId quantity userId (env i)) 3
           \<lparr>store = r, workingCart = None\<rparr>
         = (\<lparr>store = execMulti (r\<lparr>holds := (holds r)(ticketHoldKey ticketId := eb)\<rparr>)
                       (ticketHoldKey ticketId) quantity (cartKey (res_cartId res)) (res_cart res),
             workingCart = None\<rparr>,
            Inr res)"
    and "res_cartId res = freshId (env 2)" by blast
  with reserveTickets_fresh [where env = env and userId = userId and r = r, OF f v]
  have "reserveTickets ts env userId ticketId quantity None r
                         = (execMulti (r\<lparr>holds := (holds r)(ticketHoldKey ticketId := eb)\<rparr>)
                              (ticketHoldKey ticketId) quantity (cartKey (freshId (env 2)))
                              (res_cart res),
                            Inr res)"
    by simp
  then show "\<exists>res. reserveTickets ts env userId ticketId quantity None r
                         = (execMulti (r\<lparr>holds := (holds r)(ticketHoldKey ticketId := eb)\<rparr>)
                              (ticketHoldKey ticketId) quantity (cartKey (freshId (env 2)))
                              (res_cart res),
                            Inr res)"
    by blast
qed

lemma parseInt_1: "parseInt ''1'' = Some 1"
  by code_simp

lemma demo_available_1: "available demo_ticket (Some ''1'') = 9"
  by (simp add: available_def currentHoldOf_def parseInt_1 demo_ticket_def)

theorem reserve_retry_policy_witness:
  "reserveTickets [demo_ticket] demo_busy_env ''u1'' ''t1'' 3 None demo_store
     = (demo_store\<lparr>holds := (holds demo_store)(ticketHoldKey ''t1'' \<mapsto> (''1'', Some 600))\<rparr>,
        Inl HoldConflict)
   \<and> withRetry_from (\<lambda>i. reserveAttempt (demo_ticket\<lparr>qtySold := 8\<rparr>) ''t1'' 3 ''u1'' (demo_env i)) 3 0
        ThrownUndefined \<lparr>store = demo_store, workingCart = None\<rparr>
       = (\<lparr>store = demo_store, workingCart = None\<rparr>, Inl NotEnough)"
proof -
  have pre: "findById [demo_ticket] ''t1'' = Some demo_ticket
        \<and> validateQuantity 3 (perOrderLimit demo_ticket) = None
        \<and> 3 \<le> available demo_ticket (redis_get demo_store (ticketHoldKey ''t1''))
        \<and> meddling (demo_busy_env 0) = Touched (Some (''1'', Some 600))"
    using demo_available_absent [of 0]
    by (simp add: demo_findById0 validateQuantity_def demo_cart_line demo_busy_env_def)
       (simp add: demo_ticket_def)
  have more: "3 \<le> available demo_ticket (map_option fst (Some (''1'', Some (600::nat))))
        \<and> meddling (demo_busy_env 1) = Touched (Some (''1'', Some 600))
        \<and> 3 \<le> available demo_ticket (map_option fst (Some (''1'', Some (600::nat))))"
    by (simp add: demo_available_1 demo_busy_env_def)
  have last: "meddling (demo_busy_env 2) = Touched (Some (''1'', Some 600))"
    by (simp add: demo_busy_env_def)
  have short: "(0::nat) < 3 \<and> 3 > available (demo_ticket\<lparr>qtySold := 8\<rparr>)
       (redis_get (store \<lparr>store = demo_store, workingCart = None\<rparr>) (ticketHoldKey ''t1''))"
    by (simp add: demo_available_absent)
  from reserve_retry_policy
         [where ts = "[demo_ticket]" and t = demo_ticket and ticketId = "''t1''" and quantity = 3
            and env = demo_busy_env and r = demo_store and userId = "''u1''"
            and ea = "Some (''1'', Some 600)" and eb = "Some (''1'', Some 600)"
            and ec = "Some (''1'', Some 600)"]
       pre more last
  have one: "reserveTickets [demo_ticket] demo_busy_env ''u1'' ''t1'' 3 None demo_store
     = (demo_store\<lparr>holds := (holds demo_store)(ticketHoldKey ''t1'' \<mapsto> (''1'', Some 600))\<rparr>,
        Inl HoldConflict)"
    by blast
  from reserve_retry_policy
         [where t = "demo_ticket\<lparr>qtySold := 8\<rparr>" and ticketId = "''t1''" and quantity = 3
            and env = demo_env and userId = "''u1''" and i = 0 and lastError = ThrownUndefined
            and st = "\<lparr>store = demo_store, workingCart = None\<rparr>"]
       short
  have two: "withRetry_from (\<lambda>i. reserveAttempt (demo_ticket\<lparr>qtySold := 8\<rparr>) ''t1'' 3 ''u1'' (demo_env i)) 3 0
        ThrownUndefined \<lparr>store = demo_store, workingCart = None\<rparr>
       = (\<lparr>store = demo_store, workingCart = None\<rparr>, Inl NotEnough)"
    by blast
  from one two show ?thesis by simp
qed

subsection \<open>Reserve: a retry on an existing cart\<close>

text \<open>A run on an existing cart that gets as far as \<^verbatim>\<open>EXEC\<close>.\<close>

lemma reserveAttempt_existing:
  assumes "workingCart st = Some c"
    and "\<not> quantity > available t (redis_get (store st) (ticketHoldKey ticketId))"
    and "nq = (case map_of (cart_items c) (tid t) of
                 None \<Rightarrow> quantity
               | Some old \<Rightarrow> item_quantity old + quantity)"
    and "validateQuantity nq (perOrderLimit t) = None"
  shows "reserveAttempt t ticketId quantity userId env st =
     (let written = c\<lparr>cart_items :=
            AList.update (tid t)
              (buildCartItem t nq (clock env + int HOLD_SECONDS * 1000) (tid t))
              (cart_items c)\<rparr>;
          effectiveCartId = (if cart_cartId c = [] then freshId env else cart_cartId c)
      in case meddling env of
           Touched e \<Rightarrow>
             (\<lparr>store = (store st)\<lparr>holds := (holds (store st))(ticketHoldKey ticketId := e)\<rparr>,
               workingCart = Some written\<rparr>, Inl HoldConflict)
         | Quiet \<Rightarrow>
             (\<lparr>store = execMulti (store st) (ticketHoldKey ticketId) quantity
                         (cartKey effectiveCartId) written,
               workingCart = Some written\<rparr>,
              Inr \<lparr>res_cartId = effectiveCartId, res_cart = written,
                   res_expiresInSeconds = HOLD_SECONDS\<rparr>))"
  using assms(1,2,4) unfolding reserveAttempt_def Let_def assms(3)
  by (simp split: interference.splits option.splits)

text \<open>
  A consequence of the shared cart object. \<^verbatim>\<open>workingCart\<close> is built once, outside the
  retried closure, and a run that reaches \<^verbatim>\<open>EXEC\<close> has already written its merged line
  into it. So on an existing cart, the run that follows a rejected \<^verbatim>\<open>EXEC\<close> merges the
  quantity a second time: when it succeeds the line stored is the old quantity plus twice
  the quantity requested, while the counter grows by the quantity once; and when that
  doubled total is over the limit the call fails with the validation error, although the
  total asked for is within the limit.
\<close>

theorem reserve_retry_merges_again:
  assumes "findById ts ticketId = Some t"
    and "validateQuantity quantity (perOrderLimit t) = None"
    and "getCart r cid = Some (c, ttl)"
    and "cart_userId c = userId" and "cart_eventId c = eventId t"
    and "map_of (cart_items c) ticketId = Some old"
    and "validateQuantity (item_quantity old + quantity) (perOrderLimit t) = None"
    and "meddling (env 0) = Touched e" and "meddling (env 1) = Quiet"
    and "quantity \<le> available t (redis_get r (ticketHoldKey ticketId))"
    and "quantity \<le> available t (map_option fst e)"
  shows "(validateQuantity (item_quantity old + 2 * quantity) (perOrderLimit t) = None
      \<longrightarrow> (\<exists>res item.
             reserveTickets ts env userId ticketId quantity (Some cid) r
               = (execMulti (r\<lparr>holds := (holds r)(ticketHoldKey ticketId := e)\<rparr>)
                    (ticketHoldKey ticketId) quantity (cartKey (res_cartId res)) (res_cart res),
                  Inr res)
             \<and> map_of (cart_items (res_cart res)) ticketId = Some item
             \<and> item_quantity item = item_quantity old + 2 * quantity))
   \<and> (validateQuantity (item_quantity old + 2 * quantity) (perOrderLimit t) = Some err
      \<longrightarrow> reserveTickets ts env userId ticketId quantity (Some cid) r
            = (r\<lparr>holds := (holds r)(ticketHoldKey ticketId := e)\<rparr>, Inl err))"
proof -
  let ?k = "ticketHoldKey ticketId"
  let ?fn = "\<lambda>i. reserveAttempt t ticketId quantity userId (env i)"
  from findById_tid [OF assms(1)] have tid: "tid t = ticketId" .
  have wc: "Some c = map_option fst (case Some cid of None \<Rightarrow> None | Some x \<Rightarrow> getCart r x)"
    using assms(3) by simp
  have g: "case Some c of None \<Rightarrow> True
           | Some x \<Rightarrow> cart_userId x = userId \<and> cart_eventId x = eventId t"
    using assms(4,5) by simp
  note whole = reserveTickets_guarded [where env = env, OF assms(1,2) wc g]
  let ?c1 = "c\<lparr>cart_items :=
            AList.update (tid t)
              (buildCartItem t (item_quantity old + quantity)
                 (clock (env 0) + int HOLD_SECONDS * 1000) (tid t))
              (cart_items c)\<rparr>"
  let ?r1 = "r\<lparr>holds := (holds r)(?k := e)\<rparr>"
  let ?s0 = "\<lparr>store = r, workingCart = Some c\<rparr>"
  let ?s1 = "\<lparr>store = ?r1, workingCart = Some ?c1\<rparr>"
  have nq0: "item_quantity old + quantity
               = (case map_of (cart_items c) (tid t) of
                    None \<Rightarrow> quantity | Some x \<Rightarrow> item_quantity x + quantity)"
    using assms(6) tid by simp
  have a0: "?fn 0 ?s0 = (?s1, Inl HoldConflict)"
    using reserveAttempt_existing
            [where st = ?s0 and c = c and env = "env 0" and userId = userId, OF _ _ nq0 assms(7)]
      assms(8,10)
    by (simp add: Let_def)
  have line1: "map_of (cart_items ?c1) (tid t)
                 = Some (buildCartItem t (item_quantity old + quantity)
                           (clock (env 0) + int HOLD_SECONDS * 1000) (tid t))"
    by (simp add: update_conv')
  have nq1: "item_quantity old + 2 * quantity
               = (case map_of (cart_items ?c1) (tid t) of
                    None \<Rightarrow> quantity | Some x \<Rightarrow> item_quantity x + quantity)"
    unfolding line1 by (simp add: buildCartItem_def)
  have av1: "\<not> quantity > available t (redis_get (store ?s1) ?k)"
    using assms(11) by (simp add: redis_get_touched)
  have step0: "withRetry ?fn 3 ?s0 = withRetry_from ?fn 3 1 HoldConflict ?s1"
    unfolding withRetry_def
    by (rule reserve_retry_step [where env = env and i = 0, OF _ a0]) simp_all
  show ?thesis
  proof (intro conjI impI)
    assume v1: "validateQuantity (item_quantity old + 2 * quantity) (perOrderLimit t) = None"
    let ?c2 = "?c1\<lparr>cart_items :=
            AList.update (tid t)
              (buildCartItem t (item_quantity old + 2 * quantity)
                 (clock (env 1) + int HOLD_SECONDS * 1000) (tid t))
              (cart_items ?c1)\<rparr>"
    let ?id = "if cart_cartId ?c1 = [] then freshId (env 1) else cart_cartId ?c1"
    let ?res = "\<lparr>res_cartId = ?id, res_cart = ?c2, res_expiresInSeconds = HOLD_SECONDS\<rparr>"
    let ?s2 = "\<lparr>store = execMulti ?r1 ?k quantity (cartKey ?id) ?c2, workingCart = Some ?c2\<rparr>"
    have a1: "?fn 1 ?s1 = (?s2, Inr ?res)"
      using reserveAttempt_existing
              [where st = ?s1 and c = ?c1 and env = "env 1" and userId = userId
                 and ticketId = ticketId, OF _ av1 nq1 v1]
        assms(9)
      by (simp add: Let_def)
    have "withRetry_from ?fn 3 1 HoldConflict ?s1 = (?s2, Inr ?res)"
      by (rule reserve_retry_success [where env = env and i = 1, OF _ a1]) simp
    with step0 whole
    have "reserveTickets ts env userId ticketId quantity (Some cid) r
            = (execMulti ?r1 ?k quantity (cartKey (res_cartId ?res)) (res_cart ?res), Inr ?res)"
      by simp
    moreover have "map_of (cart_items (res_cart ?res)) ticketId
                     = Some (buildCartItem t (item_quantity old + 2 * quantity)
                               (clock (env 1) + int HOLD_SECONDS * 1000) (tid t))"
      using tid by (simp add: update_conv')
    moreover have "item_quantity (buildCartItem t (item_quantity old + 2 * quantity)
                               (clock (env 1) + int HOLD_SECONDS * 1000) (tid t))
                     = item_quantity old + 2 * quantity"
      by (simp add: buildCartItem_def)
    ultimately show "\<exists>res item.
             reserveTickets ts env userId ticketId quantity (Some cid) r
               = (execMulti (r\<lparr>holds := (holds r)(ticketHoldKey ticketId := e)\<rparr>)
                    (ticketHoldKey ticketId) quantity (cartKey (res_cartId res)) (res_cart res),
                  Inr res)
             \<and> map_of (cart_items (res_cart res)) ticketId = Some item
             \<and> item_quantity item = item_quantity old + 2 * quantity"
      by blast
  next
    assume v1: "validateQuantity (item_quantity old + 2 * quantity) (perOrderLimit t) = Some err"
    have fail: "?fn j ?s1 = (?s1, Inl err)" for j
      using av1 v1 nq1 unfolding reserveAttempt_def Let_def
      by (simp add: line1 buildCartItem_def)
    from validateQuantity_Some [OF v1] have nr: "retryable err \<noteq> Some False" by simp
    from withRetry_from_same_failure [where fn = ?fn and n = 3 and st = ?s1 and e = err
           and i = 1 and lastError = HoldConflict, OF fail nr]
    have "withRetry_from ?fn 3 1 HoldConflict ?s1 = (?s1, Inl err)" by simp
    with step0 whole
    show "reserveTickets ts env userId ticketId quantity (Some cid) r
            = (r\<lparr>holds := (holds r)(ticketHoldKey ticketId := e)\<rparr>, Inl err)"
      by simp
  qed
qed

theorem reserve_retry_merges_again_witness:
  "validateQuantity (item_quantity demo_item + 1) (perOrderLimit demo_ticket) = None
   \<and> reserveTickets [demo_ticket] demo_once_busy_env ''u1'' ''t1'' 1 (Some ''c1'')
        (demo_held_store ''3'')
       = (demo_held_store ''3'', Inl (OverLimit 4))"
proof -
  have v: "validateQuantity 1 (perOrderLimit demo_ticket) = None"
    "validateQuantity (item_quantity demo_item + 1) (perOrderLimit demo_ticket) = None"
    "validateQuantity (item_quantity demo_item + 2 * 1) (perOrderLimit demo_ticket)
       = Some (OverLimit 4)"
    by (simp_all add: validateQuantity_def demo_cart_line)
  have m: "meddling (demo_once_busy_env 0) = Touched (Some (''3'', Some 600))"
    "meddling (demo_once_busy_env 1) = Quiet"
    by (simp_all add: demo_once_busy_env_def)
  have a: "1 \<le> available demo_ticket (redis_get (demo_held_store ''3'') (ticketHoldKey ''t1''))"
    "1 \<le> available demo_ticket (map_option fst (Some (''3'', Some (600::nat))))"
    using demo_available_3
    by (simp_all add: redis_get_def demo_held_store_def)
  have same: "(demo_held_store ''3'')\<lparr>holds := (holds (demo_held_store ''3''))
                 (ticketHoldKey ''t1'' := Some (''3'', Some 600))\<rparr> = demo_held_store ''3''"
    by (simp add: demo_held_store_def)
  from reserve_retry_merges_again
         [where env = demo_once_busy_env and err = "OverLimit 4",
          OF demo_findById0 v(1) demo_getCart demo_cart_line(1,2,3) v(2) m a] v(2,3) same
  show ?thesis by simp
qed

text \<open>A run on an existing cart whose merged line is over the limit.\<close>

lemma reserveAttempt_existing_refused:
  assumes "workingCart st = Some c"
    and "\<not> quantity > available t (redis_get (store st) (ticketHoldKey ticketId))"
    and "nq = (case map_of (cart_items c) (tid t) of
                 None \<Rightarrow> quantity
               | Some old \<Rightarrow> item_quantity old + quantity)"
    and "validateQuantity nq (perOrderLimit t) = Some err"
  shows "reserveAttempt t ticketId quantity userId env st = (st, Inl err)"
  using assms(1,2,4) unfolding reserveAttempt_def Let_def assms(3)
  by (simp split: option.splits)

text \<open>Two runs rejected by \<^verbatim>\<open>EXEC\<close> on an existing cart, and a third.\<close>

lemma reserve_two_conflicts_then_refused:
  assumes "findById ts ticketId = Some t"
    and "validateQuantity quantity (perOrderLimit t) = None"
    and "getCart r cid = Some (c, ttl)"
    and "cart_userId c = userId" and "cart_eventId c = eventId t"
    and "map_of (cart_items c) ticketId = Some old"
    and v: "validateQuantity (item_quantity old + quantity) (perOrderLimit t) = None"
      "validateQuantity (item_quantity old + 2 * quantity) (perOrderLimit t) = None"
      "validateQuantity (item_quantity old + 3 * quantity) (perOrderLimit t) = Some err"
    and m: "meddling (env 0) = Touched ea" "meddling (env 1) = Touched eb"
    and a: "quantity \<le> available t (redis_get r (ticketHoldKey ticketId))"
      "quantity \<le> available t (map_option fst ea)"
      "quantity \<le> available t (map_option fst eb)"
  shows "reserveTickets ts env userId ticketId quantity (Some cid) r
           = (r\<lparr>holds := (holds r)(ticketHoldKey ticketId := eb)\<rparr>, Inl err)"
proof -
  let ?k = "ticketHoldKey ticketId"
  let ?fn = "\<lambda>i. reserveAttempt t ticketId quantity userId (env i)"
  from findById_tid [OF assms(1)] have tid: "tid t = ticketId" .
  have wc: "Some c = map_option fst (case Some cid of None \<Rightarrow> None | Some x \<Rightarrow> getCart r x)"
    using assms(3) by simp
  have g: "case Some c of None \<Rightarrow> True
           | Some x \<Rightarrow> cart_userId x = userId \<and> cart_eventId x = eventId t"
    using assms(4,5) by simp
  note whole = reserveTickets_guarded [where env = env, OF assms(1,2) wc g]
  let ?line = "\<lambda>n i. buildCartItem t n (clock (env i) + int HOLD_SECONDS * 1000) (tid t)"
  let ?ca = "c\<lparr>cart_items :=
            AList.update (tid t) (?line (item_quantity old + quantity) 0) (cart_items c)\<rparr>"
  let ?cb = "?ca\<lparr>cart_items :=
            AList.update (tid t) (?line (item_quantity old + 2 * quantity) 1) (cart_items ?ca)\<rparr>"
  let ?ra = "r\<lparr>holds := (holds r)(?k := ea)\<rparr>"
  let ?rb = "r\<lparr>holds := (holds r)(?k := eb)\<rparr>"
  let ?s = "\<lparr>store = r, workingCart = Some c\<rparr>"
  let ?sa = "\<lparr>store = ?ra, workingCart = Some ?ca\<rparr>"
  let ?sb = "\<lparr>store = ?rb, workingCart = Some ?cb\<rparr>"
  have nq: "item_quantity old + quantity
               = (case map_of (cart_items c) (tid t) of
                    None \<Rightarrow> quantity | Some x \<Rightarrow> item_quantity x + quantity)"
    using assms(6) tid by simp
  have first: "?fn 0 ?s = (?sa, Inl HoldConflict)"
    using reserveAttempt_existing
            [where st = ?s and c = c and env = "env 0" and userId = userId, OF _ _ nq v(1)]
      m(1) a(1)
    by (simp add: Let_def)
  have linea: "map_of (cart_items ?ca) (tid t) = Some (?line (item_quantity old + quantity) 0)"
    by (simp add: update_conv')
  have nqa: "item_quantity old + 2 * quantity
               = (case map_of (cart_items ?ca) (tid t) of
                    None \<Rightarrow> quantity | Some x \<Rightarrow> item_quantity x + quantity)"
    unfolding linea by (simp add: buildCartItem_def)
  have ava: "\<not> quantity > available t (redis_get (store ?sa) ?k)"
    using a(2) by (simp add: redis_get_touched)
  have "?fn 1 ?sa
          = (\<lparr>store = ?ra\<lparr>holds := (holds ?ra)(?k := eb)\<rparr>, workingCart = Some ?cb\<rparr>,
             Inl HoldConflict)"
    using reserveAttempt_existing
            [where st = ?sa and c = ?ca and env = "env 1" and userId = userId
               and ticketId = ticketId, OF _ ava nqa v(2)]
      m(2)
    by (simp add: Let_def)
  then have second: "?fn 1 ?sa = (?sb, Inl HoldConflict)" by simp
  have lineb: "map_of (cart_items ?cb) (tid t) = Some (?line (item_quantity old + 2 * quantity) 1)"
    by (simp add: update_conv')
  have nqb: "item_quantity old + 3 * quantity
               = (case map_of (cart_items ?cb) (tid t) of
                    None \<Rightarrow> quantity | Some x \<Rightarrow> item_quantity x + quantity)"
    unfolding lineb by (simp add: buildCartItem_def)
  have avb: "\<not> quantity > available t (redis_get (store ?sb) ?k)"
    using a(3) by (simp add: redis_get_touched)
  have third: "?fn 2 ?sb = (?sb, Inl err)"
    by (rule reserveAttempt_existing_refused [where c = ?cb, OF _ avb nqb v(3)]) simp
  from validateQuantity_Some [OF v(3)] have nr: "retryable err \<noteq> Some False" by simp
  have "withRetry_from ?fn 3 0 ThrownUndefined ?s = withRetry_from ?fn 3 1 HoldConflict ?sa"
    by (rule reserve_retry_step [where env = env and i = 0, OF _ first]) simp_all
  also have "\<dots> = withRetry_from ?fn 3 2 HoldConflict ?sb"
    by (rule reserve_retry_step [where env = env and i = 1, OF _ second]) simp_all
  also have "\<dots> = withRetry_from ?fn 3 3 err ?sb"
    by (rule reserve_retry_step [where env = env and i = 2, OF _ third nr]) simp_all
  also have "\<dots> = (?sb, Inl err)"
    by (simp add: withRetry_from_done)
  finally have "withRetry ?fn 3 ?s = (?sb, Inl err)" by (simp add: withRetry_def)
  with whole show ?thesis by simp
qed

lemma demo_pair_cart_line:
  "cart_userId demo_pair_cart = ''u1''" "cart_eventId demo_pair_cart = eventId demo_ticket"
  "map_of (cart_items demo_pair_cart) ''t1'' = Some demo_pair_item"
  "item_quantity demo_pair_item = 2"
  by (simp_all add: demo_pair_cart_def demo_cart_def demo_pair_item_def demo_ticket_def
      buildCartItem_def)

lemma demo_pair_getCart: "getCart demo_pair_store ''c1'' = Some (demo_pair_cart, 600)"
  by (simp add: getCart_def demo_pair_store_def)

lemma parseInt_2: "parseInt ''2'' = Some 2"
  by code_simp

lemma demo_available_pair:
  "available demo_ticket (redis_get demo_pair_store (ticketHoldKey ''t1'')) = 8"
  by (simp add: redis_get_def demo_pair_store_def available_def currentHoldOf_def parseInt_2
      demo_ticket_def)

text \<open>
  C4. The loop of \<^verbatim>\<open>reserveTickets\<close> does not retry a rejected \<^verbatim>\<open>EXEC\<close> transparently on an
  existing cart, and three rejected runs need not end with \<open>HoldConflict\<close>. The buyer's
  cart holds 2 of a ticket limited to 4 per order, of which 8 are available, and 1 more is
  asked for: the total asked for, 3, is within the limit. Another client rewrites the hold
  counter during every run. The first run writes the line of 3 into the shared
  \<^verbatim>\<open>workingCart\<close> and is rejected by \<^verbatim>\<open>EXEC\<close>; the second finds that line, makes it 4 and is
  rejected; the third makes it 5, over the limit, and the call ends with the validation
  error \<open>OverLimit 4\<close> where the statement has \<open>HoldConflict\<close>. Neither cart nor counter is
  written by the call.
\<close>

theorem reserve_retry_existing_cart_over_limit:
  "validateQuantity 1 (perOrderLimit demo_ticket) = None
   \<and> validateQuantity (item_quantity demo_pair_item + 1) (perOrderLimit demo_ticket) = None
   \<and> 1 \<le> available demo_ticket (redis_get demo_pair_store (ticketHoldKey ''t1''))
   \<and> (\<forall>i. meddling (demo_busy_env i) = Touched (Some (''1'', Some 600)))
   \<and> reserveTickets [demo_ticket] demo_busy_env ''u1'' ''t1'' 1 (Some ''c1'') demo_pair_store
       = (demo_pair_store\<lparr>holds := (holds demo_pair_store)
                                      (ticketHoldKey ''t1'' \<mapsto> (''1'', Some 600))\<rparr>,
          Inl (OverLimit 4))
   \<and> OverLimit 4 \<noteq> HoldConflict"
proof -
  have v: "validateQuantity 1 (perOrderLimit demo_ticket) = None"
    "validateQuantity (item_quantity demo_pair_item + 1) (perOrderLimit demo_ticket) = None"
    "validateQuantity (item_quantity demo_pair_item + 2 * 1) (perOrderLimit demo_ticket) = None"
    "validateQuantity (item_quantity demo_pair_item + 3 * 1) (perOrderLimit demo_ticket)
       = Some (OverLimit 4)"
    by (simp_all add: validateQuantity_def demo_pair_cart_line demo_cart_line)
  have m: "meddling (demo_busy_env i) = Touched (Some (''1'', Some 600))" for i
    by (simp add: demo_busy_env_def)
  have a: "1 \<le> available demo_ticket (redis_get demo_pair_store (ticketHoldKey ''t1''))"
    "1 \<le> available demo_ticket (map_option fst (Some (''1'', Some (600::nat))))"
    by (simp_all add: demo_available_pair demo_available_1)
  from reserve_two_conflicts_then_refused
         [where env = demo_busy_env and err = "OverLimit 4",
          OF demo_findById0 v(1) demo_pair_getCart demo_pair_cart_line(1,2,3) v(2,3,4)
             m [of 0] m [of 1] a(1) a(2) a(2)]
  have "reserveTickets [demo_ticket] demo_busy_env ''u1'' ''t1'' 1 (Some ''c1'') demo_pair_store
       = (demo_pair_store\<lparr>holds := (holds demo_pair_store)
                                      (ticketHoldKey ''t1'' \<mapsto> (''1'', Some 600))\<rparr>,
          Inl (OverLimit 4))" .
  with v(1,2) a(1) m show ?thesis by simp
qed

end
